(* ===== verification/Prelude.thy ===== *)
theory Prelude
  imports Main "HOL-Library.Word" "HOL-Library.AList" "HOL-Library.Multiset"
begin

text \<open>
  Shared vocabulary of the development: machine integers, Rust's \<open>Result\<close> and \<open>Poll\<close>, panics as
  values, the combinators that thread an explicit external world through asynchronous code, runs of
  labelled transition relations with their invariant rule, and generic facts about association
  lists (the model of \<open>HashMap\<close>). Every other theory imports this one.
\<close>

named_theorems run_intros \<open>introduction rules that build runs of a step relation\<close>
named_theorems world_simps \<open>unfolding rules of the world-threading combinators\<close>

section \<open>Types\<close>

type_synonym u8 = "8 word"
type_synonym u16 = "16 word"
type_synonym u32 = "32 word"

text \<open>Rust's \<open>Result<T, E>\<close> and \<open>Poll<T>\<close>.\<close>

datatype ('a, 'e) result = Ok 'a | Err 'e

datatype 'a poll = Pending | Ready 'a

text \<open>
  The result of running a piece of code that may panic: either it returns a value, or it panics with
  a message (a failed \<open>unwrap\<close> or \<open>expect\<close>).
\<close>

datatype 'a outcome = Returns 'a | Panics string

section \<open>Code that calls the outside world\<close>

text \<open>
  External packages are parameters of the model. A call into one of them is a function on an
  abstract world \<open>'w\<close>; the combinators below sequence such calls the way an \<open>async fn\<close> returning
  \<open>Result<_, E>\<close> does. \<open>await_try m conv k\<close> is \<open>let x = m.await.map_err(conv)?; k(x)\<close>;
  \<open>unwrap_or_panic\<close> is \<open>.unwrap()\<close>.
\<close>

type_synonym ('w, 'a) world_call = "'w \<Rightarrow> 'a \<times> 'w"
type_synonym ('w, 'a, 'e) async_fn = "'w \<Rightarrow> ('a, 'e) result outcome \<times> 'w"

definition return_ok :: "'a \<Rightarrow> ('w, 'a, 'e) async_fn" where
  "return_ok a w = (Returns (Ok a), w)"

definition return_err :: "'e \<Rightarrow> ('w, 'a, 'e) async_fn" where
  "return_err e w = (Returns (Err e), w)"

definition panic :: "string \<Rightarrow> ('w, 'a, 'e) async_fn" where
  "panic msg w = (Panics msg, w)"

definition await :: "('w, 'b) world_call \<Rightarrow> ('b \<Rightarrow> ('w, 'a, 'e) async_fn) \<Rightarrow> ('w, 'a, 'e) async_fn" where
  "await m k w = (case m w of (b, w') \<Rightarrow> k b w')"

definition await_try ::
  "('w, ('b, 'd) result) world_call \<Rightarrow> ('d \<Rightarrow> 'e) \<Rightarrow> ('b \<Rightarrow> ('w, 'a, 'e) async_fn) \<Rightarrow> ('w, 'a, 'e) async_fn"
where
  "await_try m conv k w =
     (case m w of (Ok b, w') \<Rightarrow> k b w' | (Err d, w') \<Rightarrow> (Returns (Err (conv d)), w'))"

definition unwrap_or_panic ::
  "string \<Rightarrow> ('b, 'd) result \<Rightarrow> ('b \<Rightarrow> ('w, 'a, 'e) async_fn) \<Rightarrow> ('w, 'a, 'e) async_fn"
where
  "unwrap_or_panic msg r k = (case r of Ok b \<Rightarrow> k b | Err d \<Rightarrow> panic msg)"

definition await_unwrap ::
  "string \<Rightarrow> ('w, ('b, 'd) result) world_call \<Rightarrow> ('b \<Rightarrow> ('w, 'a, 'e) async_fn) \<Rightarrow> ('w, 'a, 'e) async_fn"
where
  "await_unwrap msg m k w =
     (case m w of (Ok b, w') \<Rightarrow> k b w' | (Err d, w') \<Rightarrow> (Panics msg, w'))"

text \<open>A synchronous call that may panic takes the caller down with it.\<close>

definition call_or_panic :: "'b outcome \<Rightarrow> ('b \<Rightarrow> ('w, 'a, 'e) async_fn) \<Rightarrow> ('w, 'a, 'e) async_fn" where
  "call_or_panic r k = (case r of Returns b \<Rightarrow> k b | Panics msg \<Rightarrow> panic msg)"

lemmas async_defs [world_simps] =
  return_ok_def return_err_def panic_def await_def await_try_def unwrap_or_panic_def await_unwrap_def
  call_or_panic_def

text \<open>A call that succeeded: every combinator passes success on only when its own call succeeded.\<close>

lemma await_try_ok:
  assumes "await_try m conv k w = (Returns (Ok a), w')"
  obtains b v where "m w = (Ok b, v)" and "k b v = (Returns (Ok a), w')"
  using assms by (auto simp: await_try_def split: prod.splits result.splits)

lemma await_ok:
  assumes "await m k w = (Returns (Ok a), w')"
  obtains b v where "m w = (b, v)" and "k b v = (Returns (Ok a), w')"
  using assms by (auto simp: await_def split: prod.splits)

lemma await_unwrap_ok:
  assumes "await_unwrap msg m k w = (Returns (Ok a), w')"
  obtains b v where "m w = (Ok b, v)" and "k b v = (Returns (Ok a), w')"
  using assms by (auto simp: await_unwrap_def split: prod.splits result.splits)

lemma unwrap_or_panic_ok:
  assumes "unwrap_or_panic msg r k w = (Returns (Ok a), w')"
  obtains b where "r = Ok b" and "k b w = (Returns (Ok a), w')"
  using assms by (auto simp: unwrap_or_panic_def panic_def split: result.splits)

lemma call_or_panic_ok:
  assumes "call_or_panic r k w = (Returns (Ok a), w')"
  obtains b where "r = Returns b" and "k b w = (Returns (Ok a), w')"
  using assms by (auto simp: call_or_panic_def panic_def split: outcome.splits)

lemma call_or_panic_simps [simp]:
  "call_or_panic (Returns b) k = k b" "call_or_panic (Panics msg) k = panic msg"
  by (simp_all add: call_or_panic_def)

lemma return_not_ok [simp]:
  "return_err e w \<noteq> (Returns (Ok a), w')"
  "panic msg w \<noteq> (Returns (Ok a), w')"
  "return_ok b w = (Returns (Ok a), w') \<longleftrightarrow> b = a \<and> w = w'"
  by (auto simp: return_err_def panic_def return_ok_def)

lemmas async_okE = await_try_ok await_ok await_unwrap_ok unwrap_or_panic_ok call_or_panic_ok

text \<open>
  What holds of every result: \<open>ensures Q f\<close> says that \<open>f\<close> ends in a result satisfying \<open>Q\<close> from every world.
  Each combinator passes it on from its continuation if the results it adds itself satisfy \<open>Q\<close>.
\<close>

definition ensures :: "(('a, 'e) result outcome \<Rightarrow> bool) \<Rightarrow> ('w, 'a, 'e) async_fn \<Rightarrow> bool" where
  "ensures Q f \<longleftrightarrow> (\<forall>w. Q (fst (f w)))"

definition no_panic :: "'a outcome \<Rightarrow> bool" where
  "no_panic r \<longleftrightarrow> (\<exists>x. r = Returns x)"

lemma no_panic_simps [simp]: "no_panic (Returns x)" "\<not> no_panic (Panics msg)"
  by (simp_all add: no_panic_def)

named_theorems ensures_intros \<open>rules that show a property of every result of asynchronous code\<close>

lemma ensures_return [ensures_intros]:
  "Q (Returns (Ok a)) \<Longrightarrow> ensures Q (return_ok a)"
  "Q (Returns (Err e)) \<Longrightarrow> ensures Q (return_err e)"
  "Q (Panics msg) \<Longrightarrow> ensures Q (panic msg)"
  by (simp_all add: ensures_def return_ok_def return_err_def panic_def)

lemma ensures_await [ensures_intros]: "(\<And>b. ensures Q (k b)) \<Longrightarrow> ensures Q (await m k)"
  by (auto simp: ensures_def await_def split: prod.splits)

lemma ensures_await_try [ensures_intros]:
  "(\<And>d. Q (Returns (Err (conv d)))) \<Longrightarrow> (\<And>b. ensures Q (k b)) \<Longrightarrow> ensures Q (await_try m conv k)"
  by (auto simp: ensures_def await_try_def split: prod.splits result.splits)

lemma ensures_await_unwrap [ensures_intros]:
  "Q (Panics msg) \<or> (\<forall>w. \<exists>b. fst (m w) = Ok b) \<Longrightarrow> (\<And>b. ensures Q (k b)) \<Longrightarrow> ensures Q (await_unwrap msg m k)"
  by (auto simp: ensures_def await_unwrap_def split: prod.splits result.splits) (metis fst_conv result.distinct(1))

lemma ensures_unwrap [ensures_intros]:
  "Q (Panics msg) \<or> (\<exists>b. r = Ok b) \<Longrightarrow> (\<And>b. ensures Q (k b)) \<Longrightarrow> ensures Q (unwrap_or_panic msg r k)"
  by (auto simp: unwrap_or_panic_def ensures_return split: result.splits)

lemma ensures_call [ensures_intros]:
  "(\<forall>msg. Q (Panics msg)) \<or> (\<exists>b. r = Returns b) \<Longrightarrow> (\<And>b. ensures Q (k b)) \<Longrightarrow> ensures Q (call_or_panic r k)"
  by (auto simp: call_or_panic_def ensures_return split: outcome.splits)

section \<open>Runs of a labelled transition relation\<close>

inductive run :: "('s \<Rightarrow> 'l \<Rightarrow> 's \<Rightarrow> bool) \<Rightarrow> 's \<Rightarrow> 'l list \<Rightarrow> 's \<Rightarrow> bool"
  for step where
  run_nil [run_intros]: "run step s [] s"
| run_cons [run_intros]: "step s l t \<Longrightarrow> run step t ls u \<Longrightarrow> run step s (l # ls) u"

inductive_cases run_nilE [elim!]: "run step s [] u"
inductive_cases run_consE [elim!]: "run step s (l # ls) u"

lemma run_single: "step s l t \<Longrightarrow> run step s [l] t"
  by (blast intro: run_intros)

lemma run_append:
  assumes "run step s ls t" and "run step t ms u"
  shows "run step s (ls @ ms) u"
  using assms by (induction rule: run.induct) (auto intro: run_intros)

lemma run_appendE:
  assumes "run step s (ls @ ms) u"
  obtains t where "run step s ls t" and "run step t ms u"
  using assms
proof (induction ls arbitrary: s thesis)
  case Nil
  then show ?case by (auto intro: run_intros)
next
  case (Cons l ls)
  from Cons.prems(2) obtain v where "step s l v" and "run step v (ls @ ms) u" by auto
  then show ?case using Cons.IH Cons.prems(1) by (metis run_cons)
qed

lemma run_restrict:
  assumes "run step s ls t" and "\<forall>l \<in> set ls. P l"
  shows "run (\<lambda>s l t. step s l t \<and> P l) s ls t"
  using assms by (induction rule: run.induct) (auto intro: run_intros)

text \<open>
  The interface every state machine of the development is proved through: an invariant kept by each
  step. The two rules are proved once here; each machine interprets the locale with its own step
  relation.
\<close>

locale step_invariant =
  fixes step :: "'s \<Rightarrow> 'l \<Rightarrow> 's \<Rightarrow> bool"
    and invar :: "'s \<Rightarrow> bool"
  assumes invar_step: "step s l t \<Longrightarrow> invar s \<Longrightarrow> invar t"
begin

lemma invar_run: "run step s ls t \<Longrightarrow> invar s \<Longrightarrow> invar t"
  by (induction rule: run.induct) (auto intro: invar_step)

lemma invar_run_prefix:
  assumes "run step s (ls @ ms) u" and "invar s"
  obtains t where "run step s ls t" and "invar t" and "run step t ms u"
  using assms run_appendE invar_run by metis

end

text \<open>A quantity that no step decreases is no smaller after any run.\<close>

locale step_monotone =
  fixes step :: "'s \<Rightarrow> 'l \<Rightarrow> 's \<Rightarrow> bool"
    and level :: "'s \<Rightarrow> 'a::preorder"
  assumes level_step: "step s l t \<Longrightarrow> level s \<le> level t"
begin

lemma level_run: "run step s ls t \<Longrightarrow> level s \<le> level t"
  by (induction rule: run.induct) (auto intro: order_trans level_step)

end

text \<open>
  An abstract machine with the same labels. If every step of the concrete machine, in a state that satisfies
  its invariant, is a step of the abstract one between the abstractions of its states, then every trace of the
  concrete machine is a trace of the abstract machine.
\<close>

locale step_simulation = step_invariant +
  fixes spec :: "'a \<Rightarrow> 'l \<Rightarrow> 'a \<Rightarrow> bool"
    and abs :: "'s \<Rightarrow> 'a"
  assumes abs_step: "step s l t \<Longrightarrow> invar s \<Longrightarrow> spec (abs s) l (abs t)"
begin

lemma abs_run: "run step s ls t \<Longrightarrow> invar s \<Longrightarrow> run spec (abs s) ls (abs t)"
  by (induction rule: run.induct) (auto intro: run_intros abs_step invar_step)

end

section \<open>Association lists as hash maps\<close>

text \<open>
  A \<open>HashMap\<close> that the code iterates over is an association list with distinct keys. The order in
  which the iterator yields the entries is not specified by Rust, so an operation that iterates takes
  an order function, and the theorems ask only that it permutes the entries.
\<close>

type_synonym ('k, 'v) hashmap = "('k \<times> 'v) list"

definition wf_map :: "('k, 'v) hashmap \<Rightarrow> bool" where
  "wf_map m \<longleftrightarrow> distinct (map fst m)"

definition iterates :: "(('k, 'v) hashmap \<Rightarrow> ('k, 'v) hashmap) \<Rightarrow> bool" where
  "iterates ord \<longleftrightarrow> (\<forall>m. mset (ord m) = mset m)"

lemma iterates_set: "iterates ord \<Longrightarrow> set (ord m) = set m"
  unfolding iterates_def by (metis set_mset_mset)

lemma iterates_id: "iterates (\<lambda>m. m)" and iterates_rev: "iterates rev"
  by (simp_all add: iterates_def)

lemma wf_map_Nil [simp, intro]: "wf_map []"
  by (simp add: wf_map_def)

lemma wf_map_update [simp, intro]: "wf_map m \<Longrightarrow> wf_map (AList.update k v m)"
  by (simp add: wf_map_def distinct_update)

lemma wf_map_delete [simp, intro]: "wf_map m \<Longrightarrow> wf_map (AList.delete k m)"
  by (simp add: wf_map_def distinct_delete)

lemma map_of_AList_delete [simp]: "map_of (AList.delete k m) = (map_of m)(k := None)"
  by (simp add: delete_conv')

lemma map_of_AList_update [simp]: "map_of (AList.update k v m) = (map_of m)(k \<mapsto> v)"
  by (simp add: update_conv')

lemma wf_map_ran: "wf_map m \<Longrightarrow> snd ` set m = ran (map_of m)"
  by (simp add: wf_map_def ran_distinct)

lemma map_of_eq_empty [simp]: "map_of m = Map.empty \<longleftrightarrow> m = []"
  by (cases m) (auto simp: fun_eq_iff split: if_splits)

section \<open>Lists\<close>

lemma take_drop_overwrite:
  "length d \<le> length b \<Longrightarrow> length (d @ drop (length d) b) = length b"
  by simp

lemma filter_neq_id: "c \<notin> set xs \<Longrightarrow> filter (\<lambda>x. x \<noteq> c) xs = xs"
  by (induction xs) auto

end
