(* ===== verification/Rust_Std.thy ===== *)
theory Rust_Std
  imports Prelude
begin

text \<open>
  The parts of Rust's standard library the transport uses: strings as UTF-8 byte sequences
  (\<open>str::split\<close>, \<open>str::replace\<close>, \<open>[String]::join\<close>, \<open>String::from_utf8\<close>, the format \<open>{:02x}\<close>) and
  \<open>std::net\<close> (\<open>Ipv4Addr\<close>, \<open>Ipv6Addr\<close>, \<open>SocketAddr\<close>). A Rust \<open>String\<close> is the list of its UTF-8 bytes, each
  byte one HOL character.
\<close>

section \<open>Strings\<close>

definition byte_to_char :: "u8 \<Rightarrow> char" where
  "byte_to_char b = char_of (unat b)"

definition char_to_byte :: "char \<Rightarrow> u8" where
  "char_to_byte c = word_of_nat (of_char c)"

lemma unat_char_to_byte [simp]: "unat (char_to_byte c) = of_char c"
  by (simp add: char_to_byte_def unsigned_of_nat take_bit_eq_mod)

lemma char_to_byte_inverse [simp]: "byte_to_char (char_to_byte c) = c"
  by (simp add: byte_to_char_def)

lemma byte_to_char_inverse [simp]: "char_to_byte (byte_to_char b) = b"
proof -
  have "unat b < 256" using unsigned_less [of b] by simp
  then show ?thesis by (simp add: byte_to_char_def char_to_byte_def)
qed

text \<open>\<open>String::into_bytes\<close>.\<close>

definition into_bytes :: "string \<Rightarrow> u8 list" where
  "into_bytes s = map char_to_byte s"

lemma length_into_bytes [simp]: "length (into_bytes s) = length s"
  by (simp add: into_bytes_def)

text \<open>Decimal display of a natural number.\<close>

fun show_nat :: "nat \<Rightarrow> string" where
  "show_nat n = (if n < 10 then [char_of (48 + n)] else show_nat (n div 10) @ [char_of (48 + n mod 10)])"

declare show_nat.simps [simp del]

text \<open>
  \<open>String::from_utf8\<close> accepts exactly the well-formed UTF-8 sequences: one to four bytes per scalar
  value, no overlong forms, no surrogates, nothing above U+10FFFF. On failure it reports how many bytes
  were valid and, unless the input just ends too early, how many bytes the bad sequence has.
\<close>

definition in_range :: "nat \<Rightarrow> nat \<Rightarrow> u8 \<Rightarrow> bool" where
  "in_range lo hi b \<longleftrightarrow> lo \<le> unat b \<and> unat b \<le> hi"

definition is_cont :: "u8 \<Rightarrow> bool" where
  "is_cont b = in_range 128 191 b"

definition utf8_second3 :: "u8 \<Rightarrow> u8 \<Rightarrow> bool" where
  "utf8_second3 b c \<longleftrightarrow>
     unat b = 224 \<and> in_range 160 191 c \<or> in_range 225 236 b \<and> is_cont c \<or>
     unat b = 237 \<and> in_range 128 159 c \<or> in_range 238 239 b \<and> is_cont c"

definition utf8_second4 :: "u8 \<Rightarrow> u8 \<Rightarrow> bool" where
  "utf8_second4 b c \<longleftrightarrow>
     unat b = 240 \<and> in_range 144 191 c \<or> in_range 241 243 b \<and> is_cont c \<or>
     unat b = 244 \<and> in_range 128 143 c"

datatype utf8_error = Utf8Error nat "nat option"

text \<open>
  What the validator makes of the sequence that starts at a byte: its length if it is well formed, or
  the length of the error (\<open>None\<close> when the input ends inside the sequence).
\<close>

definition utf8_seq :: "u8 \<Rightarrow> u8 list \<Rightarrow> (nat, nat option) result" where
  "utf8_seq b bs =
     (if unat b < 128 then Ok 1
      else if in_range 194 223 b then
        (case bs of [] \<Rightarrow> Err None | c # _ \<Rightarrow> if is_cont c then Ok 2 else Err (Some 1))
      else if in_range 224 239 b then
        (case bs of [] \<Rightarrow> Err None
         | c # cs \<Rightarrow> if \<not> utf8_second3 b c then Err (Some 1) else
             (case cs of [] \<Rightarrow> Err None | d # _ \<Rightarrow> if is_cont d then Ok 3 else Err (Some 2)))
      else if in_range 240 244 b then
        (case bs of [] \<Rightarrow> Err None
         | c # cs \<Rightarrow> if \<not> utf8_second4 b c then Err (Some 1) else
             (case cs of [] \<Rightarrow> Err None
              | d # ds \<Rightarrow> if \<not> is_cont d then Err (Some 2) else
                  (case ds of [] \<Rightarrow> Err None | e # _ \<Rightarrow> if is_cont e then Ok 4 else Err (Some 3))))
      else Err (Some 1))"

lemma utf8_seq_pos: "utf8_seq b bs = Ok n \<Longrightarrow> 0 < n"
  by (auto simp: utf8_seq_def split: if_splits list.splits)

function utf8_scan :: "nat \<Rightarrow> u8 list \<Rightarrow> (unit, utf8_error) result" where
  "utf8_scan i [] = Ok ()"
| "utf8_scan i (b # bs) =
     (case utf8_seq b bs of
        Ok n \<Rightarrow> utf8_scan (i + n) (drop (n - 1) bs)
      | Err e \<Rightarrow> Err (Utf8Error i e))"
  by pat_completeness auto
termination
  by (relation "measure (\<lambda>(i, bs). length bs)") auto

definition from_utf8 :: "u8 list \<Rightarrow> (string, utf8_error) result" where
  "from_utf8 bs = (case utf8_scan 0 bs of Ok _ \<Rightarrow> Ok (map byte_to_char bs) | Err e \<Rightarrow> Err e)"

text \<open>The text of the error, as \<open>Display\<close> prints it.\<close>

fun show_utf8_error :: "utf8_error \<Rightarrow> string" where
  "show_utf8_error (Utf8Error i (Some n)) =
     ''invalid utf-8 sequence of '' @ show_nat n @ '' bytes from index '' @ show_nat i"
| "show_utf8_error (Utf8Error i None) =
     ''incomplete utf-8 byte sequence from index '' @ show_nat i"

definition is_ascii :: "string \<Rightarrow> bool" where
  "is_ascii s \<longleftrightarrow> (\<forall>c \<in> set s. of_char c < (128::nat))"

lemma utf8_scan_ascii: "\<forall>b \<in> set bs. unat b < 128 \<Longrightarrow> utf8_scan i bs = Ok ()"
  by (induction bs arbitrary: i) (auto simp: utf8_seq_def)

lemma from_utf8_into_bytes: "is_ascii s \<Longrightarrow> from_utf8 (into_bytes s) = Ok s"
  unfolding from_utf8_def into_bytes_def is_ascii_def
  by (simp add: utf8_scan_ascii comp_def)

lemma into_bytes_from_utf8: "from_utf8 bs = Ok s \<Longrightarrow> into_bytes s = bs"
  by (auto simp: from_utf8_def into_bytes_def comp_def split: result.splits)

lemma from_utf8_length: "from_utf8 bs = Ok s \<Longrightarrow> length s = length bs"
  by (auto simp: from_utf8_def split: result.splits)

text \<open>\<open>str::split\<close> on a character: always at least one piece.\<close>

fun split_on :: "char \<Rightarrow> string \<Rightarrow> string list" where
  "split_on c [] = [[]]"
| "split_on c (x # xs) =
     (if x = c then [] # split_on c xs
      else (case split_on c xs of [] \<Rightarrow> [[x]] | y # ys \<Rightarrow> (x # y) # ys))"

lemma split_on_not_Nil [simp]: "split_on c s \<noteq> []"
  by (cases s) (auto split: list.splits)

lemma split_on_id: "c \<notin> set s \<Longrightarrow> split_on c s = [s]"
  by (induction s) auto

lemma split_on_append: "c \<notin> set a \<Longrightarrow> split_on c (a @ c # b) = a # split_on c b"
  by (induction a) auto

lemma split_on_pieces: "p \<in> set (split_on c s) \<Longrightarrow> c \<notin> set p"
proof (induction s arbitrary: p)
  case Nil
  then show ?case by simp
next
  case (Cons x xs)
  obtain y ys where split: "split_on c xs = y # ys"
    by (metis list.exhaust split_on_not_Nil)
  with Cons show ?case by (auto split: if_splits)
qed

text \<open>\<open>str::replace\<close> of one character by a string.\<close>

definition replace_char :: "char \<Rightarrow> string \<Rightarrow> string \<Rightarrow> string" where
  "replace_char c t s = concat (map (\<lambda>x. if x = c then t else [x]) s)"

lemma replace_char_empty: "replace_char c [] s = filter (\<lambda>x. x \<noteq> c) s"
  unfolding replace_char_def by (induction s) auto

text \<open>\<open>[String]::join\<close>.\<close>

fun join_with :: "string \<Rightarrow> string list \<Rightarrow> string" where
  "join_with sep [] = []"
| "join_with sep [s] = s"
| "join_with sep (s # t # ts) = s @ sep @ join_with sep (t # ts)"

lemma join_with_Cons: "join_with sep (s # ts) = (if ts = [] then s else s @ sep @ join_with sep ts)"
  by (cases ts) auto

lemma filter_join_with:
  assumes "\<forall>s \<in> set ss. c \<notin> set s"
  shows "filter (\<lambda>x. x \<noteq> c) (join_with [c] ss) = concat ss"
  using assms
proof (induction ss)
  case Nil
  then show ?case by simp
next
  case (Cons s ss)
  then show ?case by (auto simp: join_with_Cons filter_neq_id)
qed

lemma split_on_join_with:
  assumes "\<forall>s \<in> set ss. c \<notin> set s" and "ss \<noteq> []"
  shows "split_on c (join_with [c] ss) = ss"
  using assms
proof (induction ss)
  case Nil
  then show ?case by simp
next
  case (Cons s ss)
  then show ?case by (auto simp: join_with_Cons split_on_append split_on_id)
qed

lemma length_join_with:
  assumes "\<forall>s \<in> set ss. length s = n" and "ss \<noteq> []"
  shows "length (join_with [c] ss) = length ss * n + (length ss - 1)"
  using assms
proof (induction ss)
  case Nil
  then show ?case by simp
next
  case (Cons s ss)
  then show ?case by (cases ss) (auto simp: join_with_Cons)
qed

text \<open>The format \<open>{:02x}\<close> of a byte: two lowercase hexadecimal digits.\<close>

definition hex_digit :: "nat \<Rightarrow> char" where
  "hex_digit n = (if n < 10 then char_of (48 + n) else char_of (87 + n))"

definition fmt_02x :: "u8 \<Rightarrow> string" where
  "fmt_02x b = [hex_digit (unat b div 16), hex_digit (unat b mod 16)]"

text \<open>The lowercase hexadecimal digits are \<open>0\<close> to \<open>9\<close> and \<open>a\<close> to \<open>f\<close>.\<close>

definition is_hex_lower :: "char \<Rightarrow> bool" where
  "is_hex_lower c \<longleftrightarrow>
     (let n = of_char c :: nat in 48 \<le> n \<and> n \<le> 57 \<or> 97 \<le> n \<and> n \<le> 102)"

definition hex_value :: "char \<Rightarrow> nat" where
  "hex_value c = (let n = of_char c :: nat in if n \<le> 57 then n - 48 else n - 87)"

lemma of_char_hex_digit:
  "n < 16 \<Longrightarrow> of_char (hex_digit n) = (if n < 10 then 48 + n else 87 + n)"
  by (simp add: hex_digit_def)

lemma hex_value_digit [simp]: "n < 16 \<Longrightarrow> hex_value (hex_digit n) = n"
  by (simp add: hex_value_def of_char_hex_digit Let_def)

lemma is_hex_lower_digit [simp]: "n < 16 \<Longrightarrow> is_hex_lower (hex_digit n)"
  by (simp add: is_hex_lower_def of_char_hex_digit Let_def)

lemma hex_lower_not_colon: "is_hex_lower c \<Longrightarrow> c \<noteq> CHR '':''"
  by (auto simp: is_hex_lower_def)

lemma hex_lower_ascii: "is_hex_lower c \<Longrightarrow> of_char c < (128::nat)"
  by (auto simp: is_hex_lower_def Let_def)

lemma unat_byte_less [simp]: "unat (b :: u8) < 256"
  using unsigned_less [of b] by simp

lemma unat_byte_div [simp]: "unat (b :: u8) div 16 < 16"
  using unat_byte_less [of b] by linarith

lemma fmt_02x_hex: "c \<in> set (fmt_02x b) \<Longrightarrow> is_hex_lower c"
  by (auto simp: fmt_02x_def)

lemma length_fmt_02x [simp]: "length (fmt_02x b) = 2"
  by (simp add: fmt_02x_def)

lemma fmt_02x_inj: "fmt_02x a = fmt_02x b \<longleftrightarrow> a = b"
proof
  assume "fmt_02x a = fmt_02x b"
  then have d: "hex_digit (unat a div 16) = hex_digit (unat b div 16)"
    and m: "hex_digit (unat a mod 16) = hex_digit (unat b mod 16)"
    by (auto simp: fmt_02x_def)
  from d have "unat a div 16 = unat b div 16" by (metis hex_value_digit unat_byte_div)
  moreover from m have "unat a mod 16 = unat b mod 16"
    by (metis hex_value_digit mod_less_divisor zero_less_numeral)
  ultimately have "unat a = unat b" by (metis div_mult_mod_eq)
  then show "a = b" by (rule word_unat_eq_iff [THEN iffD2])
qed simp

section \<open>Network addresses (\<open>std::net\<close>)\<close>

type_synonym ipv4 = "32 word"
type_synonym ipv6 = "128 word"

datatype ip_addr = IpV4 ipv4 | IpV6 ipv6

text \<open>\<open>SocketAddrV6\<close> also carries the flow label and the scope id.\<close>

datatype socket_addr =
  SockV4 ipv4 u16
| SockV6 ipv6 u16 u32 u32

fun sock_ip :: "socket_addr \<Rightarrow> ip_addr" where
  "sock_ip (SockV4 a p) = IpV4 a"
| "sock_ip (SockV6 a p f s) = IpV6 a"

fun sock_port :: "socket_addr \<Rightarrow> u16" where
  "sock_port (SockV4 a p) = p"
| "sock_port (SockV6 a p f s) = p"

text \<open>\<open>SocketAddr::new\<close>: flow label and scope id are zero.\<close>

fun sock_new :: "ip_addr \<Rightarrow> u16 \<Rightarrow> socket_addr" where
  "sock_new (IpV4 a) p = SockV4 a p"
| "sock_new (IpV6 a) p = SockV6 a p 0 0"

fun ip_is_ipv4 :: "ip_addr \<Rightarrow> bool" where
  "ip_is_ipv4 (IpV4 a) = True"
| "ip_is_ipv4 (IpV6 a) = False"

definition ip_is_ipv6 :: "ip_addr \<Rightarrow> bool" where
  "ip_is_ipv6 ip \<longleftrightarrow> \<not> ip_is_ipv4 ip"

definition sock_is_ipv4 :: "socket_addr \<Rightarrow> bool" where
  "sock_is_ipv4 a = ip_is_ipv4 (sock_ip a)"

definition sock_is_ipv6 :: "socket_addr \<Rightarrow> bool" where
  "sock_is_ipv6 a = ip_is_ipv6 (sock_ip a)"

text \<open>\<open>is_unspecified\<close>: \<open>0.0.0.0\<close> respectively \<open>::\<close>.\<close>

fun ip_is_unspecified :: "ip_addr \<Rightarrow> bool" where
  "ip_is_unspecified (IpV4 a) = (a = 0)"
| "ip_is_unspecified (IpV6 a) = (a = 0)"

text \<open>\<open>Ipv4Addr::to_ipv6_mapped\<close>: \<open>::ffff:a.b.c.d\<close>.\<close>

definition to_ipv6_mapped :: "ipv4 \<Rightarrow> ipv6" where
  "to_ipv6_mapped a = push_bit 32 0xffff + ucast a"

lemma sock_new_ip [simp]: "sock_ip (sock_new ip p) = ip"
  by (cases ip) auto

lemma sock_new_port [simp]: "sock_port (sock_new ip p) = p"
  by (cases ip) auto

lemma sock_new_inj: "sock_new ip p = sock_new ip' p' \<longleftrightarrow> ip = ip' \<and> p = p'"
  by (cases ip; cases ip') auto

lemma unat_to_ipv6_mapped: "unat (to_ipv6_mapped a) = 0xffff * 2 ^ 32 + unat a"
proof -
  have a: "unat a < 2 ^ 32" using unsigned_less [of a] by simp
  have u: "unat (ucast a :: ipv6) = unat a"
    using a by (simp add: unsigned_ucast_eq take_bit_nat_eq_self)
  have p: "unat (push_bit 32 0xffff :: ipv6) = 0xffff * 2 ^ 32"
    by simp
  show ?thesis
    unfolding to_ipv6_mapped_def using a by (simp add: unat_word_ariths u p del: push_bit_numeral)
qed

lemma to_ipv6_mapped_inj: "to_ipv6_mapped a = to_ipv6_mapped b \<longleftrightarrow> a = b"
  using unat_to_ipv6_mapped [of a] unat_to_ipv6_mapped [of b] by (metis add_left_cancel word_unat_eq_iff)

lemma to_ipv6_mapped_not_unspecified: "to_ipv6_mapped a \<noteq> 0"
  using unat_to_ipv6_mapped [of a] by auto

end
