(* ===== verification/Externals.thy ===== *)
theory Externals
  imports Rust_Std
begin

text \<open>
  The packages the crate is written against. None of their code is part of the repository, so each is
  a record of operations that the model's definitions take as an argument. What the crate relies on is
  stated as a named predicate over the record (\<open>..._laws\<close>): it appears as a hypothesis of the theorems
  that need it, and every clause is documented behaviour of the package. The theory \<open>Instances\<close> gives
  concrete operations that satisfy each of them.
\<close>

section \<open>\<open>multiaddr\<close> (re-exported by \<open>libp2p_core\<close>)\<close>

text \<open>
  The variants of \<open>Protocol\<close> that the crate names, and one constructor for all others. The payload of
  \<open>P2p\<close> is a multihash \<open>'h\<close>; the payload of \<open>XWebRTC\<close> is a byte array, 32 bytes long in every well-formed
  value.
\<close>

datatype 'h protocol =
  Ip4 ipv4
| Ip6 ipv6
| Udp u16
| Tcp u16
| XWebRTC "u8 list"
| P2p 'h
| OtherProtocol nat

fun ip_protocol :: "ip_addr \<Rightarrow> 'h protocol" where
  "ip_protocol (IpV4 a) = Ip4 a"
| "ip_protocol (IpV6 a) = Ip6 a"

record ('ma, 'h) multiaddr_api =
  ma_empty :: 'ma
  ma_with :: "'ma \<Rightarrow> 'h protocol \<Rightarrow> 'ma"
  ma_iter :: "'ma \<Rightarrow> 'h protocol list"
  ma_from_ip :: "ip_addr \<Rightarrow> 'h protocol"

text \<open>
  \<open>Multiaddr::empty()\<close> has no components, \<open>with\<close> appends one, \<open>iter\<close> yields them in order, and
  \<open>Protocol::from(IpAddr)\<close> picks the variant of the address family.
\<close>

definition multiaddr_laws :: "('ma, 'h) multiaddr_api \<Rightarrow> bool" where
  "multiaddr_laws M \<longleftrightarrow>
     ma_iter M (ma_empty M) = [] \<and>
     (\<forall>a p. ma_iter M (ma_with M a p) = ma_iter M a @ [p]) \<and>
     (\<forall>ip. ma_from_ip M ip = ip_protocol ip)"

lemma multiaddr_lawsD:
  assumes "multiaddr_laws M"
  shows "ma_iter M (ma_empty M) = []"
    and "ma_iter M (ma_with M a p) = ma_iter M a @ [p]"
    and "ma_from_ip M ip = ip_protocol ip"
  using assms by (auto simp: multiaddr_laws_def)

section \<open>\<open>hex\<close>\<close>

text \<open>\<open>hex::decode_to_slice(s, buf)\<close>, with the length of the slice.\<close>

type_synonym hex_api = "string \<Rightarrow> nat \<Rightarrow> (u8 list, unit) result"

definition is_hex :: "char \<Rightarrow> bool" where
  "is_hex c \<longleftrightarrow>
     (let n = of_char c :: nat in 48 \<le> n \<and> n \<le> 57 \<or> 97 \<le> n \<and> n \<le> 102 \<or> 65 \<le> n \<and> n \<le> 70)"

text \<open>
  Decoding into a slice of \<open>n\<close> bytes succeeds exactly on \<open>2 * n\<close> hexadecimal digits, fills the slice, and
  inverts the lowercase encoding.
\<close>

definition hex_laws :: "hex_api \<Rightarrow> bool" where
  "hex_laws d \<longleftrightarrow>
     (\<forall>s n. (\<exists>bs. d s n = Ok bs) \<longleftrightarrow> length s = 2 * n \<and> (\<forall>c \<in> set s. is_hex c)) \<and>
     (\<forall>s n bs. d s n = Ok bs \<longrightarrow> length bs = n) \<and>
     (\<forall>bs. d (concat (map fmt_02x bs)) (length bs) = Ok bs)"

lemma is_hex_lower_is_hex: "is_hex_lower c \<Longrightarrow> is_hex c"
  by (auto simp: is_hex_lower_def is_hex_def Let_def)

lemma hex_laws_err:
  assumes "hex_laws d" and "length s \<noteq> 2 * n \<or> (\<exists>c \<in> set s. \<not> is_hex c)"
  shows "d s n = Err ()"
proof (cases "d s n")
  case (Ok bs)
  with assms show ?thesis by (auto simp: hex_laws_def)
qed simp

section \<open>\<open>stun\<close>\<close>

text \<open>
  \<open>is_message\<close>, \<open>Message::unmarshal_binary\<close> (the decoded message or the text of the error) and
  \<open>attributes.get(ATTR_USERNAME)\<close>, which returns the raw value and whether the attribute is present.
\<close>

record 'm stun_api =
  stun_is_message :: "u8 list \<Rightarrow> bool"
  stun_unmarshal_binary :: "u8 list \<Rightarrow> ('m, string) result"
  stun_get_username :: "'m \<Rightarrow> u8 list \<times> bool"

section \<open>\<open>webrtc_util::Error\<close> and \<open>std::io::Error\<close>\<close>

datatype io_kind = KTimedOut | KOther | KUnexpectedEof | KMisc nat

datatype io_error = IoErr io_kind string

datatype util_error =
  Io io_error
| ErrAlreadyClosed
| ErrUseClosedNetworkConn
| OtherUtil string
| MiscUtil nat

section \<open>\<open>webrtc_util::Conn\<close>, \<open>webrtc_ice::udp_mux::UDPMuxConn\<close>\<close>

text \<open>
  A muxed connection is a shared handle \<open>'c\<close> (clones share their state, which lives in the world); its
  key is fixed at creation. \<open>sock_local_addr\<close> and \<open>sock_send_to\<close> are the socket's own operations.
\<close>

record ('c, 'w) udp_conn_api =
  sock_local_addr :: "('w, (socket_addr, util_error) result) world_call"
  sock_send_to :: "u8 list \<Rightarrow> socket_addr \<Rightarrow> ('w, (nat, util_error) result) world_call"
  conn_new :: "socket_addr \<Rightarrow> string \<Rightarrow> ('w, 'c) world_call"
  conn_key :: "'c \<Rightarrow> string"
  conn_get_addresses :: "'c \<Rightarrow> 'w \<Rightarrow> socket_addr list"
  conn_remove_address :: "'c \<Rightarrow> socket_addr \<Rightarrow> 'w \<Rightarrow> 'w"
  conn_write_packet :: "'c \<Rightarrow> u8 list \<Rightarrow> socket_addr \<Rightarrow> ('w, (unit, util_error) result) world_call"
  conn_close :: "'c \<Rightarrow> 'w \<Rightarrow> 'w"

text \<open>
  A new connection carries the key it was made with and is a handle of its own; removing an address from
  one connection removes that address there and nothing else; delivering packets, closing and creating
  connections leave the registered addresses alone. Each clause is the documented effect of the method.
\<close>

definition udp_conn_laws :: "('c, 'w) udp_conn_api \<Rightarrow> bool" where
  "udp_conn_laws U \<longleftrightarrow>
     (\<forall>a k w. conn_key U (fst (conn_new U a k w)) = k) \<and>
     (\<forall>c a w c'. set (conn_get_addresses U c' (conn_remove_address U c a w)) =
        (if c' = c then set (conn_get_addresses U c' w) - {a} else set (conn_get_addresses U c' w))) \<and>
     (\<forall>c p a w c'. conn_get_addresses U c' (snd (conn_write_packet U c p a w)) = conn_get_addresses U c' w) \<and>
     (\<forall>c w c'. conn_get_addresses U c' (conn_close U c w) = conn_get_addresses U c' w) \<and>
     (\<forall>w c'. conn_get_addresses U c' (snd (sock_local_addr U w)) = conn_get_addresses U c' w) \<and>
     (\<forall>a k w c'. set (conn_get_addresses U c' w) \<subseteq> set (conn_get_addresses U c' (snd (conn_new U a k w))))"

lemma udp_conn_lawsD:
  assumes "udp_conn_laws U"
  shows "conn_key U (fst (conn_new U a k w)) = k"
    and "set (conn_get_addresses U c' (conn_remove_address U c a w)) =
      (if c' = c then set (conn_get_addresses U c' w) - {a} else set (conn_get_addresses U c' w))"
    and "conn_get_addresses U c' (snd (conn_write_packet U c p a w)) = conn_get_addresses U c' w"
    and "conn_get_addresses U c' (conn_close U c w) = conn_get_addresses U c' w"
    and "conn_get_addresses U c' (snd (sock_local_addr U w)) = conn_get_addresses U c' w"
    and "set (conn_get_addresses U c' w) \<subseteq> set (conn_get_addresses U c' (snd (conn_new U a k w)))"
  using assms unfolding udp_conn_laws_def by simp_all

section \<open>\<open>futures::channel::mpsc\<close>\<close>

text \<open>
  A bounded queue with state \<open>'q\<close>. \<open>mpsc_try_send\<close> answers whether the item was accepted. The last two
  fields observe the state and are used by the laws only: the queued items, and whether the channel is
  closed (the receiver closed it, or no sender is left).
\<close>

record ('a, 'q) mpsc_api =
  mpsc_channel :: "nat \<Rightarrow> 'q"
  mpsc_try_send :: "'a \<Rightarrow> 'q \<Rightarrow> bool \<times> 'q"
  mpsc_poll_next :: "'q \<Rightarrow> 'a option poll \<times> 'q"
  mpsc_close :: "'q \<Rightarrow> 'q"
  mpsc_queued :: "'q \<Rightarrow> 'a list"
  mpsc_closed :: "'q \<Rightarrow> bool"

definition mpsc_send_laws :: "('a, 'q) mpsc_api \<Rightarrow> bool" where
  "mpsc_send_laws C \<longleftrightarrow>
     (\<forall>x q q'. mpsc_try_send C x q = (True, q') \<longrightarrow>
        mpsc_queued C q' = mpsc_queued C q @ [x] \<and> \<not> mpsc_closed C q \<and> \<not> mpsc_closed C q') \<and>
     (\<forall>x q q'. mpsc_try_send C x q = (False, q') \<longrightarrow>
        mpsc_queued C q' = mpsc_queued C q \<and> mpsc_closed C q' = mpsc_closed C q) \<and>
     (\<forall>x q. mpsc_queued C q = [] \<and> \<not> mpsc_closed C q \<longrightarrow> fst (mpsc_try_send C x q))"

definition mpsc_recv_laws :: "('a, 'q) mpsc_api \<Rightarrow> bool" where
  "mpsc_recv_laws C \<longleftrightarrow>
     (\<forall>q. fst (mpsc_poll_next C q) =
        (case mpsc_queued C q of
           x # xs \<Rightarrow> Ready (Some x)
         | [] \<Rightarrow> if mpsc_closed C q then Ready None else Pending)) \<and>
     (\<forall>q. mpsc_queued C (snd (mpsc_poll_next C q)) = tl (mpsc_queued C q)) \<and>
     (\<forall>q. mpsc_closed C (snd (mpsc_poll_next C q)) = mpsc_closed C q)"

text \<open>
  A new channel is empty and open; a send that is accepted appends to the queue, a refused one changes
  nothing, and an empty open channel accepts; receiving is first in, first out, and ends once the channel
  is closed and drained; closing keeps what is queued.
\<close>

definition mpsc_laws :: "('a, 'q) mpsc_api \<Rightarrow> bool" where
  "mpsc_laws C \<longleftrightarrow>
     mpsc_send_laws C \<and> mpsc_recv_laws C \<and>
     (\<forall>n. mpsc_queued C (mpsc_channel C n) = [] \<and> \<not> mpsc_closed C (mpsc_channel C n)) \<and>
     (\<forall>q. mpsc_closed C (mpsc_close C q) \<and> mpsc_queued C (mpsc_close C q) = mpsc_queued C q)"

lemma mpsc_try_send_True:
  assumes "mpsc_laws C" and "mpsc_try_send C x q = (True, q')"
  shows "mpsc_queued C q' = mpsc_queued C q @ [x]" and "\<not> mpsc_closed C q" and "\<not> mpsc_closed C q'"
  using assms by (simp_all add: mpsc_laws_def mpsc_send_laws_def)

lemma mpsc_try_send_False:
  assumes "mpsc_laws C" and "mpsc_try_send C x q = (False, q')"
  shows "mpsc_queued C q' = mpsc_queued C q" and "mpsc_closed C q' = mpsc_closed C q"
  using assms by (simp_all add: mpsc_laws_def mpsc_send_laws_def)

lemma mpsc_try_send_empty:
  "mpsc_laws C \<Longrightarrow> mpsc_queued C q = [] \<Longrightarrow> \<not> mpsc_closed C q \<Longrightarrow> fst (mpsc_try_send C x q)"
  by (simp add: mpsc_laws_def mpsc_send_laws_def)

lemma mpsc_poll_next_spec:
  assumes "mpsc_laws C"
  shows "fst (mpsc_poll_next C q) =
      (case mpsc_queued C q of
         x # xs \<Rightarrow> Ready (Some x)
       | [] \<Rightarrow> if mpsc_closed C q then Ready None else Pending)"
    and "mpsc_queued C (snd (mpsc_poll_next C q)) = tl (mpsc_queued C q)"
    and "mpsc_closed C (snd (mpsc_poll_next C q)) = mpsc_closed C q"
  using assms by (simp_all add: mpsc_laws_def mpsc_recv_laws_def)

lemma mpsc_new:
  assumes "mpsc_laws C"
  shows "mpsc_queued C (mpsc_channel C n) = []" and "\<not> mpsc_closed C (mpsc_channel C n)"
  using assms by (simp_all add: mpsc_laws_def)

lemma mpsc_close_spec:
  assumes "mpsc_laws C"
  shows "mpsc_closed C (mpsc_close C q)" and "mpsc_queued C (mpsc_close C q) = mpsc_queued C q"
  using assms by (simp_all add: mpsc_laws_def)

section \<open>\<open>tinytemplate\<close>\<close>

record ('tt, 'ctx, 'te) tt_api =
  tt_new :: 'tt
  tt_add_template :: "'tt \<Rightarrow> string \<Rightarrow> string \<Rightarrow> ('tt, 'te) result"
  tt_render :: "'tt \<Rightarrow> string \<Rightarrow> 'ctx \<Rightarrow> (string, 'te) result"

text \<open>
  The fragment of the template syntax the crate uses: literal text and placeholders \<open>{name}\<close> that stand
  for a field of the context. \<open>None\<close> means that the text is outside this fragment (an escape, an
  unterminated or an unknown placeholder), and then nothing is assumed of the package.
\<close>

function expand_template :: "(string \<Rightarrow> string option) \<Rightarrow> string \<Rightarrow> string option" where
  "expand_template f [] = Some []"
| "expand_template f (c # cs) =
     (if c = CHR ''{'' then
        (case dropWhile (\<lambda>x. x \<noteq> CHR ''}'') cs of
           [] \<Rightarrow> None
         | _ # rest \<Rightarrow>
             (case f (takeWhile (\<lambda>x. x \<noteq> CHR ''}'') cs) of
                None \<Rightarrow> None
              | Some v \<Rightarrow> map_option (\<lambda>r. v @ r) (expand_template f rest)))
      else if c = CHR ''}'' \<or> c = CHR 0x5C then None
      else map_option (\<lambda>r. c # r) (expand_template f cs))"
  by pat_completeness auto
termination
proof (relation "measure (\<lambda>(f, s). length s)")
  fix f :: "string \<Rightarrow> string option" and c cs x rest v
  assume "dropWhile (\<lambda>x. x \<noteq> CHR ''}'') cs = x # rest"
  then have "length (x # rest) \<le> length cs" by (metis length_dropWhile_le)
  then show "((f, rest), (f, c # cs)) \<in> measure (\<lambda>(f, s). length s)" by simp
qed auto

text \<open>
  Rendering replaces every placeholder by the formatted field. \<open>flds ctx name\<close> is the text of a field,
  \<open>None\<close> where the context has no such field or its text would be changed by HTML escaping.
\<close>

definition tt_laws :: "('tt, 'ctx, 'te) tt_api \<Rightarrow> ('ctx \<Rightarrow> string \<Rightarrow> string option) \<Rightarrow> bool" where
  "tt_laws T flds \<longleftrightarrow>
     (\<forall>name text ctx s. expand_template (flds ctx) text = Some s \<longrightarrow>
        (\<exists>tt. tt_add_template T (tt_new T) name text = Ok tt \<and> tt_render T tt name ctx = Ok s))"

end
