(* ===== verification/Sdp.thy ===== *)
theory Sdp
  imports Externals
begin

text \<open>
  The predefined session descriptions of \<open>src/sdp.rs\<close> and the context their placeholders are filled from.
\<close>

definition unlines :: "string list \<Rightarrow> string" where
  "unlines ls = concat (map (\<lambda>l. l @ [CHR 0x0A]) ls)"

definition CLIENT_SESSION_DESCRIPTION :: string where
  "CLIENT_SESSION_DESCRIPTION = unlines
    [''v=0'',
     ''o=- 0 0 IN {ip_version} {target_ip}'',
     ''s=-'',
     ''c=IN {ip_version} {target_ip}'',
     ''t=0 0'',
     '''',
     ''m=application {target_port} UDP/DTLS/SCTP webrtc-datachannel'',
     ''a=mid:0'',
     ''a=ice-options:ice2'',
     ''a=ice-ufrag:{ufrag}'',
     ''a=ice-pwd:{pwd}'',
     ''a=fingerprint:sha-256 {fingerprint}'',
     ''a=setup:actpass'',
     ''a=sctp-port:5000'',
     ''a=max-message-size:100000'']"

definition SERVER_SESSION_DESCRIPTION :: string where
  "SERVER_SESSION_DESCRIPTION = unlines
    [''v=0'',
     ''o=- 0 0 IN {ip_version} {target_ip}'',
     ''s=-'',
     ''t=0 0'',
     ''a=ice-lite'',
     ''m=application {target_port} UDP/DTLS/SCTP webrtc-datachannel'',
     ''c=IN {ip_version} {target_ip}'',
     ''a=mid:0'',
     ''a=ice-options:ice2'',
     ''a=ice-ufrag:{ufrag}'',
     ''a=ice-pwd:{pwd}'',
     ''a=fingerprint:sha-256 {fingerprint}'',
     '''',
     ''a=setup:passive'',
     ''a=sctp-port:5000'',
     ''a=max-message-size:100000'',
     ''a=candidate:1 1 UDP 1 {target_ip} {target_port} typ host'']"

datatype ip_version = IP4 | IP6

record description_context =
  dc_ip_version :: ip_version
  dc_target_ip :: ip_addr
  dc_target_port :: u16
  dc_fingerprint :: string
  dc_ufrag :: string
  dc_pwd :: string

text \<open>
  What serialising the context gives for each placeholder. \<open>show_ip\<close> is the text of an IP address.
\<close>

definition html_safe :: "string \<Rightarrow> bool" where
  "html_safe s \<longleftrightarrow> set s \<inter> {CHR ''<'', CHR ''>'', CHR ''&'', CHR 0x22, CHR 0x27} = {}"

fun show_ip_version :: "ip_version \<Rightarrow> string" where
  "show_ip_version IP4 = ''IP4''"
| "show_ip_version IP6 = ''IP6''"

definition safe_text :: "string \<Rightarrow> string option" where
  "safe_text s = (if html_safe s then Some s else None)"

definition description_fields :: "(ip_addr \<Rightarrow> string) \<Rightarrow> description_context \<Rightarrow> string \<Rightarrow> string option" where
  "description_fields show_ip ctx name =
     (if name = ''ip_version'' then Some (show_ip_version (dc_ip_version ctx))
      else if name = ''target_ip'' then safe_text (show_ip (dc_target_ip ctx))
      else if name = ''target_port'' then Some (show_nat (unat (dc_target_port ctx)))
      else if name = ''fingerprint'' then safe_text (dc_fingerprint ctx)
      else if name = ''ufrag'' then safe_text (dc_ufrag ctx)
      else if name = ''pwd'' then safe_text (dc_pwd ctx)
      else None)"

text \<open>A context all of whose texts survive HTML escaping.\<close>

definition safe_context :: "(ip_addr \<Rightarrow> string) \<Rightarrow> description_context \<Rightarrow> bool" where
  "safe_context show_ip ctx \<longleftrightarrow>
     html_safe (show_ip (dc_target_ip ctx)) \<and> html_safe (dc_fingerprint ctx) \<and>
     html_safe (dc_ufrag ctx) \<and> html_safe (dc_pwd ctx)"

text \<open>The texts the two descriptions stand for.\<close>

definition client_sdp_text :: "(ip_addr \<Rightarrow> string) \<Rightarrow> description_context \<Rightarrow> string" where
  "client_sdp_text show_ip ctx =
    (let ipv = show_ip_version (dc_ip_version ctx); ip = show_ip (dc_target_ip ctx);
         port = show_nat (unat (dc_target_port ctx))
     in unlines
       [''v=0'',
        ''o=- 0 0 IN '' @ ipv @ '' '' @ ip,
        ''s=-'',
        ''c=IN '' @ ipv @ '' '' @ ip,
        ''t=0 0'',
        '''',
        ''m=application '' @ port @ '' UDP/DTLS/SCTP webrtc-datachannel'',
        ''a=mid:0'',
        ''a=ice-options:ice2'',
        ''a=ice-ufrag:'' @ dc_ufrag ctx,
        ''a=ice-pwd:'' @ dc_pwd ctx,
        ''a=fingerprint:sha-256 '' @ dc_fingerprint ctx,
        ''a=setup:actpass'',
        ''a=sctp-port:5000'',
        ''a=max-message-size:100000''])"

definition server_sdp_text :: "(ip_addr \<Rightarrow> string) \<Rightarrow> description_context \<Rightarrow> string" where
  "server_sdp_text show_ip ctx =
    (let ipv = show_ip_version (dc_ip_version ctx); ip = show_ip (dc_target_ip ctx);
         port = show_nat (unat (dc_target_port ctx))
     in unlines
       [''v=0'',
        ''o=- 0 0 IN '' @ ipv @ '' '' @ ip,
        ''s=-'',
        ''t=0 0'',
        ''a=ice-lite'',
        ''m=application '' @ port @ '' UDP/DTLS/SCTP webrtc-datachannel'',
        ''c=IN '' @ ipv @ '' '' @ ip,
        ''a=mid:0'',
        ''a=ice-options:ice2'',
        ''a=ice-ufrag:'' @ dc_ufrag ctx,
        ''a=ice-pwd:'' @ dc_pwd ctx,
        ''a=fingerprint:sha-256 '' @ dc_fingerprint ctx,
        '''',
        ''a=setup:passive'',
        ''a=sctp-port:5000'',
        ''a=max-message-size:100000'',
        ''a=candidate:1 1 UDP 1 '' @ ip @ '' '' @ port @ '' typ host''])"

lemma expand_client:
  assumes "safe_context show_ip ctx"
  shows "expand_template (description_fields show_ip ctx) CLIENT_SESSION_DESCRIPTION =
    Some (client_sdp_text show_ip ctx)"
  using assms
  by (simp add: CLIENT_SESSION_DESCRIPTION_def client_sdp_text_def unlines_def description_fields_def
      safe_context_def safe_text_def Let_def)

lemma expand_server:
  assumes "safe_context show_ip ctx"
  shows "expand_template (description_fields show_ip ctx) SERVER_SESSION_DESCRIPTION =
    Some (server_sdp_text show_ip ctx)"
  using assms
  by (simp add: SERVER_SESSION_DESCRIPTION_def server_sdp_text_def unlines_def description_fields_def
      safe_context_def safe_text_def Let_def)

end
