(* ===== verification/Instances.thy ===== *)
theory Instances
  imports Sdp
begin

text \<open>
  Concrete operations for the external packages, simple enough to evaluate, with the proof that they
  satisfy the laws assumed of the packages. The witnesses of the development run on them: they show that
  the hypotheses of the theorems can hold together. They are not models of the packages.
\<close>

section \<open>Multiaddresses as lists\<close>

definition list_ma :: "(nat protocol list, nat) multiaddr_api" where
  "list_ma = \<lparr>ma_empty = [], ma_with = (\<lambda>a p. a @ [p]), ma_iter = (\<lambda>a. a), ma_from_ip = ip_protocol\<rparr>"

lemma list_ma_laws: "multiaddr_laws list_ma"
  by (simp add: multiaddr_laws_def list_ma_def)

section \<open>Hexadecimal decoding\<close>

definition hex_digit_value :: "char \<Rightarrow> nat" where
  "hex_digit_value c = (let n = of_char c :: nat in if n \<le> 57 then n - 48 else if n \<le> 70 then n - 55 else n - 87)"

fun pairs_to_bytes :: "string \<Rightarrow> u8 list" where
  "pairs_to_bytes (a # b # s) = word_of_nat (hex_digit_value a * 16 + hex_digit_value b) # pairs_to_bytes s"
| "pairs_to_bytes _ = []"

definition ref_hex :: hex_api where
  "ref_hex s n = (if length s = 2 * n \<and> list_all is_hex s then Ok (pairs_to_bytes s) else Err ())"

lemma length_pairs_to_bytes: "length (pairs_to_bytes s) = length s div 2"
  by (induction s rule: pairs_to_bytes.induct) auto

lemma hex_digit_value_digit: "n < 16 \<Longrightarrow> hex_digit_value (hex_digit n) = n"
  by (simp add: hex_digit_value_def of_char_hex_digit Let_def)

lemma pairs_to_bytes_encode: "pairs_to_bytes (concat (map fmt_02x bs)) = bs"
proof (induction bs)
  case (Cons b bs)
  have "hex_digit_value (hex_digit (unat b div 16)) * 16 + hex_digit_value (hex_digit (unat b mod 16)) = unat b"
    by (simp add: hex_digit_value_digit)
  with Cons show ?case by (simp add: fmt_02x_def del: of_nat_add of_nat_mult)
qed simp

lemma ref_hex_laws: "hex_laws ref_hex"
proof -
  have "list_all is_hex (concat (map fmt_02x bs))" for bs
    by (auto simp: list_all_iff dest: fmt_02x_hex is_hex_lower_is_hex)
  moreover have "length (concat (map fmt_02x bs)) = 2 * length bs" for bs
    by (induction bs) auto
  ultimately show ?thesis
    by (auto simp: hex_laws_def ref_hex_def list_all_iff length_pairs_to_bytes pairs_to_bytes_encode)
qed

section \<open>Channels as bounded lists\<close>

definition list_mpsc :: "('a, nat \<times> 'a list \<times> bool) mpsc_api" where
  "list_mpsc =
    \<lparr>mpsc_channel = (\<lambda>n. (n, [], False)),
     mpsc_try_send = (\<lambda>x (n, xs, c). if \<not> c \<and> length xs \<le> n then (True, (n, xs @ [x], c)) else (False, (n, xs, c))),
     mpsc_poll_next = (\<lambda>(n, xs, c).
       case xs of x # ys \<Rightarrow> (Ready (Some x), (n, ys, c)) | [] \<Rightarrow> (if c then Ready None else Pending, (n, [], c))),
     mpsc_close = (\<lambda>(n, xs, c). (n, xs, True)),
     mpsc_queued = (\<lambda>(n, xs, c). xs),
     mpsc_closed = (\<lambda>(n, xs, c). c)\<rparr>"

lemma list_mpsc_sel [simp]:
  "mpsc_try_send list_mpsc x (n, xs, c) =
     (if \<not> c \<and> length xs \<le> n then (True, (n, xs @ [x], c)) else (False, (n, xs, c)))"
  "mpsc_queued list_mpsc (n, xs, c) = xs" "mpsc_closed list_mpsc (n, xs, c) = c"
  "mpsc_channel list_mpsc n = (n, [], False)"
  by (simp_all add: list_mpsc_def)

lemma list_mpsc_laws: "mpsc_laws list_mpsc"
  by (auto simp: mpsc_laws_def mpsc_send_laws_def mpsc_recv_laws_def list_mpsc_def split: list.splits if_splits)

section \<open>STUN messages: a marker, a length and the user name\<close>

fun toy_unmarshal :: "u8 list \<Rightarrow> (u8 list, string) result" where
  "toy_unmarshal (m # n # bs) = (if m = 1 then Ok (take (unat n) bs) else Err ''not a STUN message'')"
| "toy_unmarshal _ = Err ''unexpected EOF''"

definition toy_stun :: "u8 list stun_api" where
  "toy_stun =
    \<lparr>stun_is_message = (\<lambda>b. b \<noteq> [] \<and> hd b = 1),
     stun_unmarshal_binary = toy_unmarshal,
     stun_get_username = (\<lambda>name. (name, name \<noteq> []))\<rparr>"

definition toy_packet :: "string \<Rightarrow> u8 list" where
  "toy_packet name = 1 # word_of_nat (length name) # into_bytes name"

lemma toy_unmarshal_packet:
  "length name < 256 \<Longrightarrow> toy_unmarshal (toy_packet name @ rest) = Ok (into_bytes name)"
  by (simp add: toy_packet_def unsigned_of_nat take_bit_nat_eq_self)

section \<open>Muxed connections: numbered handles over a world of address lists\<close>

type_synonym tconn = "nat \<times> string"

record tworld =
  tw_next :: nat
  tw_local :: "(socket_addr, util_error) result"
  tw_addrs :: "tconn \<Rightarrow> socket_addr list"
  tw_closed :: "tconn list"
  tw_packets :: "(tconn \<times> u8 list \<times> socket_addr) list"
  tw_sent :: "(u8 list \<times> socket_addr) list"

definition tw_init :: tworld where
  "tw_init = \<lparr>tw_next = 0, tw_local = Ok (SockV4 0 7), tw_addrs = (\<lambda>_. []), tw_closed = [], tw_packets = [], tw_sent = []\<rparr>"

definition toy_udp :: "(tconn, tworld) udp_conn_api" where
  "toy_udp =
    \<lparr>sock_local_addr = (\<lambda>w. (tw_local w, w)),
     sock_send_to = (\<lambda>b a w. (Ok (length b), w\<lparr>tw_sent := tw_sent w @ [(b, a)]\<rparr>)),
     conn_new = (\<lambda>a k w. ((tw_next w, k), w\<lparr>tw_next := Suc (tw_next w)\<rparr>)),
     conn_key = snd,
     conn_get_addresses = (\<lambda>c w. tw_addrs w c),
     conn_remove_address = (\<lambda>c a w. w\<lparr>tw_addrs := (tw_addrs w)(c := removeAll a (tw_addrs w c))\<rparr>),
     conn_write_packet = (\<lambda>c p a w. (Ok (), w\<lparr>tw_packets := tw_packets w @ [(c, p, a)]\<rparr>)),
     conn_close = (\<lambda>c w. w\<lparr>tw_closed := tw_closed w @ [c]\<rparr>)\<rparr>"

lemma toy_udp_laws: "udp_conn_laws toy_udp"
  by (simp add: udp_conn_laws_def toy_udp_def)

section \<open>Templates\<close>

definition list_tt ::
  "('ctx \<Rightarrow> string \<Rightarrow> string option) \<Rightarrow> ((string \<times> string) list, 'ctx, unit) tt_api" where
  "list_tt flds =
    \<lparr>tt_new = [],
     tt_add_template = (\<lambda>tt name text. Ok ((name, text) # tt)),
     tt_render = (\<lambda>tt name ctx.
       case map_of tt name of
         None \<Rightarrow> Err ()
       | Some text \<Rightarrow> (case expand_template (flds ctx) text of None \<Rightarrow> Err () | Some s \<Rightarrow> Ok s))\<rparr>"

lemma list_tt_laws: "tt_laws (list_tt flds) flds"
  by (auto simp: tt_laws_def list_tt_def)

end
