(* ===== verification/Transport_Util.thy ===== *)
theory Transport_Util
  imports Instances
begin

text \<open>
  The free functions of \<open>src/transport.rs\<close>: building and parsing WebRTC multiaddresses, printing
  fingerprints, rendering session descriptions, configuring the setting engine; and \<open>hex_to_cow\<close> of
  \<open>src/udp_mux.rs\<close>, the other end of the fingerprint text format. The error type of \<open>src/error.rs\<close> is here too.
\<close>

section \<open>\<open>error.rs\<close>\<close>

text \<open>\<open>'x\<close> is the error type of the external packages (\<open>webrtc::Error\<close>, \<open>NoiseError\<close>).\<close>

datatype ('ma, 'pid, 'x) error =
  InvalidMultiaddr 'ma
| WebRTC 'x
| IoError io_error
| Noise 'x
| InvalidFingerprint string string
| InvalidPeerID "'pid option" 'pid
| InternalError string

section \<open>Multiaddresses\<close>

definition ip_to_multiaddr :: "('ma, 'h) multiaddr_api \<Rightarrow> ip_addr \<Rightarrow> u16 \<Rightarrow> 'ma" where
  "ip_to_multiaddr M ip port = ma_with M (ma_with M (ma_empty M) (ma_from_ip M ip)) (Udp port)"

text \<open>The loop over the remaining components accepts \<open>/p2p/...\<close> only.\<close>

fun only_p2p :: "'h protocol list \<Rightarrow> bool" where
  "only_p2p [] = True"
| "only_p2p (P2p h # ps) = only_p2p ps"
| "only_p2p (p # ps) = False"

definition multiaddr_to_socketaddr :: "('ma, 'h) multiaddr_api \<Rightarrow> 'ma \<Rightarrow> socket_addr option" where
  "multiaddr_to_socketaddr M addr =
     (case ma_iter M addr of
        proto1 # proto2 # proto3 # rest \<Rightarrow>
          if only_p2p rest then
            (case (proto1, proto2, proto3) of
               (Ip4 ip, Udp port, XWebRTC _) \<Rightarrow> Some (sock_new (IpV4 ip) port)
             | (Ip6 ip, Udp port, XWebRTC _) \<Rightarrow> Some (sock_new (IpV6 ip) port)
             | _ \<Rightarrow> None)
          else None
      | _ \<Rightarrow> None)"

fun first_xwebrtc :: "'h protocol list \<Rightarrow> u8 list option" where
  "first_xwebrtc [] = None"
| "first_xwebrtc (XWebRTC f # ps) = Some f"
| "first_xwebrtc (p # ps) = first_xwebrtc ps"

definition fingerprint_from_addr :: "('ma, 'h) multiaddr_api \<Rightarrow> 'ma \<Rightarrow> u8 list option" where
  "fingerprint_from_addr M addr = first_xwebrtc (ma_iter M addr)"

section \<open>Fingerprints\<close>

definition fingerprint_to_string :: "u8 list \<Rightarrow> string" where
  "fingerprint_to_string f = join_with '':'' (map fmt_02x f)"

text \<open>
  \<open>fingerprint.to_owned().replace(':', "")\<close>, the text without its separators, as \<open>render_description\<close>,
  \<open>build_setting_engine\<close> and the worker of the UDP mux compute it.
\<close>

definition strip_colons :: "string \<Rightarrow> string" where
  "strip_colons s = replace_char CHR '':'' [] s"

text \<open>\<open>hex_to_cow\<close> of \<open>src/udp_mux.rs\<close> unwraps the decoder's result.\<close>

definition hex_to_cow :: "hex_api \<Rightarrow> string \<Rightarrow> u8 list outcome" where
  "hex_to_cow d s = (case d s 32 of Ok buf \<Rightarrow> Returns buf | Err _ \<Rightarrow> Panics ''hex_to_cow: unwrap on an Err value'')"

text \<open>
  A certificate is an external object: all the code asks of it is the list of its fingerprint values, or
  an error. A configuration is the list of its certificates.
\<close>

type_synonym 'o rtc_config = "'o list"

definition fingerprint_of_first_certificate ::
  "('o \<Rightarrow> (string list, 'x) result) \<Rightarrow> 'o rtc_config \<Rightarrow> string outcome" where
  "fingerprint_of_first_certificate get_fingerprints config =
     (case config of
        [] \<Rightarrow> Panics ''at least one certificate''
      | cert # _ \<Rightarrow>
          (case get_fingerprints cert of
             Err e \<Rightarrow> Panics ''fingerprints to succeed''
           | Ok [] \<Rightarrow> Panics ''unwrap on a None value''
           | Ok (v # _) \<Rightarrow> Returns v))"

section \<open>Session descriptions and the setting engine\<close>

definition description_context_of :: "socket_addr \<Rightarrow> string \<Rightarrow> description_context" where
  "description_context_of addr fingerprint =
     \<lparr>dc_ip_version = (if sock_is_ipv4 addr then IP4 else IP6),
      dc_target_ip = sock_ip addr,
      dc_target_port = sock_port addr,
      dc_fingerprint = fingerprint,
      dc_ufrag = strip_colons fingerprint,
      dc_pwd = strip_colons fingerprint\<rparr>"

definition render_description ::
  "('tt, description_context, 'te) tt_api \<Rightarrow> string \<Rightarrow> socket_addr \<Rightarrow> string \<Rightarrow> string outcome" where
  "render_description T description addr fingerprint =
     (case tt_add_template T (tt_new T) ''description'' description of
        Err e \<Rightarrow> Panics ''add_template: unwrap on an Err value''
      | Ok tt \<Rightarrow>
          (case tt_render T tt ''description'' (description_context_of addr fingerprint) of
             Err e \<Rightarrow> Panics ''render: unwrap on an Err value''
           | Ok s \<Rightarrow> Returns s))"

text \<open>
  A \<open>SettingEngine\<close> is what was configured on a default one: the sequence of setter calls. \<open>'u\<close> is a handle on
  the UDP mux.
\<close>

datatype network_type = Udp4 | Udp6

datatype dtls_role = DTLSServer | DTLSClient

datatype 'u se_call =
  SetIceCredentials string string
| SetUdpNetworkMuxed 'u
| DetachDataChannels
| SetNetworkTypes "network_type list"
| SetLite bool
| SetAnsweringDtlsRole dtls_role

type_synonym 'u setting_engine = "'u se_call list"

definition build_setting_engine :: "'u \<Rightarrow> socket_addr \<Rightarrow> string \<Rightarrow> 'u setting_engine" where
  "build_setting_engine udp_mux addr fingerprint =
     (let f = strip_colons fingerprint;
          network_type = (if sock_is_ipv4 addr then Udp4 else Udp6)
      in [SetIceCredentials f f, SetUdpNetworkMuxed udp_mux, DetachDataChannels, SetNetworkTypes [network_type]])"

section \<open>Facts about multiaddresses\<close>

lemma only_p2p_iff: "only_p2p ps \<longleftrightarrow> (\<forall>p \<in> set ps. \<exists>h. p = P2p h)"
  by (induction ps rule: only_p2p.induct) auto

lemma multiaddr_to_socketaddr_Some:
  "multiaddr_to_socketaddr M addr = Some a \<longleftrightarrow>
     (\<exists>ip port f rest. ma_iter M addr = ip_protocol ip # Udp port # XWebRTC f # rest
        \<and> only_p2p rest \<and> a = sock_new ip port)" (is "?lhs \<longleftrightarrow> ?rhs")
proof
  assume ?lhs
  then obtain p1 p2 f rest ip port where "ma_iter M addr = p1 # p2 # XWebRTC f # rest" "only_p2p rest"
    "p2 = Udp port" "p1 = Ip4 ip \<and> a = sock_new (IpV4 ip) port \<or> (\<exists>ip6. p1 = Ip6 ip6 \<and> a = sock_new (IpV6 ip6) port)"
    by (auto simp: multiaddr_to_socketaddr_def split: list.splits protocol.splits if_splits)
  then show ?rhs
    by (metis ip_protocol.simps)
next
  assume ?rhs
  then obtain ip port f rest where "ma_iter M addr = ip_protocol ip # Udp port # XWebRTC f # rest"
    "only_p2p rest" "a = sock_new ip port" by blast
  then show ?lhs
    by (cases ip) (auto simp: multiaddr_to_socketaddr_def)
qed

lemma multiaddr_to_socketaddr_None:
  "ma_iter M addr = ps \<Longrightarrow> length ps < 3 \<Longrightarrow> multiaddr_to_socketaddr M addr = None"
  by (auto simp: multiaddr_to_socketaddr_def split: list.splits)

text \<open>A parsed address never carries a flow label or a scope id.\<close>

lemma multiaddr_to_socketaddr_plain:
  "multiaddr_to_socketaddr M addr = Some a \<Longrightarrow> a = sock_new (sock_ip a) (sock_port a)"
  by (auto simp: multiaddr_to_socketaddr_Some)

lemma first_xwebrtc_ip [simp]: "first_xwebrtc (ip_protocol ip # ps) = first_xwebrtc ps"
  by (cases ip) auto

lemma fingerprint_from_addr_Some:
  "multiaddr_to_socketaddr M addr = Some a \<Longrightarrow> \<exists>f. fingerprint_from_addr M addr = Some f"
  by (auto simp: multiaddr_to_socketaddr_Some fingerprint_from_addr_def)

section \<open>Facts about fingerprint texts\<close>

lemma strip_colons_filter: "strip_colons s = filter (\<lambda>x. x \<noteq> CHR '':'') s"
  by (simp add: strip_colons_def replace_char_empty)

lemma fmt_02x_no_colon: "CHR '':'' \<notin> set (fmt_02x b)"
  using fmt_02x_hex hex_lower_not_colon by blast

lemma strip_fingerprint: "strip_colons (fingerprint_to_string f) = concat (map fmt_02x f)"
  unfolding strip_colons_filter fingerprint_to_string_def
  by (rule filter_join_with) (auto simp: fmt_02x_no_colon)

lemma split_fingerprint: "f \<noteq> [] \<Longrightarrow> split_on CHR '':'' (fingerprint_to_string f) = map fmt_02x f"
  unfolding fingerprint_to_string_def
  by (rule split_on_join_with) (auto simp: fmt_02x_no_colon)

lemma length_fingerprint_to_string: "f \<noteq> [] \<Longrightarrow> length (fingerprint_to_string f) = 3 * length f - 1"
  unfolding fingerprint_to_string_def by (subst length_join_with [where n = 2]) auto

lemma set_join_with: "set (join_with sep ss) \<subseteq> set sep \<union> (\<Union>s \<in> set ss. set s)"
  by (induction sep ss rule: join_with.induct) auto

lemma fingerprint_chars: "c \<in> set (fingerprint_to_string f) \<Longrightarrow> c = CHR '':'' \<or> is_hex_lower c"
  unfolding fingerprint_to_string_def
  using set_join_with [of "'':''" "map fmt_02x f"] fmt_02x_hex by fastforce

lemma fingerprint_ascii: "is_ascii (fingerprint_to_string f)"
  unfolding is_ascii_def using fingerprint_chars hex_lower_ascii by fastforce

lemma fingerprint_to_string_inj:
  assumes "fingerprint_to_string f = fingerprint_to_string g" and "f \<noteq> []" and "g \<noteq> []"
  shows "f = g"
proof -
  from assms have "map fmt_02x f = map fmt_02x g" by (metis split_fingerprint)
  then show ?thesis by (rule map_injective) (simp add: fmt_02x_inj inj_def)
qed

lemma hex_lower_not_html: "is_hex_lower c \<Longrightarrow> c \<notin> {CHR ''<'', CHR ''>'', CHR ''&'', CHR 0x22, CHR 0x27}"
  by (auto simp: is_hex_lower_def)

lemma fingerprint_html_safe: "html_safe (fingerprint_to_string f)"
  unfolding html_safe_def using fingerprint_chars hex_lower_not_html by fastforce

lemma strip_html_safe: "html_safe s \<Longrightarrow> html_safe (strip_colons s)"
  by (auto simp: html_safe_def strip_colons_filter)

text \<open>
  Every string of an even number of lowercase hexadecimal digits is the encoding of a byte string.
\<close>

lemma hex_lower_decode_pair:
  assumes "is_hex_lower a" and "is_hex_lower b"
  obtains x where "fmt_02x x = [a, b]"
proof
  let ?x = "word_of_nat (hex_value a * 16 + hex_value b) :: u8"
  have v: "hex_value c < 16 \<and> hex_digit (hex_value c) = c" if "is_hex_lower c" for c
  proof -
    from that have "of_char c < (58::nat) \<Longrightarrow> 48 \<le> (of_char c :: nat)"
      and "\<not> of_char c < (58::nat) \<Longrightarrow> 97 \<le> (of_char c :: nat) \<and> of_char c \<le> (102::nat)"
      by (auto simp: is_hex_lower_def Let_def)
    then show ?thesis
      by (cases "of_char c < (58::nat)") (auto simp: hex_value_def hex_digit_def Let_def)
  qed
  have "unat ?x = hex_value a * 16 + hex_value b"
    using v [OF assms(1)] v [OF assms(2)]
    by (simp add: unsigned_of_nat take_bit_nat_eq_self del: of_nat_add of_nat_mult)
  then show "fmt_02x ?x = [a, b]"
    using v [OF assms(1)] v [OF assms(2)] by (simp add: fmt_02x_def)
qed

lemma hex_lower_decode:
  assumes "\<forall>c \<in> set s. is_hex_lower c" and "length s = 2 * n"
  obtains bs where "s = concat (map fmt_02x bs)" and "length bs = n"
  using assms
proof (induction n arbitrary: s thesis)
  case 0
  then show ?case by simp
next
  case (Suc n)
  from Suc.prems(3) obtain a b t where s: "s = a # b # t" and t: "length t = 2 * n"
    by (cases s; cases "tl s") auto
  from Suc.prems(2) s obtain x where "fmt_02x x = [a, b]"
    using hex_lower_decode_pair by (metis list.set_intros(1,2))
  moreover obtain bs where "t = concat (map fmt_02x bs)" and "length bs = n"
    using Suc.IH [OF _ _ t] Suc.prems(2) s by auto
  ultimately show ?case using Suc.prems(1) [of "x # bs"] s by simp
qed

lemma hex_to_cow_iff:
  assumes "hex_laws d"
  shows "(\<exists>f. hex_to_cow d s = Returns f) \<longleftrightarrow> length s = 64 \<and> (\<forall>c \<in> set s. is_hex c)"
proof -
  have "(\<exists>f. hex_to_cow d s = Returns f) \<longleftrightarrow> (\<exists>f. d s 32 = Ok f)"
    by (auto simp: hex_to_cow_def split: result.splits)
  also have "\<dots> \<longleftrightarrow> length s = 2 * 32 \<and> (\<forall>c \<in> set s. is_hex c)"
    using assms unfolding hex_laws_def by blast
  finally show ?thesis by simp
qed

lemma hex_to_cow_length: "hex_laws d \<Longrightarrow> hex_to_cow d s = Returns f \<Longrightarrow> length f = 32"
  by (auto simp: hex_to_cow_def hex_laws_def split: result.splits)

lemma hex_to_cow_encode:
  assumes "hex_laws d" and "length f = 32"
  shows "hex_to_cow d (concat (map fmt_02x f)) = Returns f"
proof -
  have "d (concat (map fmt_02x f)) (length f) = Ok f" using assms(1) by (simp add: hex_laws_def)
  with assms(2) show ?thesis by (simp add: hex_to_cow_def)
qed

lemma hex_to_cow_lower:
  assumes "hex_laws d" and "\<forall>c \<in> set s. is_hex_lower c" and "length s = 64"
  obtains f where "hex_to_cow d s = Returns f" and "length f = 32" and "s = concat (map fmt_02x f)"
proof -
  from assms(3) have "length s = 2 * 32" by simp
  with assms(2) obtain f where "s = concat (map fmt_02x f)" "length f = 32" by (rule hex_lower_decode)
  with hex_to_cow_encode [OF assms(1)] that show thesis by blast
qed

section \<open>Rendering\<close>

lemma description_context_safe:
  "html_safe (show_ip (sock_ip addr)) \<Longrightarrow>
   safe_context show_ip (description_context_of addr (fingerprint_to_string f))"
  by (simp add: safe_context_def description_context_of_def fingerprint_html_safe strip_html_safe)

lemma render_description_expand:
  assumes "tt_laws T flds"
    and "expand_template (flds (description_context_of addr fp)) text = Some s"
  shows "render_description T text addr fp = Returns s"
proof -
  from assms obtain tt where "tt_add_template T (tt_new T) ''description'' text = Ok tt"
    "tt_render T tt ''description'' (description_context_of addr fp) = Ok s"
    unfolding tt_laws_def by blast
  then show ?thesis by (simp add: render_description_def)
qed

lemma render_client:
  assumes "tt_laws T (description_fields show_ip)" and "html_safe (show_ip (sock_ip addr))"
  shows "render_description T CLIENT_SESSION_DESCRIPTION addr (fingerprint_to_string f) =
    Returns (client_sdp_text show_ip (description_context_of addr (fingerprint_to_string f)))"
  using assms(1) by (rule render_description_expand)
    (rule expand_client [OF description_context_safe [of show_ip addr, OF assms(2)]])

lemma render_server:
  assumes "tt_laws T (description_fields show_ip)" and "html_safe (show_ip (sock_ip addr))"
  shows "render_description T SERVER_SESSION_DESCRIPTION addr (fingerprint_to_string f) =
    Returns (server_sdp_text show_ip (description_context_of addr (fingerprint_to_string f)))"
  using assms(1) by (rule render_description_expand)
    (rule expand_server [OF description_context_safe [of show_ip addr, OF assms(2)]])

section \<open>Properties\<close>

text \<open>Rendering either session description for a fingerprint taken from an address never panics: both
  templates are well formed, every placeholder is a field of the context, no field needs escaping, and the
  result is the description with its placeholders filled in.\<close>

theorem render_description_total:
  assumes "tt_laws T (description_fields show_ip)" and "html_safe (show_ip (sock_ip addr))"
  shows "render_description T CLIENT_SESSION_DESCRIPTION addr (fingerprint_to_string f) =
      Returns (client_sdp_text show_ip (description_context_of addr (fingerprint_to_string f))) \<and>
    render_description T SERVER_SESSION_DESCRIPTION addr (fingerprint_to_string f) =
      Returns (server_sdp_text show_ip (description_context_of addr (fingerprint_to_string f)))"
  using assms by (simp add: render_client render_server)

lemma render_description_total_witness:
  "render_description (list_tt (description_fields (\<lambda>_. ''10.0.0.1''))) SERVER_SESSION_DESCRIPTION
     (SockV4 0x0A000001 9000) (fingerprint_to_string [0xAB, 1]) =
   Returns (server_sdp_text (\<lambda>_. ''10.0.0.1'')
     (description_context_of (SockV4 0x0A000001 9000) (fingerprint_to_string [0xAB, 1])))"
proof -
  have "html_safe ((\<lambda>_. ''10.0.0.1'') (sock_ip (SockV4 0x0A000001 9000)))" by (simp add: html_safe_def)
  from render_description_total [OF list_tt_laws this] show ?thesis by blast
qed

text \<open>Both ends derive the same ICE credentials: the user name fragment and password a peer with
  fingerprint \<open>f\<close> sets on its own setting engine are the ones the other side writes into the description it
  renders for that peer, they are 64 characters long, and decoding them gives the fingerprint back.\<close>

theorem ice_credentials_agree:
  fixes peer f
  assumes "hex_laws d" and "length f = 32"
  defines "ctx \<equiv> description_context_of peer (fingerprint_to_string f)"
  shows "(SetIceCredentials u p \<in> set (build_setting_engine mux addr (fingerprint_to_string f)) \<longleftrightarrow>
      u = dc_ufrag ctx \<and> p = dc_pwd ctx) \<and>
    dc_ufrag ctx = dc_pwd ctx \<and> length (dc_ufrag ctx) = 64 \<and> hex_to_cow d (dc_ufrag ctx) = Returns f"
proof -
  have "length (concat (map fmt_02x g)) = 2 * length g" for g :: "u8 list" by (induction g) auto
  then show ?thesis
    using assms(2) hex_to_cow_encode [OF assms(1,2)]
    by (auto simp: build_setting_engine_def ctx_def description_context_of_def Let_def strip_fingerprint)
qed

lemma ice_credentials_agree_witness:
  "hex_to_cow ref_hex (strip_colons (fingerprint_to_string (replicate 32 0xAB))) = Returns (replicate 32 0xAB)"
  using ice_credentials_agree [OF ref_hex_laws, of "replicate 32 0xAB" "[]" "[]" "()" "SockV4 0 0" "SockV4 0 0"]
  by (simp add: description_context_of_def)

text \<open>C33: The addresses the transport understands: an IP address, a UDP port and a fingerprint put together are
  parsed back to the same three, a trailing peer id changes neither, and any other trailing component makes
  the address invalid.\<close>

theorem webrtc_multiaddr_roundtrip:
  fixes ip port f
  assumes "multiaddr_laws M"
  defines "addr \<equiv> ma_with M (ip_to_multiaddr M ip port) (XWebRTC f)"
  shows "multiaddr_to_socketaddr M (ma_with M addr (P2p h)) = Some (sock_new ip port) \<and>
    multiaddr_to_socketaddr M addr = Some (sock_new ip port) \<and>
    fingerprint_from_addr M addr = Some f \<and> fingerprint_from_addr M (ma_with M addr (P2p h)) = Some f \<and>
    (multiaddr_to_socketaddr M (ma_with M addr q) \<noteq> None \<longleftrightarrow> (\<exists>h'. q = P2p h')) \<and>
    multiaddr_to_socketaddr M (ip_to_multiaddr M ip port) = None"
proof -
  note laws = multiaddr_lawsD [OF assms(1)]
  have "ma_iter M (ip_to_multiaddr M ip port) = [ip_protocol ip, Udp port]"
    by (simp add: ip_to_multiaddr_def laws)
  then show ?thesis
    by (cases ip; cases q)
       (auto simp: multiaddr_to_socketaddr_def fingerprint_from_addr_def addr_def laws)
qed

lemma webrtc_multiaddr_roundtrip_witness:
  "multiaddr_to_socketaddr list_ma [Ip4 0x7F000001, Udp 9000, XWebRTC [1], P2p 7] =
     Some (SockV4 0x7F000001 9000) \<and>
   multiaddr_to_socketaddr list_ma [Ip4 0x7F000001, Udp 9000, XWebRTC [1], Udp 1] = None"
proof -
  have "ma_with list_ma (ip_to_multiaddr list_ma (IpV4 0x7F000001) 9000) (XWebRTC [1]) =
      [Ip4 0x7F000001, Udp 9000, XWebRTC [1]]" "\<And>a p. ma_with list_ma a p = a @ [p]"
    by (simp_all add: ip_to_multiaddr_def list_ma_def)
  with webrtc_multiaddr_roundtrip [OF list_ma_laws, of "IpV4 0x7F000001" 9000 "[1]" 7 "Udp 1"]
  show ?thesis by auto
qed

text \<open>The text of a fingerprint: 32 bytes print as 95 lowercase characters, two digits per byte between
  colons, and different fingerprints print differently.\<close>

theorem fingerprint_text_format:
  assumes "length f = 32" and "length g = 32"
  shows "length (fingerprint_to_string f) = 95 \<and>
    split_on CHR '':'' (fingerprint_to_string f) = map fmt_02x f \<and>
    (fingerprint_to_string f = fingerprint_to_string g \<longleftrightarrow> f = g)"
proof -
  from assms have "f \<noteq> []" "g \<noteq> []" by auto
  with assms show ?thesis
    by (auto simp: length_fingerprint_to_string split_fingerprint dest: fingerprint_to_string_inj)
qed

lemma fingerprint_text_format_witness:
  "length (fingerprint_to_string (replicate 32 0)) = 95 \<and>
   fingerprint_to_string (replicate 32 0) \<noteq> fingerprint_to_string (replicate 32 1)"
  using fingerprint_text_format [of "replicate 32 0" "replicate 32 1"] by (simp add: replicate_eq_replicate)

end
