(* ===== verification/Rtc_Externals.thy ===== *)
theory Rtc_Externals
  imports Transport_Util
begin

text \<open>
  The operations of \<open>webrtc\<close>, \<open>webrtc_data\<close>, \<open>libp2p_noise\<close> and the oneshot channel of \<open>futures\<close> that the
  connection, the dialer and the listener's upgrade call. Objects of these packages (peer connections, data
  channels, keys, session descriptions, noise streams, certificates) are opaque handles \<open>'o\<close>, their errors are
  values of \<open>'x\<close>.
\<close>

section \<open>Data channels\<close>

text \<open>
  The last two fields are observers used by the laws only: whether everything written to a channel has
  been flushed, and whether its write side has been shut down.
\<close>

record ('o, 'w) data_channel_api =
  dc_poll_new :: "'o \<Rightarrow> ('w, 'o) world_call"
  dc_clone :: "'o \<Rightarrow> 'o"
  dc_messages_sent :: "'o \<Rightarrow> 'w \<Rightarrow> nat"
  dc_messages_received :: "'o \<Rightarrow> 'w \<Rightarrow> nat"
  dc_bytes_sent :: "'o \<Rightarrow> 'w \<Rightarrow> nat"
  dc_bytes_received :: "'o \<Rightarrow> 'w \<Rightarrow> nat"
  dc_stream_identifier :: "'o \<Rightarrow> u16"
  dc_buffered_amount :: "'o \<Rightarrow> 'w \<Rightarrow> nat"
  dc_buffered_amount_low_threshold :: "'o \<Rightarrow> 'w \<Rightarrow> nat"
  dc_poll_read :: "'o \<Rightarrow> nat \<Rightarrow> ('w, (u8 list, io_error) result poll) world_call"
  dc_poll_write :: "'o \<Rightarrow> u8 list \<Rightarrow> ('w, (nat, io_error) result poll) world_call"
  dc_poll_flush :: "'o \<Rightarrow> ('w, (unit, io_error) result poll) world_call"
  dc_poll_shutdown :: "'o \<Rightarrow> ('w, (unit, io_error) result poll) world_call"
  dc_poll_write_vectored :: "'o \<Rightarrow> u8 list list \<Rightarrow> ('w, (nat, io_error) result poll) world_call"
  dc_flushed :: "'o \<Rightarrow> 'w \<Rightarrow> bool"
  dc_shut :: "'o \<Rightarrow> 'w \<Rightarrow> bool"

text \<open>
  A clone of a channel and the polled wrapper around it are handles on the same stream; a read fills at most the given space; flushing to completion
  leaves nothing unflushed, shutting down to completion leaves the channel shut down, and neither undoes what
  flushing or shutting down has achieved on any channel.
\<close>

definition data_channel_laws :: "('o, 'w) data_channel_api \<Rightarrow> bool" where
  "data_channel_laws D \<longleftrightarrow>
     (\<forall>c. dc_stream_identifier D (dc_clone D c) = dc_stream_identifier D c) \<and>
     (\<forall>c w. dc_flushed D (dc_clone D c) w = dc_flushed D c w) \<and>
     (\<forall>c w. dc_shut D (dc_clone D c) w = dc_shut D c w) \<and>
     (\<forall>c n w bs. fst (dc_poll_read D c n w) = Ready (Ok bs) \<longrightarrow> length bs \<le> n) \<and>
     (\<forall>c w w'. dc_poll_flush D c w = (Ready (Ok ()), w') \<longrightarrow> dc_flushed D c w') \<and>
     (\<forall>c w w'. dc_poll_shutdown D c w = (Ready (Ok ()), w') \<longrightarrow> dc_shut D c w') \<and>
     (\<forall>c c' w. dc_flushed D c' w \<longrightarrow> dc_flushed D c' (snd (dc_poll_flush D c w))) \<and>
     (\<forall>c c' w. dc_flushed D c' w \<longrightarrow> dc_flushed D c' (snd (dc_poll_shutdown D c w))) \<and>
     (\<forall>c c' w. dc_shut D c' w \<longrightarrow> dc_shut D c' (snd (dc_poll_shutdown D c w))) \<and>
     (\<forall>c w. dc_stream_identifier D (fst (dc_poll_new D c w)) = dc_stream_identifier D c)"

lemma data_channel_lawsD:
  assumes "data_channel_laws D"
  shows "dc_stream_identifier D (dc_clone D c) = dc_stream_identifier D c"
    and "dc_flushed D (dc_clone D c) w = dc_flushed D c w"
    and "dc_shut D (dc_clone D c) w = dc_shut D c w"
    and "fst (dc_poll_read D c n w) = Ready (Ok bs) \<Longrightarrow> length bs \<le> n"
    and "dc_poll_flush D c w = (Ready (Ok ()), w') \<Longrightarrow> dc_flushed D c w'"
    and "dc_poll_shutdown D c w = (Ready (Ok ()), w') \<Longrightarrow> dc_shut D c w'"
    and "dc_flushed D c' w \<Longrightarrow> dc_flushed D c' (snd (dc_poll_flush D c w))"
    and "dc_flushed D c' w \<Longrightarrow> dc_flushed D c' (snd (dc_poll_shutdown D c w))"
    and "dc_shut D c' w \<Longrightarrow> dc_shut D c' (snd (dc_poll_shutdown D c w))"
    and "dc_stream_identifier D (fst (dc_poll_new D c w)) = dc_stream_identifier D c"
  using assms by (simp_all add: data_channel_laws_def)

section \<open>Peer connections and the noise handshake\<close>

text \<open>\<open>RTCDataChannelInit\<close>: the two fields the crate sets.\<close>

record dc_init =
  dci_negotiated :: "bool option"
  dci_id :: "u16 option"

datatype 'o remote_identity = IdentityKey 'o | OtherIdentity

text \<open>
  What becomes of the oneshot sender that the open handler of a data channel owns: the handler runs, with the
  result of \<open>detach()\<close>, or it is dropped without having run.
\<close>

datatype ('o, 'x) rx_event = HandlerRan "('o, 'x) result" | SenderDropped

text \<open>
  \<open>rtc_await_rx\<close> waits for that event; \<open>rtc_await_rx_or_timer\<close> waits for whichever comes first, the event or
  a timer of the given number of seconds (\<open>None\<close> if it is the timer).
\<close>

record ('ma, 'pid, 'o, 'x, 'w) rtc_api =
  rtc_get_fingerprints :: "'o \<Rightarrow> (string list, 'x) result"
  rtc_set_answering_dtls_role :: "dtls_role \<Rightarrow> (unit, 'x) result"
  rtc_new_peer_connection :: "'o setting_engine \<Rightarrow> 'o rtc_config \<Rightarrow> ('w, ('o, 'x) result) world_call"
  rtc_create_offer :: "'o \<Rightarrow> ('w, ('o, 'x) result) world_call"
  rtc_create_answer :: "'o \<Rightarrow> ('w, ('o, 'x) result) world_call"
  rtc_set_local_description :: "'o \<Rightarrow> 'o \<Rightarrow> ('w, (unit, 'x) result) world_call"
  rtc_set_remote_description :: "'o \<Rightarrow> 'o \<Rightarrow> ('w, (unit, 'x) result) world_call"
  rtc_sdp_offer :: "string \<Rightarrow> ('o, 'x) result"
  rtc_sdp_answer :: "string \<Rightarrow> ('o, 'x) result"
  rtc_create_data_channel :: "'o \<Rightarrow> string \<Rightarrow> dc_init option \<Rightarrow> ('w, ('o, 'x) result) world_call"
  rtc_on_data_channel :: "'o \<Rightarrow> 'w \<Rightarrow> 'w"
  rtc_await_rx :: "'o \<Rightarrow> ('w, ('o, 'x) rx_event) world_call"
  rtc_await_rx_or_timer :: "'o \<Rightarrow> nat \<Rightarrow> ('w, ('o, 'x) rx_event option) world_call"
  rtc_show_error :: "'x \<Rightarrow> string"
  rtc_canceled_text :: string
  noise_authentic_keys :: "'o \<Rightarrow> ('w, ('o, 'x) result) world_call"
  noise_config_xx :: "'o \<Rightarrow> 'o"
  noise_protocol_info :: "'o \<Rightarrow> 'o list"
  noise_upgrade_outbound :: "'o \<Rightarrow> 'o \<Rightarrow> 'o \<Rightarrow> ('w, ('o remote_identity \<times> 'o, 'x) result) world_call"
  noise_upgrade_inbound :: "'o \<Rightarrow> 'o \<Rightarrow> 'o \<Rightarrow> ('w, ('o remote_identity \<times> 'o, 'x) result) world_call"
  noise_to_peer_id :: "'o \<Rightarrow> 'pid"
  noise_authentication_failed :: 'x
  nio_write :: "'o \<Rightarrow> u8 list \<Rightarrow> ('w, (nat, io_error) result) world_call"
  nio_flush :: "'o \<Rightarrow> ('w, (unit, io_error) result) world_call"
  nio_read_exact :: "'o \<Rightarrow> nat \<Rightarrow> ('w, (u8 list, io_error) result) world_call"
  peer_id_try_from_multiaddr :: "'ma \<Rightarrow> 'pid option"

text \<open>
  \<open>AsyncReadExt::read_exact\<close> fills the whole buffer it is given; \<open>AsyncWriteExt::write\<close> reports how many bytes it
  took, at most as many as it was given.
\<close>

definition noise_io_laws :: "('ma, 'pid, 'o, 'x, 'w) rtc_api \<Rightarrow> bool" where
  "noise_io_laws A \<longleftrightarrow>
     (\<forall>s n w bs w'. nio_read_exact A s n w = (Ok bs, w') \<longrightarrow> length bs = n) \<and>
     (\<forall>s bs w n w'. nio_write A s bs w = (Ok n, w') \<longrightarrow> n \<le> length bs)"

lemma nio_read_exact_length:
  "noise_io_laws A \<Longrightarrow> nio_read_exact A s n w = (Ok bs, w') \<Longrightarrow> length bs = n"
  unfolding noise_io_laws_def by blast

lemma nio_write_bound:
  "noise_io_laws A \<Longrightarrow> nio_write A s bs w = (Ok n, w') \<Longrightarrow> n \<le> length bs"
  unfolding noise_io_laws_def by blast

section \<open>An instance of the data channels\<close>

text \<open>
  Channels are numbers. The world records which have been flushed and shut down, which are busy (their
  operations are pending) and the bytes waiting to be read.
\<close>

record dworld =
  dw_flushed :: "nat list"
  dw_shut :: "nat list"
  dw_busy :: "nat list"
  dw_inbox :: "u8 list"

definition dw_init :: dworld where
  "dw_init = \<lparr>dw_flushed = [], dw_shut = [], dw_busy = [], dw_inbox = []\<rparr>"

definition toy_dc :: "(nat, dworld) data_channel_api" where
  "toy_dc =
    \<lparr>dc_poll_new = (\<lambda>c w. (c, w)), dc_clone = (\<lambda>c. c),
     dc_messages_sent = (\<lambda>_ _. 0), dc_messages_received = (\<lambda>_ _. 0),
     dc_bytes_sent = (\<lambda>_ _. 0), dc_bytes_received = (\<lambda>_ _. 0),
     dc_stream_identifier = word_of_nat,
     dc_buffered_amount = (\<lambda>_ _. 0), dc_buffered_amount_low_threshold = (\<lambda>_ _. 0),
     dc_poll_read = (\<lambda>c n w. (Ready (Ok (take n (dw_inbox w))), w\<lparr>dw_inbox := drop n (dw_inbox w)\<rparr>)),
     dc_poll_write = (\<lambda>c b w. (Ready (Ok (length b)), w)),
     dc_poll_flush = (\<lambda>c w. if c \<in> set (dw_busy w) then (Pending, w)
                            else (Ready (Ok ()), w\<lparr>dw_flushed := c # dw_flushed w\<rparr>)),
     dc_poll_shutdown = (\<lambda>c w. if c \<in> set (dw_busy w) then (Pending, w)
                               else (Ready (Ok ()), w\<lparr>dw_shut := c # dw_shut w\<rparr>)),
     dc_poll_write_vectored = (\<lambda>c bs w. (Ready (Ok (length (concat bs))), w)),
     dc_flushed = (\<lambda>c w. c \<in> set (dw_flushed w)),
     dc_shut = (\<lambda>c w. c \<in> set (dw_shut w))\<rparr>"

lemma toy_dc_laws: "data_channel_laws toy_dc"
  by (auto simp: data_channel_laws_def toy_dc_def split: if_splits)

section \<open>An instance of peer connections and noise\<close>

text \<open>
  Every call succeeds unless the world says otherwise: a busy channel 5 never opens, the remote peer is
  number 42, and reading from the noise stream takes bytes from the inbox. A certificate \<open>c\<close> has the
  fingerprint of 32 bytes \<open>c\<close>.
\<close>

definition toy_fingerprint :: "nat \<Rightarrow> u8 list" where
  "toy_fingerprint c = replicate 32 (word_of_nat c)"

fun last_p2p :: "'h protocol list \<Rightarrow> 'h option" where
  "last_p2p ps = (if ps = [] then None else case last ps of P2p h \<Rightarrow> Some h | _ \<Rightarrow> None)"

definition toy_rtc :: "(nat protocol list, nat, nat, string, dworld) rtc_api" where
  "toy_rtc =
    \<lparr>rtc_get_fingerprints = (\<lambda>c. Ok [fingerprint_to_string (toy_fingerprint c)]),
     rtc_set_answering_dtls_role = (\<lambda>_. Ok ()),
     rtc_new_peer_connection = (\<lambda>_ _ w. (Ok 1, w)),
     rtc_create_offer = (\<lambda>_ w. (Ok 2, w)), rtc_create_answer = (\<lambda>_ w. (Ok 3, w)),
     rtc_set_local_description = (\<lambda>_ _ w. (Ok (), w)), rtc_set_remote_description = (\<lambda>_ _ w. (Ok (), w)),
     rtc_sdp_offer = (\<lambda>_. Ok 4), rtc_sdp_answer = (\<lambda>_. Ok 4),
     rtc_create_data_channel = (\<lambda>_ _ _ w. (Ok 5, w)), rtc_on_data_channel = (\<lambda>_ w. w),
     rtc_await_rx = (\<lambda>_ w. (HandlerRan (Ok 6), w)),
     rtc_await_rx_or_timer = (\<lambda>c _ w. (if c \<in> set (dw_busy w) then None else Some (HandlerRan (Ok 6)), w)),
     rtc_show_error = (\<lambda>e. e), rtc_canceled_text = ''oneshot canceled'',
     noise_authentic_keys = (\<lambda>_ w. (Ok 7, w)), noise_config_xx = (\<lambda>_. 8), noise_protocol_info = (\<lambda>_. [9]),
     noise_upgrade_outbound = (\<lambda>_ _ _ w. (Ok (IdentityKey 42, 10), w)),
     noise_upgrade_inbound = (\<lambda>_ _ _ w. (Ok (IdentityKey 42, 10), w)),
     noise_to_peer_id = (\<lambda>k. k), noise_authentication_failed = ''authentication failed'',
     nio_write = (\<lambda>_ bs w. (Ok (length bs), w)), nio_flush = (\<lambda>_ w. (Ok (), w)),
     nio_read_exact = (\<lambda>_ n w. if n \<le> length (dw_inbox w)
       then (Ok (take n (dw_inbox w)), w\<lparr>dw_inbox := drop n (dw_inbox w)\<rparr>)
       else (Err (IoErr KUnexpectedEof ''early eof''), w)),
     peer_id_try_from_multiaddr = last_p2p\<rparr>"

lemma toy_rtc_sel:
  "rtc_get_fingerprints toy_rtc c = Ok [fingerprint_to_string (toy_fingerprint c)]"
  "rtc_set_answering_dtls_role toy_rtc role = Ok ()"
  "rtc_new_peer_connection toy_rtc se cfg w = (Ok 1, w)"
  "rtc_create_offer toy_rtc pc w = (Ok 2, w)" "rtc_create_answer toy_rtc pc w = (Ok 3, w)"
  "rtc_set_local_description toy_rtc pc sd w = (Ok (), w)" "rtc_set_remote_description toy_rtc pc sd w = (Ok (), w)"
  "rtc_sdp_offer toy_rtc s = Ok 4" "rtc_sdp_answer toy_rtc s = Ok 4"
  "rtc_on_data_channel toy_rtc pc w = w" "peer_id_try_from_multiaddr toy_rtc a = last_p2p a"
  by (simp_all add: toy_rtc_def)

lemma toy_rtc_laws: "noise_io_laws toy_rtc"
  by (auto simp: noise_io_laws_def toy_rtc_def split: if_splits)

end
