(* ===== verification/Poll_Data_Channel.thy ===== *)
theory Poll_Data_Channel
  imports Rtc_Externals
begin

text \<open>
  \<open>src/connection/poll_data_channel.rs\<close>: the newtype around \<open>RTCPollDataChannel\<close> that implements the I/O traits
  of \<open>futures\<close> on top of those of \<open>tokio\<close>.
\<close>

datatype 'o poll_data_channel = PollDataChannel (pdc_inner: 'o)

definition pdc_new :: "('o, 'w) data_channel_api \<Rightarrow> 'o \<Rightarrow> ('w, 'o poll_data_channel) world_call" where
  "pdc_new D data_channel w = (case dc_poll_new D data_channel w of (c, w') \<Rightarrow> (PollDataChannel c, w'))"

definition pdc_into_inner :: "'o poll_data_channel \<Rightarrow> 'o" where
  "pdc_into_inner ch = (case ch of PollDataChannel c \<Rightarrow> c)"

definition pdc_clone_inner :: "('o, 'w) data_channel_api \<Rightarrow> 'o poll_data_channel \<Rightarrow> 'o" where
  "pdc_clone_inner D ch = dc_clone D (pdc_inner ch)"

definition pdc_clone :: "('o, 'w) data_channel_api \<Rightarrow> 'o poll_data_channel \<Rightarrow> 'o poll_data_channel" where
  "pdc_clone D ch = PollDataChannel (pdc_clone_inner D ch)"

definition pdc_messages_sent :: "('o, 'w) data_channel_api \<Rightarrow> 'o poll_data_channel \<Rightarrow> 'w \<Rightarrow> nat" where
  "pdc_messages_sent D ch = dc_messages_sent D (pdc_inner ch)"

definition pdc_messages_received :: "('o, 'w) data_channel_api \<Rightarrow> 'o poll_data_channel \<Rightarrow> 'w \<Rightarrow> nat" where
  "pdc_messages_received D ch = dc_messages_received D (pdc_inner ch)"

definition pdc_bytes_sent :: "('o, 'w) data_channel_api \<Rightarrow> 'o poll_data_channel \<Rightarrow> 'w \<Rightarrow> nat" where
  "pdc_bytes_sent D ch = dc_bytes_sent D (pdc_inner ch)"

definition pdc_bytes_received :: "('o, 'w) data_channel_api \<Rightarrow> 'o poll_data_channel \<Rightarrow> 'w \<Rightarrow> nat" where
  "pdc_bytes_received D ch = dc_bytes_received D (pdc_inner ch)"

definition stream_identifier :: "('o, 'w) data_channel_api \<Rightarrow> 'o poll_data_channel \<Rightarrow> u16" where
  "stream_identifier D ch = dc_stream_identifier D (pdc_inner ch)"

definition pdc_buffered_amount :: "('o, 'w) data_channel_api \<Rightarrow> 'o poll_data_channel \<Rightarrow> 'w \<Rightarrow> nat" where
  "pdc_buffered_amount D ch = dc_buffered_amount D (pdc_inner ch)"

definition pdc_buffered_amount_low_threshold ::
  "('o, 'w) data_channel_api \<Rightarrow> 'o poll_data_channel \<Rightarrow> 'w \<Rightarrow> nat" where
  "pdc_buffered_amount_low_threshold D ch = dc_buffered_amount_low_threshold D (pdc_inner ch)"

text \<open>
  \<open>poll_read\<close> wraps the caller's buffer in a \<open>ReadBuf\<close> (nothing filled yet), lets the inner channel append to
  it, and returns how much of it is filled. The second component is the caller's buffer afterwards.
\<close>

definition poll_read ::
  "('o, 'w) data_channel_api \<Rightarrow> 'o poll_data_channel \<Rightarrow> u8 list \<Rightarrow> 'w \<Rightarrow>
   (nat, io_error) result poll \<times> u8 list \<times> 'w" where
  "poll_read D ch buf w =
     (case dc_poll_read D (pdc_inner ch) (length buf) w of
        (Pending, w') \<Rightarrow> (Pending, buf, w')
      | (Ready (Err e), w') \<Rightarrow> (Ready (Err e), buf, w')
      | (Ready (Ok filled), w') \<Rightarrow> (Ready (Ok (length filled)), filled @ drop (length filled) buf, w'))"

definition poll_write ::
  "('o, 'w) data_channel_api \<Rightarrow> 'o poll_data_channel \<Rightarrow> u8 list \<Rightarrow> ('w, (nat, io_error) result poll) world_call" where
  "poll_write D ch buf = dc_poll_write D (pdc_inner ch) buf"

definition poll_flush ::
  "('o, 'w) data_channel_api \<Rightarrow> 'o poll_data_channel \<Rightarrow> ('w, (unit, io_error) result poll) world_call" where
  "poll_flush D ch = dc_poll_flush D (pdc_inner ch)"

definition poll_close ::
  "('o, 'w) data_channel_api \<Rightarrow> 'o poll_data_channel \<Rightarrow> ('w, (unit, io_error) result poll) world_call" where
  "poll_close D ch = dc_poll_shutdown D (pdc_inner ch)"

definition poll_write_vectored ::
  "('o, 'w) data_channel_api \<Rightarrow> 'o poll_data_channel \<Rightarrow> u8 list list \<Rightarrow> ('w, (nat, io_error) result poll) world_call" where
  "poll_write_vectored D ch bufs = dc_poll_write_vectored D (pdc_inner ch) bufs"

lemma stream_identifier_clone [simp]:
  "data_channel_laws D \<Longrightarrow> stream_identifier D (pdc_clone D ch) = stream_identifier D ch"
  by (simp add: stream_identifier_def pdc_clone_def pdc_clone_inner_def data_channel_lawsD)



end
