(* ===== verification/Connection.thy ===== *)
theory Connection
  imports Poll_Data_Channel
begin

text \<open>
  \<open>src/connection.rs\<close>: a WebRTC connection as a \<open>StreamMuxer\<close>. Its state is the peer connection, the map of open
  data channels, the queue of incoming ones and the (unused) read buffer capacity. Substreams are data
  channels. Every operation holds the mutex around the map and the queue while it works on them and returns
  without waiting, so each is one step; \<open>close\<close>, which takes it twice, is modelled as called by the task that
  owns the connection, with no other operation in between.
\<close>

section \<open>State\<close>

record ('o, 'q) data_channels_inner =
  dcs_map :: "(u16, 'o poll_data_channel) hashmap"
  dcs_incoming_rx :: 'q
  dcs_read_buf_cap :: "nat option"

record ('o, 'q) connection =
  cn_rtc_conn :: 'o
  cn_data_channels :: "('o, 'q) data_channels_inner"

datatype 'o muxer_event = InboundSubstream "'o poll_data_channel"

definition connection_new ::
  "('ma, 'pid, 'o, 'x, 'w) rtc_api \<Rightarrow> ('o, 'q) mpsc_api \<Rightarrow> 'o \<Rightarrow> ('w, ('o, 'q) connection) world_call" where
  "connection_new A C rtc_conn w =
     (\<lparr>cn_rtc_conn = rtc_conn,
       cn_data_channels = \<lparr>dcs_map = [], dcs_incoming_rx = mpsc_channel C 10, dcs_read_buf_cap = None\<rparr>\<rparr>,
      rtc_on_data_channel A rtc_conn w)"

abbreviation channels :: "('o, 'q) connection \<Rightarrow> (u16, 'o poll_data_channel) hashmap" where
  "channels cn \<equiv> dcs_map (cn_data_channels cn)"

abbreviation incoming :: "('o, 'q) connection \<Rightarrow> 'q" where
  "incoming cn \<equiv> dcs_incoming_rx (cn_data_channels cn)"

definition set_channels ::
  "(u16, 'o poll_data_channel) hashmap \<Rightarrow> ('o, 'q) connection \<Rightarrow> ('o, 'q) connection" where
  "set_channels m cn = cn\<lparr>cn_data_channels := (cn_data_channels cn)\<lparr>dcs_map := m\<rparr>\<rparr>"

definition set_incoming :: "'q \<Rightarrow> ('o, 'q) connection \<Rightarrow> ('o, 'q) connection" where
  "set_incoming q cn = cn\<lparr>cn_data_channels := (cn_data_channels cn)\<lparr>dcs_incoming_rx := q\<rparr>\<rparr>"

section \<open>Operations\<close>

definition set_data_channels_read_buf_capacity :: "nat \<Rightarrow> ('o, 'q) connection \<Rightarrow> ('o, 'q) connection" where
  "set_data_channels_read_buf_capacity cap cn =
     cn\<lparr>cn_data_channels := (cn_data_channels cn)\<lparr>dcs_read_buf_cap := Some cap\<rparr>\<rparr>"

text \<open>
  The handler registered for incoming data channels: once a channel is open it is detached and put on the
  queue; a full queue or a failed detach drops it. The argument is the result of \<open>detach()\<close>.
\<close>

definition register_incoming_data_channels_handler ::
  "('o, 'q) mpsc_api \<Rightarrow> ('o, 'x) result \<Rightarrow> ('o, 'q) connection \<Rightarrow> ('o, 'q) connection" where
  "register_incoming_data_channels_handler C r cn =
     (case r of
        Ok detached \<Rightarrow> set_incoming (snd (mpsc_try_send C detached (incoming cn))) cn
      | Err e \<Rightarrow> cn)"

text \<open>
  The handler for outbound channels sends the detached channel through a oneshot; if detaching fails the sender
  is dropped and the receiver sees a cancellation.
\<close>

definition register_data_channel_open_handler :: "('o, 'x) result \<Rightarrow> ('o, unit) result" where
  "register_data_channel_open_handler r = (case r of Ok detached \<Rightarrow> Ok detached | Err e \<Rightarrow> Err ())"

fun rx_result :: "('o, 'x) rx_event \<Rightarrow> ('o, unit) result" where
  "rx_result (HandlerRan r) = register_data_channel_open_handler r"
| "rx_result SenderDropped = Err ()"

text \<open>The common part of \<open>poll_event\<close> and \<open>poll_outbound\<close>: wrap the channel and enter a clone of it in the map.\<close>

definition insert_channel ::
  "('o, 'w) data_channel_api \<Rightarrow> 'o \<Rightarrow> ('o, 'q) connection \<Rightarrow> 'w \<Rightarrow>
   'o poll_data_channel \<times> ('o, 'q) connection \<times> 'w" where
  "insert_channel D detached cn w =
     (case pdc_new D detached w of
        (ch, w') \<Rightarrow> (ch, set_channels (AList.update (stream_identifier D ch) (pdc_clone D ch) (channels cn)) cn, w'))"

definition poll_event ::
  "('o, 'q) mpsc_api \<Rightarrow> ('o, 'w) data_channel_api \<Rightarrow> ('o, 'q) connection \<Rightarrow> 'w \<Rightarrow>
   ('o muxer_event, io_error) result poll \<times> ('o, 'q) connection \<times> 'w" where
  "poll_event C D cn w =
     (case mpsc_poll_next C (incoming cn) of
        (Pending, q) \<Rightarrow> (Pending, set_incoming q cn, w)
      | (Ready (Some detached), q) \<Rightarrow>
          (case insert_channel D detached (set_incoming q cn) w of
             (ch, cn', w') \<Rightarrow> (Ready (Ok (InboundSubstream ch)), cn', w'))
      | (Ready None, q) \<Rightarrow>
          (Ready (Err (IoErr KOther ''incoming_data_channels_rx is closed (no messages left)'')),
           set_incoming q cn, w))"

text \<open>
  \<open>open_outbound\<close> takes the asynchronous lock around the peer connection while it creates the channel and drops
  it before it waits for the channel to open. \<open>rtc_await_rx\<close> stands for registering the open handler and waiting for
  what becomes of its sender.
\<close>

definition open_outbound ::
  "('ma, 'pid, 'o, 'x, 'w) rtc_api \<Rightarrow> ('o, 'q) connection \<Rightarrow> ('w, 'o, io_error) async_fn" where
  "open_outbound A cn =
     await_try (rtc_create_data_channel A (cn_rtc_conn cn) ''data'' None)
       (\<lambda>e. IoErr KOther (''webrtc error: '' @ rtc_show_error A e))
       (\<lambda>data_channel.
     await (rtc_await_rx A data_channel) (\<lambda>ev.
     case rx_result ev of
       Ok detached \<Rightarrow> return_ok detached
     | Err _ \<Rightarrow> return_err (IoErr KOther (rtc_canceled_text A))))"

text \<open>\<open>poll_outbound\<close> is given what polling the \<open>open_outbound\<close> future yields.\<close>

definition poll_outbound ::
  "('o, 'w) data_channel_api \<Rightarrow> ('o, io_error) result poll \<Rightarrow> ('o, 'q) connection \<Rightarrow> 'w \<Rightarrow>
   ('o poll_data_channel, io_error) result poll \<times> ('o, 'q) connection \<times> 'w" where
  "poll_outbound D s cn w =
     (case s of
        Pending \<Rightarrow> (Pending, cn, w)
      | Ready (Ok detached) \<Rightarrow>
          (case insert_channel D detached cn w of (ch, cn', w') \<Rightarrow> (Ready (Ok ch), cn', w'))
      | Ready (Err e) \<Rightarrow> (Ready (Err e), cn, w))"

definition destroy_outbound :: "('o, 'q) connection \<Rightarrow> ('o, 'q) connection" where
  "destroy_outbound cn = cn"

definition read_substream ::
  "('o, 'w) data_channel_api \<Rightarrow> 'o poll_data_channel \<Rightarrow> u8 list \<Rightarrow> 'w \<Rightarrow>
   (nat, io_error) result poll \<times> u8 list \<times> 'w" where
  "read_substream D s buf = poll_read D s buf"

definition write_substream ::
  "('o, 'w) data_channel_api \<Rightarrow> 'o poll_data_channel \<Rightarrow> u8 list \<Rightarrow> ('w, (nat, io_error) result poll) world_call" where
  "write_substream D s buf = poll_write D s buf"

definition flush_substream ::
  "('o, 'w) data_channel_api \<Rightarrow> 'o poll_data_channel \<Rightarrow> ('w, (unit, io_error) result poll) world_call" where
  "flush_substream D s = poll_flush D s"

definition shutdown_substream ::
  "('o, 'w) data_channel_api \<Rightarrow> 'o poll_data_channel \<Rightarrow> ('w, (unit, io_error) result poll) world_call" where
  "shutdown_substream D s = poll_close D s"

definition destroy_substream ::
  "('o, 'w) data_channel_api \<Rightarrow> 'o poll_data_channel \<Rightarrow> ('o, 'q) connection \<Rightarrow> ('o, 'q) connection" where
  "destroy_substream D s cn = set_channels (AList.delete (stream_identifier D s) (channels cn)) cn"

text \<open>
  The loops of \<open>flush_all\<close> and \<open>close\<close>: poll one channel after the other, return early when one is pending or
  fails.
\<close>

fun poll_each ::
  "('ch \<Rightarrow> ('w, (unit, 'e) result poll) world_call) \<Rightarrow> 'ch list \<Rightarrow> ('w, (unit, 'e) result poll) world_call" where
  "poll_each f [] w = (Ready (Ok ()), w)"
| "poll_each f (ch # chs) w =
     (case f ch w of
        (Pending, w') \<Rightarrow> (Pending, w')
      | (Ready (Ok _), w') \<Rightarrow> poll_each f chs w'
      | (Ready (Err e), w') \<Rightarrow> (Ready (Err e), w'))"

type_synonym 'o channel_order = "(u16, 'o poll_data_channel) hashmap \<Rightarrow> (u16, 'o poll_data_channel) hashmap"

definition flush_all ::
  "('o, 'w) data_channel_api \<Rightarrow> 'o channel_order \<Rightarrow> ('o, 'q) connection \<Rightarrow> ('w, (unit, io_error) result poll) world_call" where
  "flush_all D ord cn = poll_each (flush_substream D) (map snd (ord (channels cn)))"

definition connection_close ::
  "('o, 'q) mpsc_api \<Rightarrow> ('o, 'w) data_channel_api \<Rightarrow> 'o channel_order \<Rightarrow> ('o, 'q) connection \<Rightarrow> 'w \<Rightarrow>
   (unit, io_error) result poll \<times> ('o, 'q) connection \<times> 'w" where
  "connection_close C D ord cn w =
     (case flush_all D ord cn w of
        (Pending, w') \<Rightarrow> (Pending, cn, w')
      | (Ready (Err e), w') \<Rightarrow> (Ready (Err e), cn, w')
      | (Ready (Ok _), w') \<Rightarrow>
          (case poll_each (shutdown_substream D) (map snd (ord (channels cn))) w' of
             (Pending, w'') \<Rightarrow> (Pending, cn, w'')
           | (Ready (Err e), w'') \<Rightarrow> (Ready (Err e), cn, w'')
           | (Ready (Ok _), w'') \<Rightarrow> (Ready (Ok ()), set_incoming (mpsc_close C (incoming cn)) cn, w'')))"

section \<open>Loops over the channels\<close>

text \<open>
  The contract of an operation that is polled on every channel: completing it on a channel achieves a goal
  for that channel, and polling it anywhere undoes no goal already achieved.
\<close>

locale poll_goal =
  fixes op :: "'ch \<Rightarrow> ('w, (unit, 'e) result poll) world_call"
    and goal :: "'ch \<Rightarrow> 'w \<Rightarrow> bool"
  assumes op_achieves: "op c w = (Ready (Ok ()), w') \<Longrightarrow> goal c w'"
    and op_keeps: "goal c' w \<Longrightarrow> goal c' (snd (op c w))"
begin

lemma poll_each_keeps: "goal c w \<Longrightarrow> goal c (snd (poll_each op cs w))"
proof (induction cs arbitrary: w)
  case (Cons a cs)
  have "goal c (snd (op a w))" using Cons.prems by (rule op_keeps)
  with Cons.IH show ?case by (cases "op a w") (auto split: poll.splits result.splits)
qed simp

lemma poll_each_achieves: "poll_each op cs w = (Ready (Ok ()), w') \<Longrightarrow> c \<in> set cs \<Longrightarrow> goal c w'"
proof (induction cs arbitrary: w)
  case (Cons a cs)
  from Cons.prems(1) obtain v where v: "op a w = (Ready (Ok ()), v)" "poll_each op cs v = (Ready (Ok ()), w')"
    by (auto split: prod.splits poll.splits result.splits)
  show ?case
  proof (cases "c = a")
    case True
    with v poll_each_keeps [OF op_achieves [OF v(1)], of cs] show ?thesis by simp
  next
    case False
    with Cons.IH [OF v(2)] Cons.prems(2) show ?thesis by simp
  qed
qed simp

end

definition ch_flushed :: "('o, 'w) data_channel_api \<Rightarrow> 'o poll_data_channel \<Rightarrow> 'w \<Rightarrow> bool" where
  "ch_flushed D ch w \<longleftrightarrow> (data_channel_laws D \<longrightarrow> dc_flushed D (pdc_inner ch) w)"

definition ch_shut :: "('o, 'w) data_channel_api \<Rightarrow> 'o poll_data_channel \<Rightarrow> 'w \<Rightarrow> bool" where
  "ch_shut D ch w \<longleftrightarrow> (data_channel_laws D \<longrightarrow> dc_shut D (pdc_inner ch) w)"

lemmas substream_defs = flush_substream_def shutdown_substream_def poll_flush_def poll_close_def

interpretation flushing: poll_goal "flush_substream D" "ch_flushed D"
  for D :: "('o, 'w) data_channel_api"
  by unfold_locales (auto simp: ch_flushed_def substream_defs dest: data_channel_lawsD(5,7))

interpretation shutting: poll_goal "shutdown_substream D" "ch_shut D"
  for D :: "('o, 'w) data_channel_api"
  by unfold_locales (auto simp: ch_shut_def substream_defs dest: data_channel_lawsD(6,9))

lemma shutdown_keeps_flushed: "ch_flushed D c w \<Longrightarrow> ch_flushed D c (snd (poll_each (shutdown_substream D) cs w))"
proof (induction cs arbitrary: w)
  case (Cons a cs)
  have "ch_flushed D c (snd (shutdown_substream D a w))"
    using Cons.prems by (auto simp: ch_flushed_def substream_defs dest: data_channel_lawsD(8))
  with Cons.IH show ?case by (cases "shutdown_substream D a w") (auto split: poll.splits result.splits)
qed simp

lemma poll_each_total:
  assumes "\<forall>c \<in> set cs. \<forall>w. fst (f c w) = Ready (Ok ())"
  shows "fst (poll_each f cs w) = Ready (Ok ())"
  using assms
proof (induction cs arbitrary: w)
  case (Cons a cs)
  then show ?case by (cases "f a w") (metis (no_types, lifting) fst_conv list.set_intros poll.simps(5)
      poll_each.simps(2) result.simps(5) prod.case)
qed simp

lemma poll_each_blame:
  assumes "fst (poll_each f cs w) \<noteq> Ready (Ok ())"
  shows "\<exists>c \<in> set cs. \<exists>v. fst (f c v) = fst (poll_each f cs w)"
  using assms
proof (induction cs arbitrary: w)
  case (Cons a cs)
  show ?case
  proof (cases "fst (f a w) = Ready (Ok ())")
    case True
    then have "poll_each f (a # cs) w = poll_each f cs (snd (f a w))" by (cases "f a w") simp
    with Cons show ?thesis by auto
  next
    case False
    then have "fst (poll_each f (a # cs) w) = fst (f a w)"
      by (cases "f a w") (auto split: poll.splits result.splits)
    then show ?thesis by auto
  qed
qed simp

section \<open>Steps of a connection\<close>

lemma set_sel [simp]:
  "channels (set_channels m cn) = m" "incoming (set_channels m cn) = incoming cn"
  "channels (set_incoming q cn) = channels cn" "incoming (set_incoming q cn) = q"
  "cn_rtc_conn (set_channels m cn) = cn_rtc_conn cn" "cn_rtc_conn (set_incoming q cn) = cn_rtc_conn cn"
  by (simp_all add: set_channels_def set_incoming_def)

lemma set_cap_sel [simp]:
  "channels (set_data_channels_read_buf_capacity cap cn) = channels cn"
  "incoming (set_data_channels_read_buf_capacity cap cn) = incoming cn"
  "cn_rtc_conn (set_data_channels_read_buf_capacity cap cn) = cn_rtc_conn cn"
  by (simp_all add: set_data_channels_read_buf_capacity_def)

text \<open>
  What a step does to the set of substreams in use: it opens one, destroys one, or neither.
\<close>

datatype conn_label = Opened u16 | Destroyed u16 | Internal

inductive conn_step ::
  "('o, 'q) mpsc_api \<Rightarrow> ('o, 'w) data_channel_api \<Rightarrow> 'o channel_order \<Rightarrow>
   ('o, 'q) connection \<times> 'w \<Rightarrow> conn_label \<Rightarrow> ('o, 'q) connection \<times> 'w \<Rightarrow> bool"
  for C D ord where
  step_incoming: "conn_step C D ord (cn, w) Internal (register_incoming_data_channels_handler C (r :: ('o, string) result) cn, w)"
| step_inbound:
    "poll_event C D cn w = (Ready (Ok (InboundSubstream ch)), cn', w') \<Longrightarrow>
     conn_step C D ord (cn, w) (Opened (stream_identifier D ch)) (cn', w')"
| step_no_event:
    "poll_event C D cn w = (r, cn', w') \<Longrightarrow> \<forall>ch. r \<noteq> Ready (Ok (InboundSubstream ch)) \<Longrightarrow>
     conn_step C D ord (cn, w) Internal (cn', w')"
| step_outbound:
    "poll_outbound D s cn w = (Ready (Ok ch), cn', w') \<Longrightarrow>
     conn_step C D ord (cn, w) (Opened (stream_identifier D ch)) (cn', w')"
| step_no_outbound:
    "poll_outbound D s cn w = (r, cn', w') \<Longrightarrow> \<forall>ch. r \<noteq> Ready (Ok ch) \<Longrightarrow>
     conn_step C D ord (cn, w) Internal (cn', w')"
| step_destroy:
    "conn_step C D ord (cn, w) (Destroyed (stream_identifier D ch)) (destroy_substream D ch cn, w)"
| step_destroy_outbound: "conn_step C D ord (cn, w) Internal (destroy_outbound cn, w)"
| step_close: "connection_close C D ord cn w = (r, cn', w') \<Longrightarrow> conn_step C D ord (cn, w) Internal (cn', w')"
| step_capacity: "conn_step C D ord (cn, w) Internal (set_data_channels_read_buf_capacity cap cn, w)"
| step_io: "conn_step C D ord (cn, w) Internal (cn, w')"

lemma insert_channel_sel:
  assumes "insert_channel D d cn w = (ch, cn', w')"
  shows "channels cn' = AList.update (stream_identifier D ch) (pdc_clone D ch) (channels cn)"
    and "incoming cn' = incoming cn"
    and "pdc_new D d w = (ch, w')"
  using assms by (auto simp: insert_channel_def split: prod.splits)

lemma stream_identifier_new:
  "data_channel_laws D \<Longrightarrow> pdc_new D d w = (ch, w') \<Longrightarrow> stream_identifier D ch = dc_stream_identifier D d"
  by (auto simp: pdc_new_def stream_identifier_def data_channel_lawsD(10) split: prod.splits)
     (metis data_channel_lawsD(10) fst_conv)

lemma poll_event_inbound:
  assumes "poll_event C D cn w = (Ready (Ok (InboundSubstream ch)), cn', w')"
  obtains d q where "mpsc_poll_next C (incoming cn) = (Ready (Some d), q)" and "pdc_new D d w = (ch, w')"
    and "channels cn' = AList.update (stream_identifier D ch) (pdc_clone D ch) (channels cn)"
    and "incoming cn' = q"
  using assms insert_channel_sel
  by (fastforce simp: poll_event_def split: prod.splits poll.splits option.splits)

lemma poll_event_other:
  assumes "poll_event C D cn w = (r, cn', w')" and "\<forall>ch. r \<noteq> Ready (Ok (InboundSubstream ch))"
  shows "channels cn' = channels cn" and "incoming cn' = snd (mpsc_poll_next C (incoming cn))" and "w' = w"
  using assms by (auto simp: poll_event_def split: prod.splits poll.splits option.splits)

lemma poll_outbound_sel:
  assumes "poll_outbound D s cn w = (r, cn', w')"
  shows "incoming cn' = incoming cn"
    and "channels cn' = (case r of
           Ready (Ok ch) \<Rightarrow> AList.update (stream_identifier D ch) (pdc_clone D ch) (channels cn)
         | _ \<Rightarrow> channels cn)"
  using assms insert_channel_sel
  by (fastforce simp: poll_outbound_def split: prod.splits poll.splits result.splits)+

lemma connection_close_sel:
  assumes "connection_close C D ord cn w = (r, cn', w')"
  shows "channels cn' = channels cn"
    and "incoming cn' = (if r = Ready (Ok ()) then mpsc_close C (incoming cn) else incoming cn)"
    and "r \<noteq> Ready (Ok ()) \<Longrightarrow> cn' = cn"
  using assms by (auto simp: connection_close_def split: prod.splits poll.splits result.splits)

lemma connection_close_result:
  fixes ord cn
  defines "chs \<equiv> map snd (ord (channels cn))"
  shows "fst (connection_close C D ord cn w) =
    (if fst (poll_each (flush_substream D) chs w) = Ready (Ok ())
     then fst (poll_each (shutdown_substream D) chs (snd (poll_each (flush_substream D) chs w)))
     else fst (poll_each (flush_substream D) chs w))"
  unfolding chs_def
  by (auto simp: connection_close_def flush_all_def split: prod.splits poll.splits result.splits)

text \<open>Every entry of the map stands under the stream identifier of its channel, and no key occurs twice.\<close>

definition wf_channels :: "('o, 'w) data_channel_api \<Rightarrow> ('o, 'q) connection \<times> 'w \<Rightarrow> bool" where
  "wf_channels D = (\<lambda>(cn, w). data_channel_laws D \<longrightarrow>
     wf_map (channels cn) \<and> (\<forall>i ch. map_of (channels cn) i = Some ch \<longrightarrow> stream_identifier D ch = i))"

lemma register_incoming_channels [simp]:
  "channels (register_incoming_data_channels_handler C r cn) = channels cn"
  by (simp add: register_incoming_data_channels_handler_def split: result.splits)

interpretation conn_registry: step_invariant "conn_step C D ord" "wf_channels D"
  for C :: "('o, 'q) mpsc_api" and D :: "('o, 'w) data_channel_api" and ord
proof unfold_locales
  fix s l t
  assume "conn_step C D ord s l t" and "wf_channels D s"
  then show "wf_channels D t"
  proof (induction rule: conn_step.induct)
    case (step_inbound cn w ch cn' w')
    then show ?case by (auto simp: wf_channels_def elim!: poll_event_inbound split: if_splits)
  next
    case (step_no_event cn w r cn' w')
    with poll_event_other(1) [OF step_no_event(1,2)] show ?case by (simp add: wf_channels_def)
  next
    case (step_outbound s cn w ch cn' w')
    with poll_outbound_sel(2) [OF step_outbound(1)] show ?case by (auto simp: wf_channels_def split: if_splits)
  next
    case (step_no_outbound s cn w r cn' w')
    with poll_outbound_sel(2) [OF step_no_outbound(1)] show ?case
      by (auto simp: wf_channels_def split: poll.splits result.splits)
  next
    case (step_close cn w r cn' w')
    with connection_close_sel(1) [OF step_close(1)] show ?case by (simp add: wf_channels_def)
  qed (auto simp: wf_channels_def destroy_substream_def destroy_outbound_def split: if_splits)
qed

text \<open>Once the queue of incoming channels is closed, no operation opens it again.\<close>

definition conn_closed :: "('o, 'q) mpsc_api \<Rightarrow> ('o, 'q) connection \<times> 'w \<Rightarrow> bool" where
  "conn_closed C = (\<lambda>(cn, w). mpsc_laws C \<and> mpsc_closed C (incoming cn))"

definition conn_backlog :: "('o, 'q) mpsc_api \<Rightarrow> ('o, 'q) connection \<times> 'w \<Rightarrow> 'o list" where
  "conn_backlog C = (\<lambda>(cn, w). mpsc_queued C (incoming cn))"

lemma incoming_handler_closed:
  assumes "mpsc_laws C" and "mpsc_closed C (incoming cn)"
  shows "mpsc_closed C (incoming (register_incoming_data_channels_handler C r cn))"
    and "mpsc_queued C (incoming (register_incoming_data_channels_handler C r cn)) = mpsc_queued C (incoming cn)"
proof -
  have "mpsc_try_send C d (incoming cn) = (False, snd (mpsc_try_send C d (incoming cn)))" for d
    using mpsc_try_send_True(2) [OF assms(1)] assms(2)
    by (cases "mpsc_try_send C d (incoming cn)") (metis (full_types) snd_conv)
  note refused = mpsc_try_send_False [OF assms(1) this]
  show "mpsc_closed C (incoming (register_incoming_data_channels_handler C r cn))"
    "mpsc_queued C (incoming (register_incoming_data_channels_handler C r cn)) = mpsc_queued C (incoming cn)"
    using refused assms(2) by (simp_all add: register_incoming_data_channels_handler_def split: result.splits)
qed

lemma poll_event_incoming:
  assumes "poll_event C D cn w = (r, cn', w')"
  shows "incoming cn' = snd (mpsc_poll_next C (incoming cn))"
  using assms by (auto simp: poll_event_def insert_channel_def split: prod.splits poll.splits option.splits)

interpretation conn_closing: step_monotone "conn_step C D ord" "conn_closed C"
  for C :: "('o, 'q) mpsc_api" and D :: "('o, 'w) data_channel_api" and ord
proof unfold_locales
  fix s l t
  assume "conn_step C D ord s l t"
  then show "conn_closed C s \<le> conn_closed C t"
    by (induction rule: conn_step.induct)
       (auto simp: conn_closed_def incoming_handler_closed poll_event_incoming mpsc_poll_next_spec
         poll_outbound_sel destroy_substream_def destroy_outbound_def connection_close_sel mpsc_close_spec)
qed

lemma closed_step_backlog:
  assumes "conn_step C D ord s l t" and "conn_closed C s"
  shows "\<exists>n. conn_backlog C t = drop n (conn_backlog C s)"
  using assms
proof (induction rule: conn_step.induct)
  case (step_inbound cn w ch cn' w')
  then show ?case
    by (intro exI [of _ 1])
       (simp add: conn_backlog_def conn_closed_def poll_event_incoming mpsc_poll_next_spec drop_Suc)
next
  case (step_no_event cn w r cn' w')
  then show ?case
    by (intro exI [of _ 1])
       (simp add: conn_backlog_def conn_closed_def poll_event_incoming mpsc_poll_next_spec drop_Suc)
qed (auto simp: conn_backlog_def conn_closed_def incoming_handler_closed poll_outbound_sel destroy_substream_def
      destroy_outbound_def connection_close_sel mpsc_close_spec intro!: exI [of _ 0])

lemma closed_run_backlog:
  assumes "run (conn_step C D ord) s ls t" and "conn_closed C s"
  shows "\<exists>n. conn_backlog C t = drop n (conn_backlog C s)"
  using assms
proof (induction rule: run.induct)
  case (run_nil s)
  show ?case by (rule exI [of _ 0]) simp
next
  case (run_cons s l t ls u)
  with closed_step_backlog [OF run_cons(1)] conn_closing.level_step [OF run_cons(1)] show ?case
    by (auto simp: le_bool_def)
qed

text \<open>The substreams in use, followed through the labels of a run.\<close>

fun track :: "conn_label \<Rightarrow> u16 set \<Rightarrow> u16 set" where
  "track (Opened i) S = insert i S"
| "track (Destroyed i) S = S - {i}"
| "track Internal S = S"

definition open_ids :: "('o, 'q) connection \<times> 'w \<Rightarrow> u16 set" where
  "open_ids = (\<lambda>(cn, w). dom (map_of (channels cn)))"

lemma open_ids_step:
  assumes "conn_step C D ord s l t"
  shows "open_ids t = track l (open_ids s)"
  using assms
proof (induction rule: conn_step.induct)
  case (step_inbound cn w ch cn' w')
  then show ?case by (auto simp: open_ids_def elim!: poll_event_inbound)
next
  case (step_outbound s cn w ch cn' w')
  with poll_outbound_sel(2) [OF step_outbound(1)] show ?case by (auto simp: open_ids_def)
next
  case (step_no_outbound s cn w r cn' w')
  with poll_outbound_sel(2) [OF step_no_outbound(1)] show ?case
    by (auto simp: open_ids_def split: poll.splits result.splits)
qed (auto simp: open_ids_def poll_event_other connection_close_sel destroy_substream_def destroy_outbound_def
      split: if_splits)

section \<open>Properties\<close>

text \<open>C14: When closing a connection completes, every substream in its map has been flushed and shut down, the
  queue of incoming channels is closed to new ones but keeps those already queued, and the map is as before;
  when it does not complete (a substream is pending or fails), the connection is unchanged, so that closing
  can be polled again.\<close>

theorem close_completes:
  assumes "data_channel_laws D" and "mpsc_laws C" and "iterates ord"
    and "connection_close C D ord cn w = (r, cn', w')"
  shows "(if r = Ready (Ok ()) then
      (\<forall>i ch. (i, ch) \<in> set (channels cn) \<longrightarrow> dc_flushed D (pdc_inner ch) w' \<and> dc_shut D (pdc_inner ch) w') \<and>
      channels cn' = channels cn \<and> mpsc_closed C (incoming cn') \<and>
      mpsc_queued C (incoming cn') = mpsc_queued C (incoming cn)
    else cn' = cn)"
proof (cases "r = Ready (Ok ())")
  case True
  let ?chs = "map snd (ord (channels cn))"
  from assms(4) True obtain v where v: "poll_each (flush_substream D) ?chs w = (Ready (Ok ()), v)"
    "poll_each (shutdown_substream D) ?chs v = (Ready (Ok ()), w')"
    by (auto simp: connection_close_def flush_all_def split: prod.splits poll.splits result.splits)
  have "dc_flushed D (pdc_inner ch) w' \<and> dc_shut D (pdc_inner ch) w'" if "(i, ch) \<in> set (channels cn)" for i ch
  proof -
    from that have "ch \<in> set ?chs" using iterates_set [OF assms(3)] by force
    then have "ch_flushed D ch w'" "ch_shut D ch w'"
      using v flushing.poll_each_achieves [OF v(1)] shutting.poll_each_achieves [OF v(2)]
        shutdown_keeps_flushed [of D ch v ?chs] by auto
    with assms(1) show ?thesis by (simp add: ch_flushed_def ch_shut_def)
  qed
  with True connection_close_sel [OF assms(4)] mpsc_close_spec [OF assms(2)] show ?thesis by simp
next
  case False
  with connection_close_sel(3) [OF assms(4)] show ?thesis by simp
qed

definition demo_conn :: "(nat, nat \<times> nat list \<times> bool) connection" where
  "demo_conn = \<lparr>cn_rtc_conn = 0,
     cn_data_channels = \<lparr>dcs_map = [(4, PollDataChannel 4), (7, PollDataChannel 7)],
       dcs_incoming_rx = (10, [9, 12], False), dcs_read_buf_cap = None\<rparr>\<rparr>"

lemma close_completes_witness:
  "dc_flushed toy_dc 4 (snd (snd (connection_close list_mpsc toy_dc rev demo_conn dw_init))) \<and>
   connection_close list_mpsc toy_dc rev demo_conn (dw_init\<lparr>dw_busy := [7]\<rparr>) =
     (Pending, demo_conn, dw_init\<lparr>dw_busy := [7]\<rparr>)"
proof -
  have "connection_close list_mpsc toy_dc rev demo_conn dw_init =
     (Ready (Ok ()), set_incoming (10, [9, 12], True) demo_conn,
      dw_init\<lparr>dw_flushed := [4, 7], dw_shut := [4, 7]\<rparr>)"
    by (simp add: connection_close_def flush_all_def substream_defs demo_conn_def toy_dc_def list_mpsc_def dw_init_def)
  from close_completes [OF toy_dc_laws list_mpsc_laws iterates_rev this] this
  show ?thesis
    by (simp add: connection_close_def flush_all_def substream_defs demo_conn_def toy_dc_def dw_init_def)
qed

text \<open>Closing makes progress: it completes as soon as no substream is pending or failing, it is pending
  only if flushing or shutting down some substream is, and an error it reports is the error of one of them.\<close>

theorem close_progress:
  assumes "iterates ord"
  shows "((\<forall>i ch v. (i, ch) \<in> set (channels cn) \<longrightarrow>
        fst (flush_substream D ch v) = Ready (Ok ()) \<and> fst (shutdown_substream D ch v) = Ready (Ok ())) \<longrightarrow>
      fst (connection_close C D ord cn w) = Ready (Ok ())) \<and>
    (fst (connection_close C D ord cn w) \<noteq> Ready (Ok ()) \<longrightarrow>
      (\<exists>i ch v. (i, ch) \<in> set (channels cn) \<and>
        (fst (flush_substream D ch v) = fst (connection_close C D ord cn w) \<or>
         fst (shutdown_substream D ch v) = fst (connection_close C D ord cn w))))"
proof (intro conjI impI)
  let ?chs = "map snd (ord (channels cn))"
  have chs: "ch \<in> set ?chs \<longleftrightarrow> (\<exists>i. (i, ch) \<in> set (channels cn))" for ch
    using iterates_set [OF assms] by force
  assume all: "\<forall>i ch v. (i, ch) \<in> set (channels cn) \<longrightarrow>
    fst (flush_substream D ch v) = Ready (Ok ()) \<and> fst (shutdown_substream D ch v) = Ready (Ok ())"
  with chs have "fst (poll_each (flush_substream D) ?chs w) = Ready (Ok ())"
    "\<And>v. fst (poll_each (shutdown_substream D) ?chs v) = Ready (Ok ())"
    by (auto intro!: poll_each_total)
  then show "fst (connection_close C D ord cn w) = Ready (Ok ())"
    by (simp add: connection_close_result)
next
  let ?chs = "map snd (ord (channels cn))"
  assume bad: "fst (connection_close C D ord cn w) \<noteq> Ready (Ok ())"
  have "\<exists>ch \<in> set ?chs. \<exists>v. fst (flush_substream D ch v) = fst (connection_close C D ord cn w) \<or>
         fst (shutdown_substream D ch v) = fst (connection_close C D ord cn w)"
    using bad poll_each_blame [of "flush_substream D" ?chs w]
      poll_each_blame [of "shutdown_substream D" ?chs "snd (poll_each (flush_substream D) ?chs w)"]
    unfolding connection_close_result by (auto split: if_splits)
  then show "\<exists>i ch v. (i, ch) \<in> set (channels cn) \<and>
        (fst (flush_substream D ch v) = fst (connection_close C D ord cn w) \<or>
         fst (shutdown_substream D ch v) = fst (connection_close C D ord cn w))"
    using iterates_set [OF assms] by force
qed

definition demo_small :: "(nat, nat \<times> nat list \<times> bool) connection" where
  "demo_small = \<lparr>cn_rtc_conn = 0,
     cn_data_channels = \<lparr>dcs_map = [(4, PollDataChannel 4)], dcs_incoming_rx = (10, [9, 12], False),
       dcs_read_buf_cap = None\<rparr>\<rparr>"

lemma close_progress_witness:
  "fst (connection_close list_mpsc toy_dc rev demo_small (dw_init\<lparr>dw_busy := [4]\<rparr>)) = Pending \<and>
   (\<exists>i ch v. (i, ch) \<in> set (channels demo_small) \<and>
      (fst (flush_substream toy_dc ch v) = Pending \<or> fst (shutdown_substream toy_dc ch v) = Pending))"
proof -
  have "fst (connection_close list_mpsc toy_dc rev demo_small (dw_init\<lparr>dw_busy := [4]\<rparr>)) = Pending"
    by (simp add: connection_close_def flush_all_def substream_defs demo_small_def toy_dc_def dw_init_def)
  with close_progress [OF iterates_rev, where C = list_mpsc and D = toy_dc and cn = demo_small
      and w = "dw_init\<lparr>dw_busy := [4]\<rparr>"]
  show ?thesis by (metis poll.distinct(1))
qed

text \<open>Once a connection has been closed, whatever is called afterwards its queue of incoming channels stays
  closed and takes in nothing: only what was queued before can still be handed out, from the front.\<close>

theorem closed_takes_nothing_in:
  assumes "mpsc_laws C" and "connection_close C D ord cn w = (Ready (Ok ()), cn', w')"
    and "run (conn_step C D ord) (cn', w') ls (cn'', w'')"
  shows "mpsc_closed C (incoming cn'') \<and>
    (\<exists>n. mpsc_queued C (incoming cn'') = drop n (mpsc_queued C (incoming cn)))"
proof -
  from assms(1,2) have "conn_closed C (cn', w')"
    and q: "conn_backlog C (cn', w') = mpsc_queued C (incoming cn)"
    by (auto simp: conn_closed_def conn_backlog_def connection_close_sel mpsc_close_spec)
  then show ?thesis
    using conn_closing.level_run [OF assms(3)] closed_run_backlog [OF assms(3)]
    by (auto simp: le_bool_def conn_closed_def conn_backlog_def)
qed

lemma closed_takes_nothing_in_witness:
  "mpsc_closed list_mpsc (incoming (register_incoming_data_channels_handler list_mpsc (Ok 30 :: (nat, string) result)
     (set_incoming (10, [9, 12], True) demo_conn)))"
proof -
  have c: "connection_close list_mpsc toy_dc rev demo_conn dw_init =
     (Ready (Ok ()), set_incoming (10, [9, 12], True) demo_conn,
      dw_init\<lparr>dw_flushed := [4, 7], dw_shut := [4, 7]\<rparr>)"
    by (simp add: connection_close_def flush_all_def substream_defs demo_conn_def toy_dc_def list_mpsc_def dw_init_def)
  have "run (conn_step list_mpsc toy_dc rev)
      (set_incoming (10, [9, 12], True) demo_conn, dw_init\<lparr>dw_flushed := [4, 7], dw_shut := [4, 7]\<rparr>) [Internal]
      (register_incoming_data_channels_handler list_mpsc (Ok 30 :: (nat, string) result)
        (set_incoming (10, [9, 12], True) demo_conn), dw_init\<lparr>dw_flushed := [4, 7], dw_shut := [4, 7]\<rparr>)"
    by (rule run_single) (rule step_incoming)
  from closed_takes_nothing_in [OF list_mpsc_laws c this] show ?thesis by blast
qed

lemma poll_event_front:
  assumes "data_channel_laws D" and "mpsc_laws C" and "mpsc_queued C (incoming cn) = d # ds"
    and "poll_event C D cn w = (r, cn', w')"
  obtains ch where "r = Ready (Ok (InboundSubstream ch))" and "stream_identifier D ch = dc_stream_identifier D d"
    and "map_of (channels cn') = (map_of (channels cn))(dc_stream_identifier D d \<mapsto> pdc_clone D ch)"
    and "mpsc_queued C (incoming cn') = ds"
proof -
  obtain ch v where new: "pdc_new D d w = (ch, v)" by fastforce
  have "fst (mpsc_poll_next C (incoming cn)) = Ready (Some d)"
    using mpsc_poll_next_spec(1) [OF assms(2)] assms(3) by simp
  moreover have "mpsc_queued C (incoming cn') = ds"
    using poll_event_incoming [OF assms(4)] mpsc_poll_next_spec(2) [OF assms(2)] assms(3) by simp
  ultimately show thesis
    using that [of ch] assms(4) stream_identifier_new [OF assms(1) new] new
    by (cases "mpsc_poll_next C (incoming cn)") (auto simp: poll_event_def insert_channel_def)
qed

text \<open>What \<open>poll_event\<close> yields, on every branch: with something queued it hands out the channel at the
  front of the queue and enters it under its stream identifier; with nothing queued it is pending, or an
  error once the queue is closed, and then the map is unchanged.\<close>

theorem poll_event_spec:
  assumes "data_channel_laws D" and "mpsc_laws C" and "poll_event C D cn w = (r, cn', w')"
  shows "mpsc_queued C (incoming cn') = tl (mpsc_queued C (incoming cn)) \<and>
    (case mpsc_queued C (incoming cn) of
       d # ds \<Rightarrow> \<exists>ch. r = Ready (Ok (InboundSubstream ch)) \<and> stream_identifier D ch = dc_stream_identifier D d \<and>
         map_of (channels cn') = (map_of (channels cn))(dc_stream_identifier D d \<mapsto> pdc_clone D ch)
     | [] \<Rightarrow> channels cn' = channels cn \<and> w' = w \<and>
         r = (if mpsc_closed C (incoming cn)
              then Ready (Err (IoErr KOther ''incoming_data_channels_rx is closed (no messages left)''))
              else Pending))"
proof (rule conjI)
  show "mpsc_queued C (incoming cn') = tl (mpsc_queued C (incoming cn))"
    using poll_event_incoming [OF assms(3)] mpsc_poll_next_spec(2) [OF assms(2)] by simp
  show "case mpsc_queued C (incoming cn) of
       d # ds \<Rightarrow> \<exists>ch. r = Ready (Ok (InboundSubstream ch)) \<and> stream_identifier D ch = dc_stream_identifier D d \<and>
         map_of (channels cn') = (map_of (channels cn))(dc_stream_identifier D d \<mapsto> pdc_clone D ch)
     | [] \<Rightarrow> channels cn' = channels cn \<and> w' = w \<and>
         r = (if mpsc_closed C (incoming cn)
              then Ready (Err (IoErr KOther ''incoming_data_channels_rx is closed (no messages left)''))
              else Pending)"
  proof (cases "mpsc_queued C (incoming cn)")
    case Nil
    with mpsc_poll_next_spec(1) [OF assms(2), of "incoming cn"] assms(3) show ?thesis
      by (cases "mpsc_poll_next C (incoming cn)") (auto simp: poll_event_def split: if_splits)
  next
    case (Cons d ds)
    from poll_event_front [OF assms(1,2) Cons assms(3)] show ?thesis unfolding Cons list.case by metis
  qed
qed

lemma poll_event_spec_witness:
  "\<exists>ch. fst (poll_event list_mpsc toy_dc demo_conn dw_init) = Ready (Ok (InboundSubstream ch)) \<and>
     stream_identifier toy_dc ch = 9"
proof -
  let ?e = "poll_event list_mpsc toy_dc demo_conn dw_init"
  have e: "?e = (fst ?e, fst (snd ?e), snd (snd ?e))" by simp
  have "mpsc_queued list_mpsc (incoming demo_conn) = [9, 12]" "dc_stream_identifier toy_dc 9 = 9"
    by (simp_all add: demo_conn_def toy_dc_def)
  with poll_event_spec [OF toy_dc_laws list_mpsc_laws e] show ?thesis by auto
qed

text \<open>C20: A connection's map is exactly the substreams in use: after any sequence of operations on it, the
  identifiers in the map are those handed out by \<open>poll_event\<close> and \<open>poll_outbound\<close> and not destroyed since,
  no identifier occurs twice, and each stands for a channel with that stream identifier.\<close>

theorem substreams_tracked:
  assumes "data_channel_laws D" and "run (conn_step C D ord) (fst (connection_new A C pc w), w0) ls (cn, w')"
  shows "dom (map_of (channels cn)) = fold track ls {} \<and> distinct (map fst (channels cn)) \<and>
    (\<forall>i ch. map_of (channels cn) i = Some ch \<longrightarrow> stream_identifier D ch = i)"
proof -
  have start: "channels (fst (connection_new A C pc w)) = []" by (simp add: connection_new_def)
  have "open_ids t = fold track ls (open_ids s)" if "run (conn_step C D ord) s ls t" for s t
    using that by (induction rule: run.induct) (simp_all add: open_ids_step)
  from this [OF assms(2)] start have "dom (map_of (channels cn)) = fold track ls {}" by (simp add: open_ids_def)
  moreover have "wf_channels D (cn, w')"
    by (rule conn_registry.invar_run [OF assms(2)]) (simp add: wf_channels_def start)
  ultimately show ?thesis using assms(1) by (simp add: wf_channels_def wf_map_def)
qed

text \<open>A number of calls of \<open>poll_event\<close> in a row, and the identifier of the substream one of them yields.\<close>

fun poll_events ::
  "('o, 'q) mpsc_api \<Rightarrow> ('o, 'w) data_channel_api \<Rightarrow> nat \<Rightarrow> ('o, 'q) connection \<Rightarrow> 'w \<Rightarrow>
   ('o muxer_event, io_error) result poll list \<times> ('o, 'q) connection \<times> 'w" where
  "poll_events C D 0 cn w = ([], cn, w)"
| "poll_events C D (Suc n) cn w =
     (case poll_event C D cn w of (r, cn', w') \<Rightarrow>
      case poll_events C D n cn' w' of (rs, cn'', w'') \<Rightarrow> (r # rs, cn'', w''))"

definition event_id :: "('o, 'w) data_channel_api \<Rightarrow> ('o muxer_event, io_error) result poll \<Rightarrow> u16 option" where
  "event_id D r = (case r of Ready (Ok (InboundSubstream ch)) \<Rightarrow> Some (stream_identifier D ch) | _ \<Rightarrow> None)"

lemma poll_events_front:
  assumes "data_channel_laws D" and "mpsc_laws C" and "mpsc_queued C (incoming cn) = xs @ ys"
  shows "map (event_id D) (fst (poll_events C D (length xs) cn w)) = map (Some \<circ> dc_stream_identifier D) xs \<and>
    mpsc_queued C (incoming (fst (snd (poll_events C D (length xs) cn w)))) = ys"
  using assms(3)
proof (induction xs arbitrary: cn w)
  case (Cons x xs)
  obtain r cn' w' where e: "poll_event C D cn w = (r, cn', w')" by (metis surj_pair)
  from Cons.prems have "mpsc_queued C (incoming cn) = x # (xs @ ys)" by simp
  from poll_event_front [OF assms(1,2) this e] obtain ch where
    "r = Ready (Ok (InboundSubstream ch))" "stream_identifier D ch = dc_stream_identifier D x"
    "mpsc_queued C (incoming cn') = xs @ ys" .
  with Cons.IH [of cn' w'] e show ?case by (auto simp: event_id_def split: prod.splits)
qed simp

text \<open>An incoming data channel that opens while the queue accepts it is delivered: after the channels
  queued before it have been handed out, the next \<open>poll_event\<close> yields it, under its own stream identifier.\<close>

theorem incoming_channel_delivered:
  assumes "data_channel_laws D" and "mpsc_laws C" and "fst (mpsc_try_send C d (incoming cn))"
  shows "map (event_id D)
      (fst (poll_events C D (Suc (length (mpsc_queued C (incoming cn))))
        (register_incoming_data_channels_handler C (Ok d :: ('o, 'x) result) cn) w)) =
    map (Some \<circ> dc_stream_identifier D) (mpsc_queued C (incoming cn) @ [d])"
proof -
  let ?cn = "register_incoming_data_channels_handler C (Ok d :: ('o, 'x) result) cn"
  have "mpsc_try_send C d (incoming cn) = (True, incoming ?cn)"
    using assms(3) by (cases "mpsc_try_send C d (incoming cn)")
      (simp add: register_incoming_data_channels_handler_def)
  from mpsc_try_send_True(1) [OF assms(2) this]
  have "mpsc_queued C (incoming ?cn) = (mpsc_queued C (incoming cn) @ [d]) @ []" by simp
  from poll_events_front [OF assms(1,2) this] show ?thesis by simp
qed

lemma incoming_channel_delivered_witness:
  "map (event_id toy_dc) (fst (poll_events list_mpsc toy_dc 3
     (register_incoming_data_channels_handler list_mpsc (Ok 30 :: (nat, string) result) demo_conn) dw_init)) =
   [Some 9, Some 12, Some 30]"
proof -
  have "fst (mpsc_try_send list_mpsc 30 (incoming demo_conn))" by (simp add: demo_conn_def)
  from incoming_channel_delivered [OF toy_dc_laws list_mpsc_laws this, where ?'x = string and w = dw_init]
  show ?thesis by (simp add: demo_conn_def numeral_3_eq_3) (simp add: toy_dc_def)
qed

definition demo_new :: "(nat, nat \<times> nat list \<times> bool) connection" where
  "demo_new = fst (connection_new toy_rtc list_mpsc 1 dw_init)"

definition demo_queued :: "(nat, nat \<times> nat list \<times> bool) connection" where
  "demo_queued = register_incoming_data_channels_handler list_mpsc (Ok 9 :: (nat, string) result) demo_new"

lemma substreams_tracked_witness:
  "dom (map_of (channels (fst (snd (poll_event list_mpsc toy_dc demo_queued dw_init))))) = {9}"
proof -
  let ?cn = "fst (snd (poll_event list_mpsc toy_dc demo_queued dw_init))"
  have "conn_step list_mpsc toy_dc rev (demo_new, dw_init) Internal (demo_queued, dw_init)"
    unfolding demo_queued_def by (rule step_incoming)
  moreover have "poll_event list_mpsc toy_dc demo_queued dw_init =
      (Ready (Ok (InboundSubstream (PollDataChannel 9))), ?cn, dw_init)"
    by (simp add: poll_event_def demo_queued_def demo_new_def register_incoming_data_channels_handler_def
        connection_new_def set_incoming_def insert_channel_def pdc_new_def toy_dc_def list_mpsc_def)
  then have "conn_step list_mpsc toy_dc rev (demo_queued, dw_init) (Opened (stream_identifier toy_dc (PollDataChannel 9)))
      (?cn, dw_init)" by (rule step_inbound)
  ultimately have "run (conn_step list_mpsc toy_dc rev) (demo_new, dw_init)
      [Internal, Opened (stream_identifier toy_dc (PollDataChannel 9))] (?cn, dw_init)"
    by (blast intro: run_intros)
  from substreams_tracked [OF toy_dc_laws this [unfolded demo_new_def]] show ?thesis
    by (simp add: stream_identifier_def) (simp add: toy_dc_def)
qed

text \<open>Opening an outbound substream, branch by branch: it succeeds exactly when the peer connection creates
  the channel and its open handler detaches it; a refused creation and a cancelled or failed opening are
  reported as I/O errors of kind \<open>Other\<close> that say which it was; it never panics.\<close>

theorem open_outbound_spec:
  "fst (open_outbound A cn w) =
    (case rtc_create_data_channel A (cn_rtc_conn cn) ''data'' None w of
       (Err e, _) \<Rightarrow> Returns (Err (IoErr KOther (''webrtc error: '' @ rtc_show_error A e)))
     | (Ok dc, w1) \<Rightarrow>
         (case fst (rtc_await_rx A dc w1) of
            HandlerRan (Ok detached) \<Rightarrow> Returns (Ok detached)
          | _ \<Rightarrow> Returns (Err (IoErr KOther (rtc_canceled_text A)))))"
  by (simp add: open_outbound_def world_simps register_data_channel_open_handler_def
      split: prod.splits result.splits rx_event.splits)

text \<open>The capacity set by \<open>set_data_channels_read_buf_capacity\<close> influences nothing: every operation on the
  connection gives the same results and the same effects with and without it, and only carries it along.\<close>

theorem read_buf_capacity_unused:
  "poll_event C D (set_data_channels_read_buf_capacity cap cn) w =
     (case poll_event C D cn w of (r, cn', w') \<Rightarrow> (r, set_data_channels_read_buf_capacity cap cn', w')) \<and>
   poll_outbound D s (set_data_channels_read_buf_capacity cap cn) w =
     (case poll_outbound D s cn w of (r, cn', w') \<Rightarrow> (r, set_data_channels_read_buf_capacity cap cn', w')) \<and>
   connection_close C D ord (set_data_channels_read_buf_capacity cap cn) w =
     (case connection_close C D ord cn w of (r, cn', w') \<Rightarrow> (r, set_data_channels_read_buf_capacity cap cn', w')) \<and>
   open_outbound A (set_data_channels_read_buf_capacity cap cn) w = open_outbound A cn w \<and>
   destroy_substream D ch (set_data_channels_read_buf_capacity cap cn) =
     set_data_channels_read_buf_capacity cap (destroy_substream D ch cn)"
proof (intro conjI)
  have commute: "set_incoming q (set_data_channels_read_buf_capacity cap c) =
      set_data_channels_read_buf_capacity cap (set_incoming q c)"
    "set_channels m (set_data_channels_read_buf_capacity cap c) =
      set_data_channels_read_buf_capacity cap (set_channels m c)" for q m c
    by (simp_all add: set_incoming_def set_channels_def set_data_channels_read_buf_capacity_def)
  show "poll_event C D (set_data_channels_read_buf_capacity cap cn) w =
     (case poll_event C D cn w of (r, cn', w') \<Rightarrow> (r, set_data_channels_read_buf_capacity cap cn', w'))"
    by (simp add: poll_event_def insert_channel_def commute split: prod.splits poll.splits option.splits)
  show "poll_outbound D s (set_data_channels_read_buf_capacity cap cn) w =
     (case poll_outbound D s cn w of (r, cn', w') \<Rightarrow> (r, set_data_channels_read_buf_capacity cap cn', w'))"
    by (simp add: poll_outbound_def insert_channel_def commute split: prod.splits poll.splits result.splits)
  show "connection_close C D ord (set_data_channels_read_buf_capacity cap cn) w =
     (case connection_close C D ord cn w of (r, cn', w') \<Rightarrow> (r, set_data_channels_read_buf_capacity cap cn', w'))"
    by (simp add: connection_close_def flush_all_def commute split: prod.splits poll.splits result.splits)
  show "open_outbound A (set_data_channels_read_buf_capacity cap cn) w = open_outbound A cn w"
    by (simp add: open_outbound_def)
  show "destroy_substream D ch (set_data_channels_read_buf_capacity cap cn) =
     set_data_channels_read_buf_capacity cap (destroy_substream D ch cn)"
    by (simp add: destroy_substream_def commute)
qed

end
