(* ===== verification/Handshake.thy ===== *)
theory Handshake
  imports Connection
begin

text \<open>
  Setting up a connection: \<open>WebRTCDirectTransport::do_dial\<close> of \<open>src/transport.rs\<close> for the dialing side and
  \<open>webrtc\<close> of \<open>src/upgrade.rs\<close> for the listening side. Both create a peer connection with the predefined
  session descriptions, open the initial data channel, run a noise handshake over it and compare the TLS
  certificate fingerprint sent through noise with the one in the address.
\<close>

section \<open>State of the transport\<close>

record ('o, 'q) webrtc_direct_transport =
  tr_config :: "'o rtc_config"
  tr_udp_mux :: 'o
  tr_udp_mux_addr :: socket_addr
  tr_new_addr_rx :: 'q
  tr_id_keys :: 'o

definition cert_fingerprint ::
  "('ma, 'pid, 'o, 'x, 'w) rtc_api \<Rightarrow> ('o, 'q) webrtc_direct_transport \<Rightarrow> string outcome" where
  "cert_fingerprint A self = fingerprint_of_first_certificate (rtc_get_fingerprints A) (tr_config self)"

section \<open>The parts both sides share\<close>

text \<open>The channel named \<open>data\<close>, with ten seconds to open.\<close>

definition open_initial_channel ::
  "('ma, 'pid, 'o, 'x, 'w) rtc_api \<Rightarrow> 'o \<Rightarrow> dc_init \<Rightarrow>
   ('o \<Rightarrow> ('w, 'a, ('ma, 'pid, 'x) error) async_fn) \<Rightarrow> ('w, 'a, ('ma, 'pid, 'x) error) async_fn" where
  "open_initial_channel A peer_connection ini k =
     await_try (rtc_create_data_channel A peer_connection ''data'' (Some ini)) WebRTC (\<lambda>data_channel.
     await (rtc_await_rx_or_timer A data_channel 10) (\<lambda>res.
     case res of
       None \<Rightarrow> return_err (InternalError ''data channel opening took longer than 10 seconds (see logs)'')
     | Some ev \<Rightarrow>
         (case rx_result ev of
            Ok detached \<Rightarrow> k detached
          | Err _ \<Rightarrow> return_err (InternalError (rtc_canceled_text A)))))"

text \<open>The noise handshake; \<open>upgrade\<close> is \<open>upgrade_outbound\<close> or \<open>upgrade_inbound\<close>.\<close>

definition noise_handshake ::
  "('ma, 'pid, 'o, 'x, 'w) rtc_api \<Rightarrow> ('o, 'w) data_channel_api \<Rightarrow>
   ('o \<Rightarrow> 'o \<Rightarrow> 'o \<Rightarrow> ('w, ('o remote_identity \<times> 'o, 'x) result) world_call) \<Rightarrow> 'o \<Rightarrow> 'o \<Rightarrow>
   ('pid \<Rightarrow> 'o \<Rightarrow> ('w, 'a, ('ma, 'pid, 'x) error) async_fn) \<Rightarrow> ('w, 'a, ('ma, 'pid, 'x) error) async_fn" where
  "noise_handshake A D upgrade id_keys detached k =
     await_unwrap ''into_authentic: unwrap on an Err value'' (noise_authentic_keys A id_keys) (\<lambda>dh_keys.
     let noise = noise_config_xx A dh_keys in
     case noise_protocol_info A noise of
       [] \<Rightarrow> panic ''protocol_info: unwrap on a None value''
     | info # _ \<Rightarrow>
         await (pdc_new D detached) (\<lambda>ch.
         await_try (upgrade noise (pdc_into_inner ch) info) Noise (\<lambda>(remote, io).
         case remote of
           IdentityKey pk \<Rightarrow> k (noise_to_peer_id A pk) io
         | OtherIdentity \<Rightarrow> return_err (Noise (noise_authentication_failed A)))))"

definition exchange_fingerprints ::
  "('ma, 'pid, 'o, 'x, 'w) rtc_api \<Rightarrow> 'o \<Rightarrow> string \<Rightarrow> string \<Rightarrow>
   ('w, 'a, ('ma, 'pid, 'x) error) async_fn \<Rightarrow> ('w, 'a, ('ma, 'pid, 'x) error) async_fn" where
  "exchange_fingerprints A noise_io our_fingerprint remote_fingerprint k =
     await_try (nio_write A noise_io (into_bytes our_fingerprint)) IoError (\<lambda>n.
     await_try (nio_flush A noise_io) IoError (\<lambda>_.
     await_try (nio_read_exact A noise_io n) IoError (\<lambda>buf.
     case from_utf8 buf of
       Err _ \<Rightarrow> return_err (Noise (noise_authentication_failed A))
     | Ok fingerprint_from_noise \<Rightarrow>
         if fingerprint_from_noise \<noteq> remote_fingerprint
         then return_err (InvalidFingerprint remote_fingerprint fingerprint_from_noise)
         else k)))"

section \<open>Dialing\<close>

definition do_dial ::
  "('ma, 'pid, 'o, 'x, 'w) rtc_api \<Rightarrow> ('o, 'w) data_channel_api \<Rightarrow> ('o, 'iq) mpsc_api \<Rightarrow>
   ('ma, 'h) multiaddr_api \<Rightarrow> ('tt, description_context, 'te) tt_api \<Rightarrow>
   ('o, 'q) webrtc_direct_transport \<Rightarrow> 'ma \<Rightarrow>
   ('w, 'pid \<times> ('o, 'iq) connection, ('ma, 'pid, 'x) error) async_fn" where
  "do_dial A D C M T self addr =
     (case multiaddr_to_socketaddr M addr of
        None \<Rightarrow> return_err (InvalidMultiaddr addr)
      | Some socket_addr \<Rightarrow>
          if sock_port socket_addr = 0 \<or> ip_is_unspecified (sock_ip socket_addr)
          then return_err (InvalidMultiaddr addr)
          else
            call_or_panic (cert_fingerprint A self) (\<lambda>our_fingerprint.
            let se = build_setting_engine (tr_udp_mux self) socket_addr our_fingerprint in
            await_try (rtc_new_peer_connection A se (tr_config self)) WebRTC (\<lambda>peer_connection.
            await_try (rtc_create_offer A peer_connection) WebRTC (\<lambda>offer.
            await_try (rtc_set_local_description A peer_connection offer) WebRTC (\<lambda>_.
            case fingerprint_from_addr M addr of
              None \<Rightarrow> return_err (InvalidMultiaddr addr)
            | Some f \<Rightarrow>
                let remote_fingerprint = fingerprint_to_string f in
                call_or_panic (render_description T SERVER_SESSION_DESCRIPTION socket_addr remote_fingerprint)
                  (\<lambda>server_session_description.
                unwrap_or_panic ''answer: unwrap on an Err value'' (rtc_sdp_answer A server_session_description) (\<lambda>sdp.
                await_try (rtc_set_remote_description A peer_connection sdp) WebRTC (\<lambda>_.
                open_initial_channel A peer_connection \<lparr>dci_negotiated = None, dci_id = Some 1\<rparr> (\<lambda>detached.
                noise_handshake A D (noise_upgrade_outbound A) (tr_id_keys self) detached (\<lambda>peer_id noise_io.
                exchange_fingerprints A noise_io our_fingerprint remote_fingerprint (
                let peer_id_from_addr = peer_id_try_from_multiaddr A addr in
                if peer_id_from_addr = None \<or> peer_id_from_addr \<noteq> Some peer_id
                then return_err (InvalidPeerID peer_id_from_addr peer_id)
                else await (connection_new A C peer_connection) (\<lambda>conn.
                  return_ok (peer_id, conn)))))))))))))"

section \<open>Upgrading an incoming connection\<close>

definition webrtc ::
  "('ma, 'pid, 'o, 'x, 'w) rtc_api \<Rightarrow> ('o, 'w) data_channel_api \<Rightarrow> ('o, 'iq) mpsc_api \<Rightarrow>
   ('ma, 'h) multiaddr_api \<Rightarrow> ('tt, description_context, 'te) tt_api \<Rightarrow>
   'o \<Rightarrow> 'o rtc_config \<Rightarrow> 'ma \<Rightarrow> 'o \<Rightarrow>
   ('w, 'pid \<times> ('o, 'iq) connection, ('ma, 'pid, 'x) error) async_fn" where
  "webrtc A D C M T udp_mux config addr id_keys =
     (case multiaddr_to_socketaddr M addr of
        None \<Rightarrow> return_err (InvalidMultiaddr addr)
      | Some socket_addr \<Rightarrow>
          call_or_panic (fingerprint_of_first_certificate (rtc_get_fingerprints A) config) (\<lambda>our_fingerprint.
          let se = build_setting_engine udp_mux socket_addr our_fingerprint @ [SetLite True] in
          (case rtc_set_answering_dtls_role A DTLSServer of
             Err e \<Rightarrow> return_err (WebRTC e)
           | Ok _ \<Rightarrow>
              let se = se @ [SetAnsweringDtlsRole DTLSServer] in
              await_try (rtc_new_peer_connection A se config) WebRTC (\<lambda>peer_connection.
              let protos = ma_iter M addr in
              case (if protos = [] then None else Some (last protos)) of
                Some (XWebRTC f) \<Rightarrow>
                  let remote_fingerprint = fingerprint_to_string f in
                  call_or_panic (render_description T CLIENT_SESSION_DESCRIPTION socket_addr remote_fingerprint)
                    (\<lambda>client_session_description.
                  unwrap_or_panic ''offer: unwrap on an Err value'' (rtc_sdp_offer A client_session_description) (\<lambda>sdp.
                  await_try (rtc_set_remote_description A peer_connection sdp) WebRTC (\<lambda>_.
                  await_try (rtc_create_answer A peer_connection) WebRTC (\<lambda>answer.
                  await_try (rtc_set_local_description A peer_connection answer) WebRTC (\<lambda>_.
                  open_initial_channel A peer_connection \<lparr>dci_negotiated = Some True, dci_id = Some 1\<rparr> (\<lambda>detached.
                  noise_handshake A D (noise_upgrade_inbound A) id_keys detached (\<lambda>peer_id noise_io.
                  exchange_fingerprints A noise_io our_fingerprint remote_fingerprint (
                  await (connection_new A C peer_connection) (\<lambda>conn.
                    return_ok (peer_id, conn))))))))))
              | _ \<Rightarrow> return_err (InvalidMultiaddr addr)))))"

section \<open>What success implies\<close>

lemma rx_result_Ok [simp]: "rx_result ev = Ok d \<longleftrightarrow> ev = HandlerRan (Ok d)"
  by (cases ev) (auto simp: register_data_channel_open_handler_def split: result.splits)

lemma open_initial_channel_ok:
  assumes "open_initial_channel A pc ini k w = (Returns (Ok a), w')"
  obtains dc detached w1 w2 where
    "rtc_create_data_channel A pc ''data'' (Some ini) w = (Ok dc, w1)"
    and "rtc_await_rx_or_timer A dc 10 w1 = (Some (HandlerRan (Ok detached)), w2)"
    and "k detached w2 = (Returns (Ok a), w')"
  using assms unfolding open_initial_channel_def
  by (elim async_okE) (auto split: option.splits result.splits)

text \<open>
  What a completed noise handshake and fingerprint exchange means, as the calls made from world \<open>u\<close> to
  world \<open>u'\<close>: the remote proved an identity key in a handshake made with our keys over the given channel, and
  over the resulting stream our fingerprint was sent and exactly the expected one came back.
\<close>

definition authenticated ::
  "('ma, 'pid, 'o, 'x, 'w) rtc_api \<Rightarrow> ('o, 'w) data_channel_api \<Rightarrow>
   ('o \<Rightarrow> 'o \<Rightarrow> 'o \<Rightarrow> ('w, ('o remote_identity \<times> 'o, 'x) result) world_call) \<Rightarrow> 'o \<Rightarrow> 'o \<Rightarrow> string \<Rightarrow> string \<Rightarrow>
   'w \<Rightarrow> 'pid \<Rightarrow> 'w \<Rightarrow> bool" where
  "authenticated A D upgrade id_keys detached our_fp remote_fp u peer_id u' \<longleftrightarrow>
     (\<exists>dh u1 ch u2 info infos pk io u3 n u4 u5.
        noise_authentic_keys A id_keys u = (Ok dh, u1) \<and> pdc_new D detached u1 = (ch, u2) \<and>
        noise_protocol_info A (noise_config_xx A dh) = info # infos \<and>
        upgrade (noise_config_xx A dh) (pdc_into_inner ch) info u2 = (Ok (IdentityKey pk, io), u3) \<and>
        peer_id = noise_to_peer_id A pk \<and>
        nio_write A io (into_bytes our_fp) u3 = (Ok n, u4) \<and> nio_flush A io u4 = (Ok (), u5) \<and>
        nio_read_exact A io n u5 = (Ok (into_bytes remote_fp), u'))"

lemma exchange_fingerprints_ok:
  assumes "exchange_fingerprints A io our remote k w = (Returns (Ok a), w')"
  obtains n w1 w2 w3 where
    "nio_write A io (into_bytes our) w = (Ok n, w1)"
    and "nio_flush A io w1 = (Ok (), w2)"
    and "nio_read_exact A io n w2 = (Ok (into_bytes remote), w3)"
    and "k w3 = (Returns (Ok a), w')"
proof -
  from assms obtain n w1 w2 buf w3 s where
    *: "nio_write A io (into_bytes our) w = (Ok n, w1)" "nio_flush A io w1 = (Ok (), w2)"
    "nio_read_exact A io n w2 = (Ok buf, w3)" "from_utf8 buf = Ok s" "s = remote" "k w3 = (Returns (Ok a), w')"
    unfolding exchange_fingerprints_def
    by (auto elim!: async_okE split: result.splits if_splits)
  from into_bytes_from_utf8 [OF *(4)] *(5) have "buf = into_bytes remote" by simp
  with * that show thesis by blast
qed

lemma handshake_authenticated:
  assumes "noise_handshake A D upgrade id_keys detached
      (\<lambda>peer_id io. exchange_fingerprints A io our remote (k peer_id)) w = (Returns (Ok a), w')"
  obtains peer_id v where "authenticated A D upgrade id_keys detached our remote w peer_id v"
    and "k peer_id v = (Returns (Ok a), w')"
proof -
  from assms obtain dh u1 info infos ch u2 pk io u3 where
    *: "noise_authentic_keys A id_keys w = (Ok dh, u1)"
    "noise_protocol_info A (noise_config_xx A dh) = info # infos" "pdc_new D detached u1 = (ch, u2)"
    "upgrade (noise_config_xx A dh) (pdc_into_inner ch) info u2 = (Ok (IdentityKey pk, io), u3)"
    "exchange_fingerprints A io our remote (k (noise_to_peer_id A pk)) u3 = (Returns (Ok a), w')"
    unfolding noise_handshake_def Let_def
    by (auto elim!: async_okE split: list.splits prod.splits remote_identity.splits)
  from *(5) show thesis
    by (rule exchange_fingerprints_ok) (rule that, use *(1-4) in \<open>auto simp: authenticated_def\<close>)
qed

text \<open>A short write makes the exchange read too few bytes to match.\<close>

lemma authenticated_length:
  assumes "noise_io_laws A" and "authenticated A D upgrade id_keys detached our remote u peer_id u'"
  shows "length remote \<le> length our"
  using assms nio_read_exact_length [OF assms(1)] nio_write_bound [OF assms(1)]
  unfolding authenticated_def by (metis length_into_bytes)

section \<open>Properties\<close>

text \<open>C1: Dialing succeeds only with the intended peer: the address is a WebRTC address with a usable port and
  IP, the noise handshake over the initial channel authenticated an identity key, the peer id returned is that
  of this key and equals the one in the address, what came back over the noise stream is exactly the text of
  the fingerprint in the address, and the connection returned is a new one around the peer connection.\<close>

theorem dial_authenticates_peer:
  assumes "do_dial A D C M T self addr w = (Returns (Ok (peer_id, conn)), w')"
  shows "\<exists>socket_addr f our pc dc detached u0 u u'. multiaddr_to_socketaddr M addr = Some socket_addr \<and>
    sock_port socket_addr \<noteq> 0 \<and> ip_is_unspecified (sock_ip socket_addr) = False \<and>
    fingerprint_from_addr M addr = Some f \<and> cert_fingerprint A self = Returns our \<and>
    peer_id_try_from_multiaddr A addr = Some peer_id \<and>
    rtc_await_rx_or_timer A dc 10 u0 = (Some (HandlerRan (Ok detached)), u) \<and>
    authenticated A D (noise_upgrade_outbound A) (tr_id_keys self) detached our (fingerprint_to_string f) u peer_id u' \<and>
    connection_new A C pc u' = (conn, w')"
proof -
  from assms obtain sa our f pc v detached dc u0 u where
    sa: "multiaddr_to_socketaddr M addr = Some sa" "sock_port sa \<noteq> 0" "\<not> ip_is_unspecified (sock_ip sa)"
    and our: "cert_fingerprint A self = Returns our" and f: "fingerprint_from_addr M addr = Some f"
    and dc: "rtc_await_rx_or_timer A dc 10 u0 = (Some (HandlerRan (Ok detached)), u)"
    and rest: "noise_handshake A D (noise_upgrade_outbound A) (tr_id_keys self) detached (\<lambda>peer_id noise_io.
      exchange_fingerprints A noise_io our (fingerprint_to_string f) (
      let peer_id_from_addr = peer_id_try_from_multiaddr A addr in
      if peer_id_from_addr = None \<or> peer_id_from_addr \<noteq> Some peer_id
      then return_err (InvalidPeerID peer_id_from_addr peer_id)
      else await (connection_new A C pc) (\<lambda>conn. return_ok (peer_id, conn)))) u = (Returns (Ok (peer_id, conn)), w')"
    unfolding do_dial_def Let_def
    by (auto elim!: async_okE open_initial_channel_ok split: option.splits if_splits)
  from rest show ?thesis
  proof (rule handshake_authenticated)
    fix pid v
    assume auth: "authenticated A D (noise_upgrade_outbound A) (tr_id_keys self) detached our (fingerprint_to_string f) u pid v"
      and "(let peer_id_from_addr = peer_id_try_from_multiaddr A addr in
      if peer_id_from_addr = None \<or> peer_id_from_addr \<noteq> Some pid
      then return_err (InvalidPeerID peer_id_from_addr pid)
      else await (connection_new A C pc) (\<lambda>conn. return_ok (pid, conn))) v = (Returns (Ok (peer_id, conn)), w')"
    then have "peer_id_try_from_multiaddr A addr = Some peer_id" "pid = peer_id" "connection_new A C pc v = (conn, w')"
      by (auto simp: Let_def elim!: async_okE split: if_splits)
    with auth sa our f dc show ?thesis by blast
  qed
qed

definition demo_tt :: "((string \<times> string) list, description_context, unit) tt_api" where
  "demo_tt = list_tt (description_fields (\<lambda>_. ''127.0.0.1''))"

lemma demo_tt_laws: "tt_laws demo_tt (description_fields (\<lambda>_. ''127.0.0.1''))"
  unfolding demo_tt_def by (rule list_tt_laws)

definition demo_transport :: "(nat, unit) webrtc_direct_transport" where
  "demo_transport = \<lparr>tr_config = [3], tr_udp_mux = 0, tr_udp_mux_addr = SockV4 0 9000, tr_new_addr_rx = (),
     tr_id_keys = 0\<rparr>"

definition demo_server :: "nat protocol list" where
  "demo_server = [Ip4 0x7F000001, Udp 9000, XWebRTC (toy_fingerprint 17), P2p 42]"

definition demo_client :: "nat protocol list" where
  "demo_client = [Ip4 0x7F000001, Udp 9001, XWebRTC (toy_fingerprint 17)]"

definition demo_fp_world :: "nat \<Rightarrow> dworld" where
  "demo_fp_world c = dw_init\<lparr>dw_inbox := into_bytes (fingerprint_to_string (toy_fingerprint c))\<rparr>"

lemma length_toy_fingerprint [simp]: "length (fingerprint_to_string (toy_fingerprint c)) = 95"
  by (subst length_fingerprint_to_string) (simp_all add: toy_fingerprint_def)

lemma demo_render:
  "render_description demo_tt SERVER_SESSION_DESCRIPTION a (fingerprint_to_string f) =
    Returns (server_sdp_text (\<lambda>_. ''127.0.0.1'') (description_context_of a (fingerprint_to_string f)))"
  "render_description demo_tt CLIENT_SESSION_DESCRIPTION a (fingerprint_to_string f) =
    Returns (client_sdp_text (\<lambda>_. ''127.0.0.1'') (description_context_of a (fingerprint_to_string f)))"
  by (rule render_server [OF demo_tt_laws] render_client [OF demo_tt_laws], simp add: html_safe_def)+

lemma demo_exchange:
  "exchange_fingerprints toy_rtc io (fingerprint_to_string (toy_fingerprint c)) (fingerprint_to_string (toy_fingerprint e))
     k (demo_fp_world s) =
   (if fingerprint_to_string (toy_fingerprint s) = fingerprint_to_string (toy_fingerprint e) then k (dw_init)
    else (Returns (Err (InvalidFingerprint (fingerprint_to_string (toy_fingerprint e))
      (fingerprint_to_string (toy_fingerprint s)))), dw_init))"
  by (simp add: exchange_fingerprints_def world_simps toy_rtc_def demo_fp_world_def dw_init_def
      from_utf8_into_bytes fingerprint_ascii)

lemma demo_noise:
  "noise_handshake toy_rtc toy_dc (noise_upgrade_outbound toy_rtc) id_keys detached k w = k 42 10 w"
  "noise_handshake toy_rtc toy_dc (noise_upgrade_inbound toy_rtc) id_keys detached k w = k 42 10 w"
  by (simp_all add: noise_handshake_def world_simps toy_rtc_def toy_dc_def pdc_new_def)

lemma demo_channel:
  "open_initial_channel toy_rtc pc ini k (demo_fp_world s) = k 6 (demo_fp_world s)"
  by (simp add: open_initial_channel_def world_simps toy_rtc_def demo_fp_world_def dw_init_def
      register_data_channel_open_handler_def)

lemma demo_dial:
  "do_dial toy_rtc toy_dc list_mpsc list_ma demo_tt demo_transport demo_server (demo_fp_world s) =
   (if fingerprint_to_string (toy_fingerprint s) = fingerprint_to_string (toy_fingerprint 17)
    then (Returns (Ok (42, fst (connection_new toy_rtc list_mpsc 1 dw_init))), dw_init)
    else (Returns (Err (InvalidFingerprint (fingerprint_to_string (toy_fingerprint 17))
      (fingerprint_to_string (toy_fingerprint s)))), dw_init))"
  by (simp add: do_dial_def multiaddr_to_socketaddr_def fingerprint_from_addr_def list_ma_def demo_server_def
      demo_transport_def cert_fingerprint_def fingerprint_of_first_certificate_def demo_render demo_noise
      demo_channel demo_exchange world_simps connection_new_def toy_rtc_sel)

lemma demo_upgrade:
  "webrtc toy_rtc toy_dc list_mpsc list_ma demo_tt 0 [3] demo_client 0 (demo_fp_world s) =
   (if fingerprint_to_string (toy_fingerprint s) = fingerprint_to_string (toy_fingerprint 17)
    then (Returns (Ok (42, fst (connection_new toy_rtc list_mpsc 1 dw_init))), dw_init)
    else (Returns (Err (InvalidFingerprint (fingerprint_to_string (toy_fingerprint 17))
      (fingerprint_to_string (toy_fingerprint s)))), dw_init))"
  by (simp add: webrtc_def multiaddr_to_socketaddr_def list_ma_def demo_client_def
      fingerprint_of_first_certificate_def demo_render demo_noise
      demo_channel demo_exchange world_simps connection_new_def toy_rtc_sel)

lemma dial_authenticates_peer_witness:
  "\<exists>f our detached u u'. fingerprint_from_addr list_ma demo_server = Some f \<and>
     authenticated toy_rtc toy_dc (noise_upgrade_outbound toy_rtc) 0 detached our (fingerprint_to_string f) u 42 u'"
proof -
  have "do_dial toy_rtc toy_dc list_mpsc list_ma demo_tt demo_transport demo_server (demo_fp_world 17) =
    (Returns (Ok (42, fst (connection_new toy_rtc list_mpsc 1 dw_init))), dw_init)"
    by (simp add: demo_dial)
  from dial_authenticates_peer [OF this] show ?thesis by (simp add: demo_transport_def) blast
qed

text \<open>C2: An incoming connection is accepted only after the same exchange: the address it was reported under
  ends in a fingerprint, the noise handshake authenticated an identity key whose peer id is returned, and what
  came back over the noise stream is exactly the text of that fingerprint. Unlike the dialer, the listener has
  no peer id to compare with.\<close>

theorem upgrade_authenticates_peer:
  assumes "webrtc A D C M T udp_mux config addr id_keys w = (Returns (Ok (peer_id, conn)), w')"
  shows "\<exists>socket_addr ps f our pc dc detached u0 u u'. multiaddr_to_socketaddr M addr = Some socket_addr \<and>
    ma_iter M addr = ps @ [XWebRTC f] \<and>
    fingerprint_of_first_certificate (rtc_get_fingerprints A) config = Returns our \<and>
    rtc_await_rx_or_timer A dc 10 u0 = (Some (HandlerRan (Ok detached)), u) \<and>
    authenticated A D (noise_upgrade_inbound A) id_keys detached our (fingerprint_to_string f) u peer_id u' \<and>
    connection_new A C pc u' = (conn, w')"
proof -
  from assms obtain sa our f pc v detached dc u0 u where
    sa: "multiaddr_to_socketaddr M addr = Some sa"
    and our: "fingerprint_of_first_certificate (rtc_get_fingerprints A) config = Returns our"
    and f: "ma_iter M addr \<noteq> []" "last (ma_iter M addr) = XWebRTC f"
    and dc: "rtc_await_rx_or_timer A dc 10 u0 = (Some (HandlerRan (Ok detached)), u)"
    and rest: "noise_handshake A D (noise_upgrade_inbound A) id_keys detached (\<lambda>peer_id noise_io.
      exchange_fingerprints A noise_io our (fingerprint_to_string f) (
      await (connection_new A C pc) (\<lambda>conn. return_ok (peer_id, conn)))) u = (Returns (Ok (peer_id, conn)), w')"
    unfolding webrtc_def Let_def
    by (auto elim!: async_okE open_initial_channel_ok split: option.splits if_splits result.splits protocol.splits)
  from rest show ?thesis
  proof (rule handshake_authenticated)
    fix pid v
    assume auth: "authenticated A D (noise_upgrade_inbound A) id_keys detached our (fingerprint_to_string f) u pid v"
      and "await (connection_new A C pc) (\<lambda>conn. return_ok (pid, conn)) v = (Returns (Ok (peer_id, conn)), w')"
    then have "pid = peer_id" "connection_new A C pc v = (conn, w')" by (auto elim!: async_okE)
    moreover have "ma_iter M addr = butlast (ma_iter M addr) @ [XWebRTC f]"
      using f by (metis append_butlast_last_id)
    ultimately show ?thesis using auth sa our dc by blast
  qed
qed

lemma upgrade_authenticates_peer_witness:
  "\<exists>f our detached u u'. last demo_client = XWebRTC f \<and>
     authenticated toy_rtc toy_dc (noise_upgrade_inbound toy_rtc) 0 detached our (fingerprint_to_string f) u 42 u'"
proof -
  have "webrtc toy_rtc toy_dc list_mpsc list_ma demo_tt 0 [3] demo_client 0 (demo_fp_world 17) =
    (Returns (Ok (42, fst (connection_new toy_rtc list_mpsc 1 dw_init))), dw_init)"
    by (simp add: demo_upgrade)
  from upgrade_authenticates_peer [OF this] show ?thesis
    by (auto simp: demo_client_def list_ma_def)
qed

text \<open>The addresses \<open>do_dial\<close> goes on with.\<close>

definition dialable :: "('ma, 'h) multiaddr_api \<Rightarrow> 'ma \<Rightarrow> bool" where
  "dialable M addr \<longleftrightarrow>
     (case multiaddr_to_socketaddr M addr of
        None \<Rightarrow> False
      | Some a \<Rightarrow> sock_port a \<noteq> 0 \<and> \<not> ip_is_unspecified (sock_ip a))"

lemma dialableE:
  assumes "dialable M addr"
  obtains sa f where "multiaddr_to_socketaddr M addr = Some sa" and "sock_port sa \<noteq> 0"
    and "\<not> ip_is_unspecified (sock_ip sa)" and "fingerprint_from_addr M addr = Some f"
  using assms fingerprint_from_addr_Some by (fastforce simp: dialable_def split: option.splits)

definition not_address_error :: "('a, ('ma, 'pid, 'x) error) result outcome \<Rightarrow> bool" where
  "not_address_error r \<longleftrightarrow> (\<forall>a. r \<noteq> Returns (Err (InvalidMultiaddr a)))"

lemma ensures_open_initial_channel [ensures_intros]:
  assumes "\<And>e. Q (Returns (Err (WebRTC e)))" and "\<And>s. Q (Returns (Err (InternalError s)))"
    and "\<And>d. ensures Q (k d)"
  shows "ensures Q (open_initial_channel A pc ini k)"
  unfolding open_initial_channel_def
  by (intro ensures_intros) (use assms in \<open>auto intro!: ensures_intros split: option.splits result.splits\<close>)

lemma ensures_noise_handshake [ensures_intros]:
  assumes "(\<forall>msg. Q (Panics msg)) \<or>
      (\<forall>k w. \<exists>dh. fst (noise_authentic_keys A k w) = Ok dh) \<and> (\<forall>n. noise_protocol_info A n \<noteq> [])"
    and "\<And>e. Q (Returns (Err (Noise e)))" and "\<And>p io. ensures Q (k p io)"
  shows "ensures Q (noise_handshake A D upgrade id_keys detached k)"
  unfolding noise_handshake_def Let_def
  by (intro ensures_intros)
     (use assms in \<open>auto intro!: ensures_intros split: list.splits remote_identity.splits\<close>)

lemma ensures_exchange [ensures_intros]:
  assumes "\<And>e. Q (Returns (Err (IoError e)))" and "\<And>e. Q (Returns (Err (Noise e)))"
    and "\<And>s. Q (Returns (Err (InvalidFingerprint remote s)))" and "ensures Q k"
  shows "ensures Q (exchange_fingerprints A io our remote k)"
  unfolding exchange_fingerprints_def
  by (intro ensures_intros) (use assms in \<open>auto intro!: ensures_intros split: result.splits\<close>)

text \<open>C32: The dialer's address check, on every branch: an address that is not of the supported form, or that
  names port 0 or the unspecified IP address, is refused with \<open>InvalidMultiaddr\<close> before any external call is
  made; for every other address dialing never fails with that error, whatever the peer and the network do.\<close>

theorem dial_address_errors:
  "(if dialable M addr then \<forall>a. fst (do_dial A D C M T self addr w) \<noteq> Returns (Err (InvalidMultiaddr a))
    else do_dial A D C M T self addr w = (Returns (Err (InvalidMultiaddr addr)), w))"
proof (cases "dialable M addr")
  case True
  then obtain sa f where sa: "multiaddr_to_socketaddr M addr = Some sa" "sock_port sa \<noteq> 0"
    "\<not> ip_is_unspecified (sock_ip sa)" "fingerprint_from_addr M addr = Some f"
    by (rule dialableE)
  have "ensures not_address_error (do_dial A D C M T self addr)"
    unfolding do_dial_def Let_def
    by (simp add: sa) (intro ensures_intros; simp add: not_address_error_def ensures_intros)
  with True show ?thesis by (simp add: ensures_def not_address_error_def)
next
  case False
  then show ?thesis by (auto simp: do_dial_def dialable_def return_err_def split: option.splits)
qed

lemma webrtc_address_ok:
  assumes "multiaddr_to_socketaddr M addr = Some sa" and "last (ma_iter M addr) = XWebRTC f"
  shows "ensures not_address_error (webrtc A D C M T udp_mux config addr id_keys)"
proof -
  from assms(1) have "ma_iter M addr \<noteq> []" by (auto simp: multiaddr_to_socketaddr_Some)
  with assms show ?thesis
    unfolding webrtc_def Let_def
    by (cases "rtc_set_answering_dtls_role A DTLSServer"; simp)
       (intro ensures_intros; simp add: not_address_error_def ensures_intros)+
qed

text \<open>The listener's address check: an address that is not of the supported form is refused with
  \<open>InvalidMultiaddr\<close> before any external call; one whose last component is not the fingerprint (a trailing peer
  id, say) is never accepted; for every other address the upgrade never fails with that error.\<close>

theorem upgrade_address_errors:
  "(case multiaddr_to_socketaddr M addr of
      None \<Rightarrow> webrtc A D C M T udp_mux config addr id_keys w = (Returns (Err (InvalidMultiaddr addr)), w)
    | Some sa \<Rightarrow>
        (case last (ma_iter M addr) of
           XWebRTC f \<Rightarrow> \<forall>a. fst (webrtc A D C M T udp_mux config addr id_keys w) \<noteq> Returns (Err (InvalidMultiaddr a))
         | _ \<Rightarrow> \<forall>r. fst (webrtc A D C M T udp_mux config addr id_keys w) \<noteq> Returns (Ok r)))"
proof (cases "multiaddr_to_socketaddr M addr")
  case None
  then show ?thesis by (simp add: webrtc_def return_err_def)
next
  case (Some sa)
  then have ne: "ma_iter M addr \<noteq> []" by (auto simp: multiaddr_to_socketaddr_Some)
  show ?thesis
  proof (cases "\<exists>f. last (ma_iter M addr) = XWebRTC f")
    case True
    then obtain f where f: "last (ma_iter M addr) = XWebRTC f" by blast
    from webrtc_address_ok [OF Some f]
    have "ensures not_address_error (webrtc A D C M T udp_mux config addr id_keys)" .
    with Some f show ?thesis by (simp add: ensures_def not_address_error_def)
  next
    case False
    have "ensures (\<lambda>r. \<forall>a. r \<noteq> Returns (Ok a)) (webrtc A D C M T udp_mux config addr id_keys)"
      unfolding webrtc_def Let_def
      by (cases "rtc_set_answering_dtls_role A DTLSServer"; simp add: Some ne)
         (intro ensures_intros; use False in \<open>auto intro!: ensures_intros split: protocol.splits\<close>)+
    with Some False show ?thesis by (auto simp: ensures_def split: protocol.splits)
  qed
qed



text \<open>A peer that presents another fingerprint is refused: when the handshake reaches the exchange and the
  bytes read are the text of a different fingerprint than the one in the address, the result is
  \<open>InvalidFingerprint\<close> with the expected and the received text; bytes that are no text at all fail the
  authentication; and a write that was cut short can never end in success.\<close>

theorem exchange_refuses_mismatch:
  assumes "noise_io_laws A" and "nio_write A io (into_bytes our) w = (Ok n, w1)" and "nio_flush A io w1 = (Ok (), w2)"
    and "nio_read_exact A io n w2 = (Ok buf, w3)"
  shows "exchange_fingerprints A io our (fingerprint_to_string f) k w =
    (if buf = into_bytes (fingerprint_to_string f) then k w3
     else case from_utf8 buf of
       Ok got \<Rightarrow> (Returns (Err (InvalidFingerprint (fingerprint_to_string f) got)), w3)
     | Err _ \<Rightarrow> (Returns (Err (Noise (noise_authentication_failed A))), w3)) \<and>
    (n < length (fingerprint_to_string f) \<longrightarrow> buf \<noteq> into_bytes (fingerprint_to_string f))"
proof -
  have "length buf = n" using nio_read_exact_length [OF assms(1,4)] .
  with assms(2-) from_utf8_into_bytes [OF fingerprint_ascii, of f] show ?thesis
    by (auto simp: exchange_fingerprints_def world_simps split: result.splits dest: into_bytes_from_utf8)
qed

lemma exchange_refuses_mismatch_witness:
  "exchange_fingerprints toy_rtc 10 ''ab'' (fingerprint_to_string [0xCD]) (return_ok ())
     (dw_init\<lparr>dw_inbox := into_bytes ''ce''\<rparr>) =
   (Returns (Err (InvalidFingerprint (fingerprint_to_string [0xCD]) ''ce'')), dw_init)"
proof -
  have utf: "from_utf8 (into_bytes ''ce'') = Ok ''ce''" by (rule from_utf8_into_bytes) (simp add: is_ascii_def)
  have fp: "fingerprint_to_string [0xCD] = ''cd''"
    by code_simp
  have ne: "into_bytes ''ce'' \<noteq> into_bytes ''cd''"
    using utf from_utf8_into_bytes [of "''cd''"] by (auto simp: is_ascii_def)
  let ?w = "dw_init\<lparr>dw_inbox := into_bytes ''ce''\<rparr>"
  have "nio_write toy_rtc 10 (into_bytes ''ab'') ?w = (Ok 2, ?w)" "nio_flush toy_rtc 10 ?w = (Ok (), ?w)"
    "nio_read_exact toy_rtc 10 2 ?w = (Ok (into_bytes ''ce''), dw_init)"
    by (simp_all add: toy_rtc_def dw_init_def)
  from exchange_refuses_mismatch [OF toy_rtc_laws this, of "[0xCD]" "return_ok ()"] ne utf
  show ?thesis unfolding fp by simp
qed

end
