(* ===== verification/Listener.thy ===== *)
theory Listener
  imports Handshake
begin

text \<open>
  \<open>WebRTCListenStream\<close> of \<open>src/transport.rs\<close>: the stream of listener events. It watches the network interfaces
  when it listens on the wildcard address, reports a single address once otherwise, and turns the addresses
  the UDP mux reports into upgrades.
\<close>

section \<open>Network interfaces and timers\<close>

text \<open>
  The packages \<open>if_watch\<close> and \<open>futures_timer\<close>: futures, watchers and delays are opaque handles \<open>'o\<close>. An interface
  event carries the address \<open>inet.addr()\<close>. The last field of the interface is used by the laws only: how many
  interface events a watcher has ready.
\<close>

datatype if_event = Up ip_addr | Down ip_addr

record ('o, 'w) if_watch_api =
  ifw_new :: "('w, 'o) world_call"
  ifw_poll_new :: "'o \<Rightarrow> ('w, ('o, io_error) result poll) world_call"
  ifw_poll :: "'o \<Rightarrow> ('w, (if_event, io_error) result poll) world_call"
  delay_new :: "nat \<Rightarrow> ('w, 'o) world_call"
  delay_poll :: "'o \<Rightarrow> ('w, unit poll) world_call"
  ifw_backlog :: "'o \<Rightarrow> 'w \<Rightarrow> nat"

text \<open>A watcher that is ready delivers one of the finitely many events it has received.\<close>

definition if_watch_laws :: "('o, 'w) if_watch_api \<Rightarrow> bool" where
  "if_watch_laws L \<longleftrightarrow>
     (\<forall>c w r w'. ifw_poll L c w = (Ready r, w') \<longrightarrow> ifw_backlog L c w' < ifw_backlog L c w)"

section \<open>State\<close>

datatype 'o if_watch = IfPending 'o | IfReady 'o

datatype ('ma, 'o) in_addr = One "'ma option" | Any "'o if_watch"

text \<open>
  The receiver \<open>new_addr_rx\<close> is shared by the transport and all its streams. The field is the shared pointer;
  the queue behind it is an argument and a result of \<open>poll_next\<close>.
\<close>

record ('ma, 'o, 'r) listen_stream =
  ls_listen_addr :: socket_addr
  ls_in_addr :: "('ma, 'o) in_addr"
  ls_sleep_on_error :: nat
  ls_pause :: "'o option"
  ls_config :: "'o rtc_config"
  ls_udp_mux :: 'o
  ls_new_addr_rx :: 'r
  ls_id_keys :: 'o

datatype ('ma, 'up, 'e) listener_event =
  NewAddress 'ma
| AddressExpired 'ma
| Upgrade 'ma 'ma 'up
| ListenerError 'e

definition listen_stream_new ::
  "('ma, 'h) multiaddr_api \<Rightarrow> ('o, 'w) if_watch_api \<Rightarrow> socket_addr \<Rightarrow> 'o rtc_config \<Rightarrow> 'o \<Rightarrow> 'r \<Rightarrow> 'o \<Rightarrow>
   ('w, ('ma, 'o, 'r) listen_stream) world_call" where
  "listen_stream_new M L listen_addr config udp_mux new_addr_rx id_keys w =
     (let unspecified = (case listen_addr of SockV4 a _ \<Rightarrow> a = 0 | SockV6 a _ _ _ \<Rightarrow> a = 0);
          (in_addr, w') =
            (if unspecified then (case ifw_new L w of (f, w') \<Rightarrow> (Any (IfPending f), w'))
             else (One (Some (ip_to_multiaddr M (sock_ip listen_addr) (sock_port listen_addr))), w))
      in (\<lparr>ls_listen_addr = listen_addr, ls_in_addr = in_addr, ls_sleep_on_error = 100, ls_pause = None,
           ls_config = config, ls_udp_mux = udp_mux, ls_new_addr_rx = new_addr_rx, ls_id_keys = id_keys\<rparr>, w'))"

section \<open>Polling\<close>

text \<open>The test both interface branches make.\<close>

definition same_family :: "socket_addr \<Rightarrow> ip_addr \<Rightarrow> bool" where
  "same_family a ip \<longleftrightarrow> sock_is_ipv4 a = ip_is_ipv4 ip \<or> sock_is_ipv6 a = ip_is_ipv6 ip"

text \<open>
  The \<open>while let\<close> loop over a watcher that is ready. It returns the event to report, if any, and \<open>Inr ()\<close> once
  the watcher is pending. It need not end if the watcher is always ready: then the value is \<open>None\<close>.
\<close>

partial_function (option) drain_interfaces ::
  "('o, 'w) if_watch_api \<Rightarrow> socket_addr \<Rightarrow> 'o \<Rightarrow> 'w \<Rightarrow> (((if_event, io_error) result + unit) \<times> 'w) option" where
  "drain_interfaces L listen_addr watch w =
     (case ifw_poll L watch w of
        (Pending, w') \<Rightarrow> Some (Inr (), w')
      | (Ready (Ok (Up ip)), w') \<Rightarrow>
          if same_family listen_addr ip then Some (Inl (Ok (Up ip)), w') else drain_interfaces L listen_addr watch w'
      | (Ready (Ok (Down ip)), w') \<Rightarrow>
          if same_family listen_addr ip then Some (Inl (Ok (Down ip)), w') else drain_interfaces L listen_addr watch w'
      | (Ready (Err e), w') \<Rightarrow> Some (Inl (Err e), w'))"

type_synonym ('ma, 'pid, 'o, 'x, 'iq, 'w) upgrade_future =
  "('w, 'pid \<times> ('o, 'iq) connection, ('ma, 'pid, 'x) error) async_fn"

type_synonym ('ma, 'pid, 'o, 'x, 'iq, 'w) listen_item =
  "(('ma, ('ma, 'pid, 'o, 'x, 'iq, 'w) upgrade_future, ('ma, 'pid, 'x) error) listener_event,
    ('ma, 'pid, 'x) error) result option poll"

text \<open>The end of the loop body: wait out the pause, then take the next reported address.\<close>

definition poll_new_addr ::
  "('ma, 'pid, 'o, 'x, 'w) rtc_api \<Rightarrow> ('o, 'w) data_channel_api \<Rightarrow> ('o, 'iq) mpsc_api \<Rightarrow>
   ('ma, 'h) multiaddr_api \<Rightarrow> ('tt, description_context, 'te) tt_api \<Rightarrow> ('ma, 'q) mpsc_api \<Rightarrow>
   ('ma, 'o, 'r) listen_stream \<Rightarrow> 'q \<Rightarrow> ('ma, 'pid, 'o, 'x, 'iq, 'w) listen_item \<times> 'q" where
  "poll_new_addr A D C M T N ls q =
     (case mpsc_poll_next N q of
        (Ready (Some addr), q') \<Rightarrow>
          (Ready (Some (Ok (Upgrade
             (ip_to_multiaddr M (sock_ip (ls_listen_addr ls)) (sock_port (ls_listen_addr ls)))
             addr
             (webrtc A D C M T (ls_udp_mux ls) (ls_config ls) addr (ls_id_keys ls))))), q')
      | (Ready None, q') \<Rightarrow> (Ready None, q')
      | (Pending, q') \<Rightarrow> (Pending, q'))"

definition poll_tail ::
  "('ma, 'pid, 'o, 'x, 'w) rtc_api \<Rightarrow> ('o, 'w) data_channel_api \<Rightarrow> ('o, 'iq) mpsc_api \<Rightarrow>
   ('ma, 'h) multiaddr_api \<Rightarrow> ('tt, description_context, 'te) tt_api \<Rightarrow> ('ma, 'q) mpsc_api \<Rightarrow>
   ('o, 'w) if_watch_api \<Rightarrow> ('ma, 'o, 'r) listen_stream \<Rightarrow> 'q \<Rightarrow> 'w \<Rightarrow>
   ('ma, 'pid, 'o, 'x, 'iq, 'w) listen_item \<times> ('ma, 'o, 'r) listen_stream \<times> 'q \<times> 'w" where
  "poll_tail A D C M T N L ls q w =
     (let ls0 = ls\<lparr>ls_pause := None\<rparr> in
      case ls_pause ls of
        Some pause \<Rightarrow>
          (case delay_poll L pause w of
             (Pending, w') \<Rightarrow> (Pending, ls0\<lparr>ls_pause := Some pause\<rparr>, q, w')
           | (Ready _, w') \<Rightarrow> (case poll_new_addr A D C M T N ls0 q of (r, q') \<Rightarrow> (r, ls0, q', w')))
      | None \<Rightarrow> (case poll_new_addr A D C M T N ls0 q of (r, q') \<Rightarrow> (r, ls0, q', w)))"

partial_function (option) poll_next ::
  "('ma, 'pid, 'o, 'x, 'w) rtc_api \<Rightarrow> ('o, 'w) data_channel_api \<Rightarrow> ('o, 'iq) mpsc_api \<Rightarrow>
   ('ma, 'h) multiaddr_api \<Rightarrow> ('tt, description_context, 'te) tt_api \<Rightarrow> ('ma, 'q) mpsc_api \<Rightarrow>
   ('o, 'w) if_watch_api \<Rightarrow> ('ma, 'o, 'r) listen_stream \<Rightarrow> 'q \<Rightarrow> 'w \<Rightarrow>
   (('ma, 'pid, 'o, 'x, 'iq, 'w) listen_item \<times> ('ma, 'o, 'r) listen_stream \<times> 'q \<times> 'w) option" where
  "poll_next A D C M T N L ls q w =
     (case ls_in_addr ls of
        Any if_watch \<Rightarrow>
          (case if_watch of
             IfPending f \<Rightarrow>
               (case ifw_poll_new L f w of
                  (Pending, w') \<Rightarrow> Some (Pending, ls, q, w')
                | (Ready (Ok watch), w') \<Rightarrow>
                    poll_next A D C M T N L (ls\<lparr>ls_in_addr := Any (IfReady watch)\<rparr>) q w'
                | (Ready (Err err), w') \<Rightarrow>
                    (case ifw_new L w' of (f', w1) \<Rightarrow>
                     case delay_new L (ls_sleep_on_error ls) w1 of (pause, w2) \<Rightarrow>
                       Some (Ready (Some (Ok (ListenerError (IoError err)))),
                         ls\<lparr>ls_in_addr := Any (IfPending f'), ls_pause := Some pause\<rparr>, q, w2)))
           | IfReady watch \<Rightarrow>
               (case drain_interfaces L (ls_listen_addr ls) watch w of
                  None \<Rightarrow> None
                | Some (Inl (Ok (Up ip)), w') \<Rightarrow>
                    Some (Ready (Some (Ok (NewAddress (ip_to_multiaddr M ip (sock_port (ls_listen_addr ls)))))), ls, q, w')
                | Some (Inl (Ok (Down ip)), w') \<Rightarrow>
                    Some (Ready (Some (Ok (AddressExpired (ip_to_multiaddr M ip (sock_port (ls_listen_addr ls)))))), ls, q, w')
                | Some (Inl (Err err), w') \<Rightarrow>
                    (case delay_new L (ls_sleep_on_error ls) w' of (pause, w1) \<Rightarrow>
                       Some (Ready (Some (Ok (ListenerError (IoError err)))), ls\<lparr>ls_pause := Some pause\<rparr>, q, w1))
                | Some (Inr _, w') \<Rightarrow> Some (poll_tail A D C M T N L ls q w')))
      | One out \<Rightarrow>
          (case out of
             Some multiaddr \<Rightarrow> Some (Ready (Some (Ok (NewAddress multiaddr))), ls\<lparr>ls_in_addr := One None\<rparr>, q, w)
           | None \<Rightarrow> Some (poll_tail A D C M T N L ls q w)))"

section \<open>Facts\<close>

lemma same_family_iff: "same_family a ip \<longleftrightarrow> ip_is_ipv4 (sock_ip a) = ip_is_ipv4 ip"
  by (auto simp: same_family_def sock_is_ipv4_def sock_is_ipv6_def ip_is_ipv6_def)

lemma drain_total:
  assumes "if_watch_laws L"
  shows "\<exists>r. drain_interfaces L la watch w = Some r"
proof (induction w rule: measure_induct_rule [of "ifw_backlog L watch"])
  case (less w)
  have "\<exists>r. drain_interfaces L la watch w' = Some r" if "ifw_poll L watch w = (Ready x, w')" for x w'
    using assms that less.IH unfolding if_watch_laws_def by blast
  then show ?case
    by (subst drain_interfaces.simps)
       (auto split: prod.splits poll.splits result.splits if_event.splits)
qed

text \<open>An interface event that the loop returns is of the listener's address family.\<close>

fun event_ip :: "if_event \<Rightarrow> ip_addr" where
  "event_ip (Up ip) = ip"
| "event_ip (Down ip) = ip"

lemma drain_result:
  "drain_interfaces L la watch w = Some y \<Longrightarrow> \<forall>ev v. y = (Inl (Ok ev), v) \<longrightarrow> same_family la (event_ip ev)"
  by (erule drain_interfaces.raw_induct [rotated])
     (auto split: prod.splits poll.splits result.splits if_event.splits if_splits)

lemma drain_family: "drain_interfaces L la watch w = Some (Inl (Ok ev), w') \<Longrightarrow> same_family la (event_ip ev)"
  using drain_result by fastforce

lemma poll_next_One [simp]:
  "ls_in_addr ls = One (Some a) \<Longrightarrow>
     poll_next A D C M T N L ls q w = Some (Ready (Some (Ok (NewAddress a))), ls\<lparr>ls_in_addr := One None\<rparr>, q, w)"
  "ls_in_addr ls = One None \<Longrightarrow> poll_next A D C M T N L ls q w = Some (poll_tail A D C M T N L ls q w)"
  by (subst poll_next.simps, simp)+

lemma poll_next_IfPending:
  "ls_in_addr ls = Any (IfPending f) \<Longrightarrow>
     poll_next A D C M T N L ls q w =
       (case ifw_poll_new L f w of
          (Pending, w') \<Rightarrow> Some (Pending, ls, q, w')
        | (Ready (Ok watch), w') \<Rightarrow> poll_next A D C M T N L (ls\<lparr>ls_in_addr := Any (IfReady watch)\<rparr>) q w'
        | (Ready (Err err), w') \<Rightarrow>
            (case ifw_new L w' of (f', w1) \<Rightarrow>
             case delay_new L (ls_sleep_on_error ls) w1 of (pause, w2) \<Rightarrow>
               Some (Ready (Some (Ok (ListenerError (IoError err)))),
                 ls\<lparr>ls_in_addr := Any (IfPending f'), ls_pause := Some pause\<rparr>, q, w2)))"
  by (subst poll_next.simps) simp

lemma in_addr_cases:
  obtains (single) a where "ia = One (Some a)" | (reported) "ia = One None"
    | (ready) watch where "ia = Any (IfReady watch)" | (pending) f where "ia = Any (IfPending f)"
proof (cases ia)
  case (One out)
  then show ?thesis using single reported by (cases out) simp_all
next
  case (Any wt)
  then show ?thesis using ready pending by (cases wt) simp_all
qed

lemma poll_next_total:
  assumes "if_watch_laws L"
  shows "\<exists>r. poll_next A D C M T N L ls q w = Some r"
proof -
  have ready: "\<exists>r. poll_next A D C M T N L s q v = Some r" if "ls_in_addr s = Any (IfReady watch)" for s watch v
    using drain_total [OF assms, of "ls_listen_addr s" watch v] that
    by (subst poll_next.simps) (auto split: sum.splits result.splits if_event.splits prod.splits, metis surj_pair)
  show ?thesis
  proof (cases "ls_in_addr ls" rule: in_addr_cases)
    case pending
    show ?thesis
      unfolding poll_next_IfPending [OF pending]
      using ready [of "ls\<lparr>ls_in_addr := Any (IfReady watch)\<rparr>" watch for watch]
      by (auto split: prod.splits poll.splits result.splits)
  next
    case reported
    then show ?thesis by simp (metis surj_pair)
  qed (use ready in auto)
qed

text \<open>The kinds of items the tail of the loop produces.\<close>

definition from_mux ::
  "('ma, 'pid, 'o, 'x, 'iq, 'w) listen_item \<Rightarrow> bool" where
  "from_mux r \<longleftrightarrow> (case r of
     Ready (Some (Ok (Upgrade l a u))) \<Rightarrow> True | Ready None \<Rightarrow> True | Pending \<Rightarrow> True | _ \<Rightarrow> False)"

lemma poll_tail_from_mux: "poll_tail A D C M T N L ls q w = (r, ls', q', w') \<Longrightarrow> from_mux r \<and> ls_in_addr ls' = ls_in_addr ls"
  by (auto simp: poll_tail_def poll_new_addr_def from_mux_def Let_def
      split: option.splits prod.splits poll.splits)

text \<open>
  Polling the stream again and again, with anything happening to the queue and the outside world in
  between.
\<close>

inductive listen_step ::
  "('ma, 'pid, 'o, 'x, 'w) rtc_api \<Rightarrow> ('o, 'w) data_channel_api \<Rightarrow> ('o, 'iq) mpsc_api \<Rightarrow>
   ('ma, 'h) multiaddr_api \<Rightarrow> ('tt, description_context, 'te) tt_api \<Rightarrow> ('ma, 'q) mpsc_api \<Rightarrow>
   ('o, 'w) if_watch_api \<Rightarrow> ('ma, 'o, 'r) listen_stream \<Rightarrow> ('ma, 'pid, 'o, 'x, 'iq, 'w) listen_item \<Rightarrow>
   ('ma, 'o, 'r) listen_stream \<Rightarrow> bool"
  for A D C M T N L where
  polled: "poll_next A D C M T N L ls q w = Some (r, ls', q', w') \<Longrightarrow> listen_step A D C M T N L ls r ls'"

inductive_cases listen_stepE: "listen_step A D C M T N L ls r ls'"

definition reported_once :: "('ma, 'o, 'r) listen_stream \<Rightarrow> bool" where
  "reported_once ls \<longleftrightarrow> ls_in_addr ls = One None"

interpretation single_address: step_invariant "listen_step A D C M T N L" reported_once
  for A :: "('ma, 'pid, 'o, 'x, 'w) rtc_api" and D and C :: "('o, 'iq) mpsc_api" and M :: "('ma, 'h) multiaddr_api"
    and T :: "('tt, description_context, 'te) tt_api" and N :: "('ma, 'q) mpsc_api" and L
  by unfold_locales (auto simp: reported_once_def elim!: listen_stepE, metis poll_tail_from_mux)

lemma reported_once_items:
  assumes "run (listen_step A D C M T N L) ls rs ls'" and "reported_once ls" and "r \<in> set rs"
  shows "from_mux r"
  using assms
proof (induction rule: run.induct)
  case (run_cons s l t ls u)
  have "from_mux l" using run_cons(1,4) by (auto simp: reported_once_def elim!: listen_stepE dest: poll_tail_from_mux)
  with run_cons single_address.invar_step [OF run_cons(1)] show ?case by auto
qed simp

lemma poll_tail_upgrade:
  assumes "mpsc_laws N" and "poll_tail A D C M T N L ls q w = (r, ls', q', w')"
  shows "(case r of
      Ready (Some (Ok (Upgrade l a u))) \<Rightarrow> mpsc_queued N q = a # mpsc_queued N q' \<and>
        l = ip_to_multiaddr M (sock_ip (ls_listen_addr ls)) (sock_port (ls_listen_addr ls)) \<and>
        u = webrtc A D C M T (ls_udp_mux ls) (ls_config ls) a (ls_id_keys ls) \<and> ls_pause ls' = None
    | Ready None \<Rightarrow> mpsc_queued N q = [] \<and> mpsc_closed N q
    | _ \<Rightarrow> mpsc_queued N q' = mpsc_queued N q)"
proof -
  obtain p v where p: "mpsc_poll_next N q = (p, v)" by fastforce
  with mpsc_poll_next_spec [OF assms(1), of q] have
    "p = (case mpsc_queued N q of x # xs \<Rightarrow> Ready (Some x) | [] \<Rightarrow> if mpsc_closed N q then Ready None else Pending)"
    "mpsc_queued N v = tl (mpsc_queued N q)" by simp_all
  with p assms(2) show ?thesis
    by (auto simp: poll_tail_def poll_new_addr_def Let_def
        split: option.splits prod.splits poll.splits list.splits if_splits)
qed

text \<open>
  The ways a poll can end. The loop takes a new watcher into use at most once; then an interface event of the
  right family, an error, or the tail of the loop ends it.
\<close>

inductive item_origin ::
  "('ma, 'pid, 'o, 'x, 'w) rtc_api \<Rightarrow> ('o, 'w) data_channel_api \<Rightarrow> ('o, 'iq) mpsc_api \<Rightarrow>
   ('ma, 'h) multiaddr_api \<Rightarrow> ('tt, description_context, 'te) tt_api \<Rightarrow> ('ma, 'q) mpsc_api \<Rightarrow>
   ('o, 'w) if_watch_api \<Rightarrow> ('ma, 'o, 'r) listen_stream \<Rightarrow> 'q \<Rightarrow>
   ('ma, 'pid, 'o, 'x, 'iq, 'w) listen_item \<Rightarrow> ('ma, 'o, 'r) listen_stream \<Rightarrow> 'q \<Rightarrow> bool"
  for A D C M T N L where
  from_tail: "poll_tail A D C M T N L ls q v = (r, ls', q', w') \<Longrightarrow> item_origin A D C M T N L ls q r ls' q'"
| from_single: "ls_in_addr ls = One (Some a) \<Longrightarrow>
    item_origin A D C M T N L ls q (Ready (Some (Ok (NewAddress a)))) (ls\<lparr>ls_in_addr := One None\<rparr>) q"
| from_up: "same_family (ls_listen_addr ls) ip \<Longrightarrow>
    item_origin A D C M T N L ls q
      (Ready (Some (Ok (NewAddress (ip_to_multiaddr M ip (sock_port (ls_listen_addr ls))))))) ls q"
| from_down: "same_family (ls_listen_addr ls) ip \<Longrightarrow>
    item_origin A D C M T N L ls q
      (Ready (Some (Ok (AddressExpired (ip_to_multiaddr M ip (sock_port (ls_listen_addr ls))))))) ls q"
| from_failure: "ls_pause ls' = Some p \<Longrightarrow>
    item_origin A D C M T N L ls q (Ready (Some (Ok (ListenerError (IoError e))))) ls' q"
| from_waiting: "item_origin A D C M T N L ls q Pending ls q"
| from_new_watch: "item_origin A D C M T N L (ls\<lparr>ls_in_addr := Any (IfReady watch)\<rparr>) q r ls' q' \<Longrightarrow>
    ls_in_addr ls = Any (IfPending f) \<Longrightarrow> item_origin A D C M T N L ls q r ls' q'"

lemma drained_cases:
  fixes d :: "(if_event, 'e) result + unit"
  obtains (up) ip where "d = Inl (Ok (Up ip))" | (down) ip where "d = Inl (Ok (Down ip))"
    | (err) e where "d = Inl (Err e)" | (pending) "d = Inr ()"
proof (cases d)
  case (Inl res)
  show ?thesis
  proof (cases res)
    case (Ok ev)
    with Inl show ?thesis using up down by (cases ev) simp_all
  qed (use Inl err in simp)
qed (use pending in simp)

lemma poll_next_ready_origin:
  assumes "ls_in_addr ls = Any (IfReady watch)" and "poll_next A D C M T N L ls q w = Some (r, ls', q', w')"
  shows "item_origin A D C M T N L ls q r ls' q'"
proof -
  from assms obtain d v where d: "drain_interfaces L (ls_listen_addr ls) watch w = Some (d, v)"
    by (subst (asm) poll_next.simps) (auto split: option.splits)
  show ?thesis
  proof (cases d rule: drained_cases)
    case up
    with assms d drain_family [of L "ls_listen_addr ls" watch w] show ?thesis
      by (subst (asm) poll_next.simps) (auto intro: item_origin.intros)
  next
    case down
    with assms d drain_family [of L "ls_listen_addr ls" watch w] show ?thesis
      by (subst (asm) poll_next.simps) (auto intro: item_origin.intros)
  next
    case err
    with assms d show ?thesis
      by (subst (asm) poll_next.simps) (auto intro: item_origin.intros split: prod.splits)
  next
    case pending
    with assms d show ?thesis by (subst (asm) poll_next.simps) (auto intro: item_origin.intros)
  qed
qed

lemma poll_next_origin:
  assumes "poll_next A D C M T N L ls q w = Some (r, ls', q', w')"
  shows "item_origin A D C M T N L ls q r ls' q'"
proof -
  show ?thesis
  proof (cases "ls_in_addr ls" rule: in_addr_cases)
    case pending
    from assms show ?thesis
      unfolding poll_next_IfPending [OF pending]
      by (auto intro: item_origin.intros from_new_watch [OF poll_next_ready_origin pending]
          split: prod.splits poll.splits result.splits)
  qed (use assms in \<open>auto intro: item_origin.intros poll_next_ready_origin\<close>)
qed

section \<open>An instance of the watcher\<close>

text \<open>
  Every byte waiting in the inbox is an interface event: 0 an error, below 100 an IPv4 interface going up,
  otherwise an IPv6 one. Delays are over unless their handle is busy.
\<close>

definition toy_ifw :: "(nat, dworld) if_watch_api" where
  "toy_ifw =
    \<lparr>ifw_new = (\<lambda>w. (20, w)),
     ifw_poll_new = (\<lambda>f w. (if f \<in> set (dw_busy w) then Ready (Err (IoErr (KMisc 1) ''no watcher'')) else Ready (Ok 21), w)),
     ifw_poll = (\<lambda>c w. case dw_inbox w of
         [] \<Rightarrow> (Pending, w)
       | b # bs \<Rightarrow> (Ready (if b = 0 then Err (IoErr (KMisc 0) ''netlink'')
                         else Ok (Up (if b < 100 then IpV4 (ucast b) else IpV6 (ucast b)))), w\<lparr>dw_inbox := bs\<rparr>)),
     delay_new = (\<lambda>_ w. (22, w)),
     delay_poll = (\<lambda>d w. (if d \<in> set (dw_busy w) then Pending else Ready (), w)),
     ifw_backlog = (\<lambda>c w. length (dw_inbox w))\<rparr>"

lemma toy_ifw_laws: "if_watch_laws toy_ifw"
  by (auto simp: if_watch_laws_def toy_ifw_def split: list.splits)

definition demo_listener :: "(nat protocol list, nat, unit) listen_stream" where
  "demo_listener = \<lparr>ls_listen_addr = SockV4 0x7F000001 9000, ls_in_addr = One None, ls_sleep_on_error = 100,
     ls_pause = None, ls_config = [3], ls_udp_mux = 0, ls_new_addr_rx = (), ls_id_keys = 0\<rparr>"

abbreviation demo_poll ::
  "(nat protocol list, nat, unit) listen_stream \<Rightarrow> nat \<times> nat protocol list list \<times> bool \<Rightarrow> dworld \<Rightarrow>
   ((nat protocol list, nat, nat, string, nat \<times> nat list \<times> bool, dworld) listen_item \<times>
    (nat protocol list, nat, unit) listen_stream \<times> (nat \<times> nat protocol list list \<times> bool) \<times> dworld) option" where
  "demo_poll \<equiv> poll_next toy_rtc toy_dc list_mpsc list_ma demo_tt list_mpsc toy_ifw"

section \<open>Properties\<close>

text \<open>C27: Polling the listener always returns: the loop over the interface events ends, because a watcher has
  only finitely many events to deliver, and the outer loop is repeated at most once, when the watcher becomes
  available.\<close>

theorem listener_poll_returns:
  assumes "if_watch_laws L"
  shows "\<exists>item ls' q' w'. poll_next A D C M T N L ls q w = Some (item, ls', q', w')"
  using poll_next_total [OF assms] by (metis surj_pair)

lemma listener_poll_returns_witness:
  "\<exists>item ls' q' w'. demo_poll (demo_listener\<lparr>ls_in_addr := Any (IfPending 20)\<rparr>) (1, [], False)
     (dw_init\<lparr>dw_inbox := [200, 5]\<rparr>) = Some (item, ls', q', w')"
  by (rule listener_poll_returns [OF toy_ifw_laws])

text \<open>A listener bound to one interface reports its address exactly once, first, whatever happens to the
  mux and the network between polls: the first item is the address it is bound to, and every later one is an
  upgrade, the end of the stream or nothing yet.\<close>

theorem single_address_reported_once:
  assumes "ip_is_unspecified (sock_ip addr) = False"
    and "run (listen_step A D C M T N L) (fst (listen_stream_new M L addr config mux rx keys w)) (item # items) ls'"
  shows "item = Ready (Some (Ok (NewAddress (ip_to_multiaddr M (sock_ip addr) (sock_port addr))))) \<and>
    list_all from_mux items"
proof -
  let ?ls = "fst (listen_stream_new M L addr config mux rx keys w)"
  have "ls_in_addr ?ls = One (Some (ip_to_multiaddr M (sock_ip addr) (sock_port addr)))"
    using assms(1) by (cases addr) (auto simp: listen_stream_new_def)
  moreover from assms(2) obtain t where "listen_step A D C M T N L ?ls item t"
    "run (listen_step A D C M T N L) t items ls'" by auto
  ultimately show ?thesis
    using reported_once_items by (fastforce simp: reported_once_def list_all_iff elim!: listen_stepE)
qed

lemma single_address_reported_once_witness:
  "\<exists>item. fst (the (demo_poll (fst (listen_stream_new list_ma toy_ifw (SockV4 0x7F000001 9000) [3] 0 () 0 dw_init))
      (1, [], False) dw_init)) = item \<and>
    item = Ready (Some (Ok (NewAddress (ip_to_multiaddr list_ma (IpV4 0x7F000001) 9000))))"
proof -
  let ?ls = "fst (listen_stream_new list_ma toy_ifw (SockV4 0x7F000001 9000) [3] 0 () 0 dw_init)"
  obtain item ls' q' w' where p: "demo_poll ?ls (1, [], False) dw_init = Some (item, ls', q', w')"
    using poll_next_total [OF toy_ifw_laws] by (metis surj_pair)
  then have "run (listen_step toy_rtc toy_dc list_mpsc list_ma demo_tt list_mpsc toy_ifw) ?ls [item] ls'"
    by (intro run_single) (rule polled)
  from single_address_reported_once [OF _ this] p show ?thesis by simp
qed

text \<open>What the interface events of a poll may carry.\<close>

definition address_announced ::
  "('ma, 'h) multiaddr_api \<Rightarrow> ('ma, 'o, 'r) listen_stream \<Rightarrow> 'q \<Rightarrow> ('ma, 'up, 'e) listener_event \<Rightarrow>
   ('ma, 'o, 'r) listen_stream \<Rightarrow> 'q \<Rightarrow> bool" where
  "address_announced M ls q ev ls' q' \<longleftrightarrow>
     (let here = (\<lambda>ma. \<exists>ip. ip_is_ipv4 ip = ip_is_ipv4 (sock_ip (ls_listen_addr ls)) \<and>
           ma = ip_to_multiaddr M ip (sock_port (ls_listen_addr ls)))
      in case ev of
           NewAddress ma \<Rightarrow> q' = q \<and> (ls_in_addr ls = One (Some ma) \<or> here ma)
         | AddressExpired ma \<Rightarrow> q' = q \<and> here ma
         | ListenerError e \<Rightarrow> q' = q \<and> (\<exists>p. ls_pause ls' = Some p)
         | Upgrade l a u \<Rightarrow> True)"

text \<open>Interface events are reported faithfully: an address a listener announces or withdraws is made of its
  listening port and an IP address of the address family it listens on (or is the single address it was bound
  to), and reporting it takes nothing from the queue of new peers.\<close>

theorem announced_addresses_match:
  assumes "poll_next A D C M T N L ls q w = Some (Ready (Some (Ok ev)), ls', q', w')"
  shows "address_announced M ls q ev ls' q'"
proof -
  have "item_origin A D C M T N L ls q (Ready (Some (Ok ev))) ls' q'" using assms by (rule poll_next_origin)
  moreover have "item_origin A D C M T N L ls q r ls' q' \<Longrightarrow> r = Ready (Some (Ok ev)) \<Longrightarrow> address_announced M ls q ev ls' q'" for r
    by (induction rule: item_origin.induct)
       (auto simp: same_family_iff address_announced_def from_mux_def dest!: poll_tail_from_mux split: listener_event.splits)
  ultimately show ?thesis by blast
qed

lemma demo_poll_interfaces:
  "demo_poll (demo_listener\<lparr>ls_in_addr := Any (IfReady 21)\<rparr>) (1, [], False) (dw_init\<lparr>dw_inbox := [200, 5]\<rparr>) =
   Some (Ready (Some (Ok (NewAddress (ip_to_multiaddr list_ma (IpV4 5) 9000)))),
     demo_listener\<lparr>ls_in_addr := Any (IfReady 21)\<rparr>, (1, [], False), dw_init)"
proof -
  have "drain_interfaces toy_ifw (SockV4 0x7F000001 9000) 21 (dw_init\<lparr>dw_inbox := [200, 5]\<rparr>) =
      Some (Inl (Ok (Up (IpV4 5))), dw_init)"
    by (subst drain_interfaces.simps, simp add: toy_ifw_def same_family_iff,
        subst drain_interfaces.simps, simp add: same_family_iff dw_init_def)
  then show ?thesis by (subst poll_next.simps) (simp add: demo_listener_def)
qed

lemma announced_addresses_match_witness:
  "address_announced list_ma (demo_listener\<lparr>ls_in_addr := Any (IfReady 21)\<rparr>) (1 :: nat, [] :: nat protocol list list, False)
     (NewAddress (ip_to_multiaddr list_ma (IpV4 5) 9000) :: (nat protocol list, 
       (nat protocol list, nat, nat, string, nat \<times> nat list \<times> bool, dworld) upgrade_future,
       (nat protocol list, nat, string) error) listener_event)
     (demo_listener\<lparr>ls_in_addr := Any (IfReady 21)\<rparr>) (1, [], False)"
  by (rule announced_addresses_match [OF demo_poll_interfaces])

text \<open>Every address the mux reports becomes one upgrade, in order: an upgrade event carries the address at
  the front of the queue and takes it off, its local address is the listening address, its future is the
  upgrade of that address with the listener's own mux, certificate and keys; any other item leaves the queue as
  it was, and the stream ends only when the queue is closed and empty.\<close>

theorem upgrade_event_spec:
  assumes "mpsc_laws N" and "poll_next A D C M T N L ls q w = Some (item, ls', q', w')"
  shows "(case item of
      Ready (Some (Ok (Upgrade local remote fut))) \<Rightarrow>
        mpsc_queued N q = remote # mpsc_queued N q' \<and>
        local = ip_to_multiaddr M (sock_ip (ls_listen_addr ls)) (sock_port (ls_listen_addr ls)) \<and>
        fut = webrtc A D C M T (ls_udp_mux ls) (ls_config ls) remote (ls_id_keys ls) \<and> ls_pause ls' = None
    | Ready None \<Rightarrow> mpsc_queued N q = [] \<and> mpsc_closed N q
    | _ \<Rightarrow> mpsc_queued N q' = mpsc_queued N q)"
  using poll_next_origin [OF assms(2)]
proof (induction rule: item_origin.induct)
  case (from_tail ls q v r ls' q' w')
  from poll_tail_upgrade [OF assms(1) from_tail] show ?case .
qed (auto split: poll.splits option.splits result.splits listener_event.splits)

lemma upgrade_event_spec_witness:
  "\<exists>ls' w'. demo_poll demo_listener (1, [demo_client], False) dw_init =
     Some (Ready (Some (Ok (Upgrade (ip_to_multiaddr list_ma (IpV4 0x7F000001) 9000) demo_client
       (webrtc toy_rtc toy_dc list_mpsc list_ma demo_tt 0 [3] demo_client 0)))), ls', (1, [], False), w') \<and>
     ls_pause ls' = None"
proof -
  have p: "demo_poll demo_listener (1, [demo_client], False) dw_init =
     Some (Ready (Some (Ok (Upgrade (ip_to_multiaddr list_ma (IpV4 0x7F000001) 9000) demo_client
       (webrtc toy_rtc toy_dc list_mpsc list_ma demo_tt 0 [3] demo_client 0)))), demo_listener, (1, [], False), dw_init)"
    by (simp add: demo_listener_def poll_tail_def poll_new_addr_def list_mpsc_def)
  from upgrade_event_spec [OF list_mpsc_laws p] p show ?thesis by auto
qed

text \<open>While the pause after an error lasts, no connection is accepted: a poll whose timer is still running
  takes nothing from the queue of new peers and keeps the pause, whatever is queued.\<close>

theorem pause_holds_back_upgrades:
  assumes "ls_in_addr ls = One None" and "ls_pause ls = Some p" and "fst (delay_poll L p w) = Pending"
  shows "\<exists>w'. poll_next A D C M T N L ls q w = Some (Pending, ls, q, w')"
  using assms by (cases "delay_poll L p w") (simp add: poll_tail_def)

lemma pause_holds_back_upgrades_witness:
  "\<exists>w'. demo_poll (demo_listener\<lparr>ls_pause := Some 22\<rparr>) (1, [demo_client], False) (dw_init\<lparr>dw_busy := [22]\<rparr>) =
     Some (Pending, demo_listener\<lparr>ls_pause := Some 22\<rparr>, (1, [demo_client], False), w')"
proof (rule pause_holds_back_upgrades)
  show "fst (delay_poll toy_ifw 22 (dw_init\<lparr>dw_busy := [22]\<rparr>)) = Pending" by (simp add: toy_ifw_def)
qed (simp_all add: demo_listener_def)

text \<open>The pause does not delay the retry it is set up for: when starting to observe the interfaces fails, the
  next poll tries again at once, no matter whether the pause is over, and every failed attempt is reported as
  an error of its own.\<close>

theorem watcher_retry_not_paused:
  assumes "ls_in_addr ls = Any (IfPending f)" and "ifw_poll_new L f w = (Ready (Err e), w1)"
    and "ifw_new L w1 = (f', w2)" and "delay_new L (ls_sleep_on_error ls) w2 = (p, w3)"
    and "ifw_poll_new L f' w3 = (Ready (Err e'), w4)"
  shows "\<exists>ls'. poll_next A D C M T N L ls q w = Some (Ready (Some (Ok (ListenerError (IoError e)))), ls', q, w3) \<and>
    ls_pause ls' = Some p \<and>
    (\<exists>ls'' w5. poll_next A D C M T N L ls' q w3 = Some (Ready (Some (Ok (ListenerError (IoError e')))), ls'', q, w5))"
proof -
  let ?ls = "ls\<lparr>ls_in_addr := Any (IfPending f'), ls_pause := Some p\<rparr>"
  have "poll_next A D C M T N L ls q w = Some (Ready (Some (Ok (ListenerError (IoError e)))), ?ls, q, w3)"
    using assms by (simp add: poll_next_IfPending)
  moreover have "\<exists>ls'' w5. poll_next A D C M T N L ?ls q w3 =
      Some (Ready (Some (Ok (ListenerError (IoError e')))), ls'', q, w5)"
    using assms(5) by (simp add: poll_next_IfPending split: prod.splits)
  ultimately show ?thesis by auto
qed

lemma watcher_retry_not_paused_witness:
  "\<exists>ls'. demo_poll (demo_listener\<lparr>ls_in_addr := Any (IfPending 20)\<rparr>) (1, [], False) (dw_init\<lparr>dw_busy := [20, 22]\<rparr>) =
      Some (Ready (Some (Ok (ListenerError (IoError (IoErr (KMisc 1) ''no watcher''))))), ls', (1, [], False),
        dw_init\<lparr>dw_busy := [20, 22]\<rparr>) \<and>
    ls_pause ls' = Some 22 \<and>
    (\<exists>ls'' w5. demo_poll ls' (1, [], False) (dw_init\<lparr>dw_busy := [20, 22]\<rparr>) =
      Some (Ready (Some (Ok (ListenerError (IoError (IoErr (KMisc 1) ''no watcher''))))), ls'', (1, [], False), w5))"
  by (rule watcher_retry_not_paused [where f = 20 and f' = 20 and p = 22 and L = toy_ifw
        and ?w1.0 = "dw_init\<lparr>dw_busy := [20, 22]\<rparr>" and ?w2.0 = "dw_init\<lparr>dw_busy := [20, 22]\<rparr>"
        and ?w4.0 = "dw_init\<lparr>dw_busy := [20, 22]\<rparr>"])
     (simp_all add: demo_listener_def toy_ifw_def)

end
