(* ===== verification/Udp_Mux.thy ===== *)
theory Udp_Mux
  imports Transport_Util Instances
begin

text \<open>
  \<open>src/udp_mux.rs\<close>: the state of \<open>UDPMuxNewAddr\<close> and its operations, each run to completion without
  interference. The packet worker is in \<open>Udp_Mux_Worker\<close>, the interleaving of the operations at their lock
  boundaries in \<open>Udp_Mux_Conc\<close>.
\<close>

section \<open>State\<close>

text \<open>
  \<open>params.conn\<close> (the socket) and the muxed connections live in the external world. \<open>closed_watch_tx\<close> is
  \<open>Some\<close> as long as the sender of the close signal has not been taken. The receiver \<open>closed_watch_rx\<close> is
  only ever cloned for the worker, whose wake-up is an event of the worker.
\<close>

record 'c udp_mux =
  conns :: "(string, 'c) hashmap"
  address_map :: "socket_addr \<rightharpoonup> 'c"
  closed_watch_tx :: "unit option"
  new_addrs :: "socket_addr set"

definition mux_new :: "'c udp_mux" where
  "mux_new = \<lparr>conns = [], address_map = Map.empty, closed_watch_tx = Some (), new_addrs = {}\<rparr>"

definition is_closed :: "'c udp_mux \<Rightarrow> bool" where
  "is_closed s \<longleftrightarrow> closed_watch_tx s = None"

section \<open>Operations\<close>

definition normalize_socket_addr :: "socket_addr \<Rightarrow> socket_addr \<Rightarrow> socket_addr" where
  "normalize_socket_addr target socket_addr =
     (case (target, socket_addr) of
        (SockV4 target_ip target_port, SockV6 _ _ _ _) \<Rightarrow>
          sock_new (IpV6 (to_ipv6_mapped target_ip)) target_port
      | (_, _) \<Rightarrow> target)"

definition ufrag_from_stun_message :: "'m stun_api \<Rightarrow> u8 list \<Rightarrow> bool \<Rightarrow> (string, util_error) result" where
  "ufrag_from_stun_message S buffer local_ufrag =
     (case stun_unmarshal_binary S buffer of
        Err err \<Rightarrow> Err (OtherUtil (''failed to handle decode ICE: '' @ err))
      | Ok message \<Rightarrow>
          (case stun_get_username S message of
             (attr, found) \<Rightarrow>
               if \<not> found then Err (OtherUtil ''no username attribute in STUN message'')
               else
                 (case from_utf8 attr of
                    Err err \<Rightarrow> Err (OtherUtil
                      (''failed to decode USERNAME from STUN message as UTF-8: '' @ show_utf8_error err))
                  | Ok s \<Rightarrow>
                      (let pieces = split_on CHR '':'' s;
                           res = (if pieces = [] then None
                                  else Some (if local_ufrag then hd pieces else last pieces))
                       in case res of
                            Some u \<Rightarrow> Ok u
                          | None \<Rightarrow> Err (OtherUtil ''can't get ufrag from username'')))))"

definition create_muxed_conn ::
  "('c, 'w) udp_conn_api \<Rightarrow> string \<Rightarrow> ('w, ('c, util_error) result) world_call" where
  "create_muxed_conn U ufrag w =
     (case sock_local_addr U w of
        (Err e, w') \<Rightarrow> (Err e, w')
      | (Ok local_addr, w') \<Rightarrow> (case conn_new U local_addr ufrag w' of (c, w'') \<Rightarrow> (Ok c, w'')))"

definition conn_from_stun_message :: "'m stun_api \<Rightarrow> u8 list \<Rightarrow> 'c udp_mux \<Rightarrow> 'c option" where
  "conn_from_stun_message S buffer s =
     (case ufrag_from_stun_message S buffer True of
        Ok ufrag \<Rightarrow> map_of (conns s) ufrag
      | Err e \<Rightarrow> None)"

text \<open>The loop of \<open>close\<close> over the connections it has taken out of \<open>conns\<close>.\<close>

fun close_conns :: "('c, 'w) udp_conn_api \<Rightarrow> (string, 'c) hashmap \<Rightarrow> 'w \<Rightarrow> 'w" where
  "close_conns U [] w = w"
| "close_conns U ((_, c) # cs) w = close_conns U cs (conn_close U c w)"

definition close ::
  "('c, 'w) udp_conn_api \<Rightarrow> ((string, 'c) hashmap \<Rightarrow> (string, 'c) hashmap) \<Rightarrow>
   'c udp_mux \<Rightarrow> 'w \<Rightarrow> (unit, util_error) result \<times> 'c udp_mux \<times> 'w" where
  "close U ord s w =
     (if is_closed s then (Err ErrAlreadyClosed, s, w)
      else
        (case closed_watch_tx s of
           Some tx \<Rightarrow>
             (let s1 = s\<lparr>closed_watch_tx := None\<rparr>;
                  old_conns = conns s1;
                  s2 = s1\<lparr>conns := []\<rparr>;
                  w' = close_conns U (ord old_conns) w;
                  s3 = s2\<lparr>address_map := Map.empty\<rparr>;
                  s4 = s3\<lparr>new_addrs := {}\<rparr>
              in (Ok (), s4, w'))
         | None \<Rightarrow> (Ok (), s, w)))"

text \<open>
  \<open>get_conn\<close> also spawns a task that waits for the new connection to close and then calls
  \<open>remove_conn_by_ufrag\<close>; the third component of the result is that task, if one was spawned.
\<close>

definition get_conn ::
  "('c, 'w) udp_conn_api \<Rightarrow> string \<Rightarrow> 'c udp_mux \<Rightarrow> 'w \<Rightarrow>
   ('c, util_error) result \<times> 'c udp_mux \<times> ('c \<times> string) option \<times> 'w" where
  "get_conn U ufrag s w =
     (if is_closed s then (Err ErrUseClosedNetworkConn, s, None, w)
      else
        (case map_of (conns s) ufrag of
           Some conn \<Rightarrow> (Ok conn, s, None, w)
         | None \<Rightarrow>
             (case create_muxed_conn U ufrag w of
                (Err e, w') \<Rightarrow> (Err e, s, None, w')
              | (Ok muxed_conn, w') \<Rightarrow>
                  (Ok muxed_conn, s\<lparr>conns := AList.update ufrag muxed_conn (conns s)\<rparr>,
                   Some (muxed_conn, ufrag), w'))))"

definition remove_addresses :: "socket_addr list \<Rightarrow> (socket_addr \<rightharpoonup> 'c) \<Rightarrow> (socket_addr \<rightharpoonup> 'c)" where
  "remove_addresses as m = fold (\<lambda>a m. m(a := None)) as m"

definition remove_conn_by_ufrag :: "('c, 'w) udp_conn_api \<Rightarrow> string \<Rightarrow> 'c udp_mux \<Rightarrow> 'w \<Rightarrow> 'c udp_mux" where
  "remove_conn_by_ufrag U ufrag s w =
     (let removed_conn = map_of (conns s) ufrag;
          s' = s\<lparr>conns := AList.delete ufrag (conns s)\<rparr>
      in case removed_conn of
           Some conn \<Rightarrow> s'\<lparr>address_map := remove_addresses (conn_get_addresses U conn w) (address_map s')\<rparr>
         | None \<Rightarrow> s')"

text \<open>The body of \<open>entry(addr).and_modify(..).or_insert_with(..)\<close>.\<close>

definition register_entry ::
  "('c, 'w) udp_conn_api \<Rightarrow> 'c \<Rightarrow> socket_addr \<Rightarrow> (socket_addr \<rightharpoonup> 'c) \<Rightarrow> 'w \<Rightarrow> (socket_addr \<rightharpoonup> 'c) \<times> 'w" where
  "register_entry U conn addr addresses w =
     (case addresses addr of
        Some e \<Rightarrow>
          if conn_key U e \<noteq> conn_key U conn
          then (addresses(addr \<mapsto> conn), conn_remove_address U e addr w)
          else (addresses, w)
      | None \<Rightarrow> (addresses(addr \<mapsto> conn), w))"

definition register_conn_for_address ::
  "('c, 'w) udp_conn_api \<Rightarrow> 'c \<Rightarrow> socket_addr \<Rightarrow> 'c udp_mux \<Rightarrow> 'w \<Rightarrow> 'c udp_mux \<times> 'w" where
  "register_conn_for_address U conn addr s w =
     (if is_closed s then (s, w)
      else
        (case register_entry U conn addr (address_map s) w of
           (addresses, w') \<Rightarrow>
             (s\<lparr>address_map := addresses, new_addrs := new_addrs s - {addr}\<rparr>, w')))"

definition send_to ::
  "('c, 'w) udp_conn_api \<Rightarrow> u8 list \<Rightarrow> socket_addr \<Rightarrow> ('w, (nat, util_error) result) world_call" where
  "send_to U buf target = sock_send_to U buf target"

section \<open>Invariants\<close>

text \<open>
  \<open>wf_mux\<close>: the keys of \<open>conns\<close> are distinct and each connection is stored under its own key. It is kept
  by every operation. \<open>routes_known\<close>: every address the mux routes is one the connection itself lists.
\<close>

definition wf_mux :: "('c, 'w) udp_conn_api \<Rightarrow> 'c udp_mux \<Rightarrow> bool" where
  "wf_mux U s \<longleftrightarrow> wf_map (conns s) \<and> (\<forall>u c. map_of (conns s) u = Some c \<longrightarrow> conn_key U c = u)"

definition routes_known :: "('c, 'w) udp_conn_api \<Rightarrow> 'c udp_mux \<Rightarrow> 'w \<Rightarrow> bool" where
  "routes_known U s w \<longleftrightarrow> (\<forall>a c. address_map s a = Some c \<longrightarrow> a \<in> set (conn_get_addresses U c w))"

lemma wf_mux_new [simp]: "wf_mux U mux_new"
  by (simp add: wf_mux_def mux_new_def)

lemma not_closed_new [simp]: "\<not> is_closed mux_new"
  by (simp add: is_closed_def mux_new_def)

lemma remove_addresses_apply:
  "remove_addresses as m a = (if a \<in> set as then None else m a)"
  unfolding remove_addresses_def by (induction as arbitrary: m) auto

lemma create_muxed_conn_key:
  assumes "udp_conn_laws U" and "create_muxed_conn U ufrag w = (Ok c, w')"
  shows "conn_key U c = ufrag"
proof -
  from assms(2) obtain la v where "conn_new U la ufrag v = (c, w')"
    by (auto simp: create_muxed_conn_def split: prod.splits result.splits)
  with udp_conn_lawsD(1) [OF assms(1), of la ufrag v] show ?thesis by simp
qed

lemma wf_mux_get_conn:
  assumes "udp_conn_laws U" and "wf_mux U s" and "get_conn U ufrag s w = (r, s', t, w')"
  shows "wf_mux U s'"
  using assms create_muxed_conn_key [OF assms(1)]
  by (fastforce simp: get_conn_def wf_mux_def split: if_splits option.splits prod.splits result.splits)

lemma wf_mux_remove: "wf_mux U s \<Longrightarrow> wf_mux U (remove_conn_by_ufrag U ufrag s w)"
  by (auto simp: remove_conn_by_ufrag_def wf_mux_def Let_def split: option.splits)

lemma wf_mux_register: "wf_mux U s \<Longrightarrow> wf_mux U (fst (register_conn_for_address U c a s w))"
  by (auto simp: register_conn_for_address_def wf_mux_def split: prod.splits)

lemma wf_mux_close: "wf_mux U s \<Longrightarrow> wf_mux U (fst (snd (close U ord s w)))"
  by (auto simp: close_def wf_mux_def Let_def split: option.splits)

lemmas wf_mux_ops = wf_mux_get_conn wf_mux_remove wf_mux_register wf_mux_close

section \<open>The table of connections as an interface\<close>

text \<open>
  What the ICE agent (through \<open>get_conn\<close> and \<open>remove_conn_by_ufrag\<close>) and the packet worker (through the
  lookup by ufrag) rely on. The client's lemmas are proved from these laws alone; the interpretation
  below discharges them for the mux.
\<close>

locale conn_table =
  fixes lookup :: "'s \<Rightarrow> 'k \<Rightarrow> 'c option"
    and acquire :: "'k \<Rightarrow> 's \<Rightarrow> ('c, 'e) result \<times> 's"
    and release :: "'k \<Rightarrow> 's \<Rightarrow> 's"
    and shut :: "'s \<Rightarrow> bool"
  assumes acquire_known: "\<not> shut s \<Longrightarrow> lookup s k = Some c \<Longrightarrow> acquire k s = (Ok c, s)"
    and acquire_lookup: "acquire k s = (Ok c, s') \<Longrightarrow> lookup s' = (lookup s)(k \<mapsto> c)"
    and acquire_err: "acquire k s = (Err e, s') \<Longrightarrow> lookup s' = lookup s"
    and acquire_open: "acquire k s = (Ok c, s') \<Longrightarrow> \<not> shut s"
    and acquire_shut: "acquire k s = (r, s') \<Longrightarrow> shut s' = shut s"
    and release_lookup: "lookup (release k s) = (lookup s)(k := None)"
    and release_shut: "shut (release k s) = shut s"
begin

lemma acquire_again: "acquire k s = (Ok c, s') \<Longrightarrow> acquire k s' = (Ok c, s')"
  by (rule acquire_known) (auto simp: acquire_lookup dest: acquire_open acquire_shut)

lemma acquire_keeps_others: "acquire k s = (r, s') \<Longrightarrow> k' \<noteq> k \<Longrightarrow> lookup s' k' = lookup s k'"
  by (cases r) (auto dest: acquire_lookup acquire_err)

lemma acquire_stable:
  assumes "acquire k s = (Ok c, s')" and "acquire k' s' = (r, s'')"
  shows "lookup s'' k = Some c"
proof (cases "k' = k")
  case True
  with assms show ?thesis by (auto simp: acquire_again acquire_lookup)
next
  case False
  with assms show ?thesis by (auto simp: acquire_keeps_others acquire_lookup)
qed

lemma release_twice: "lookup (release k (release k s)) = lookup (release k s)"
  by (simp add: release_lookup)

lemma release_after_acquire: "acquire k s = (Ok c, s') \<Longrightarrow> lookup (release k s') = (lookup s)(k := None)"
  by (simp add: release_lookup acquire_lookup)

end

definition mux_lookup :: "'c udp_mux \<times> 'w \<Rightarrow> string \<Rightarrow> 'c option" where
  "mux_lookup = (\<lambda>(s, w). map_of (conns s))"

definition mux_acquire ::
  "('c, 'w) udp_conn_api \<Rightarrow> string \<Rightarrow> 'c udp_mux \<times> 'w \<Rightarrow> ('c, util_error) result \<times> 'c udp_mux \<times> 'w" where
  "mux_acquire U ufrag = (\<lambda>(s, w). case get_conn U ufrag s w of (r, s', t, w') \<Rightarrow> (r, s', w'))"

definition mux_release :: "('c, 'w) udp_conn_api \<Rightarrow> string \<Rightarrow> 'c udp_mux \<times> 'w \<Rightarrow> 'c udp_mux \<times> 'w" where
  "mux_release U ufrag = (\<lambda>(s, w). (remove_conn_by_ufrag U ufrag s w, w))"

lemma map_of_conns_remove: "map_of (conns (remove_conn_by_ufrag U u s w)) = (map_of (conns s))(u := None)"
  by (auto simp: remove_conn_by_ufrag_def Let_def split: option.splits)

lemma is_closed_update [simp]:
  "is_closed (s\<lparr>conns := cs\<rparr>) = is_closed s"
  "is_closed (s\<lparr>address_map := m\<rparr>) = is_closed s"
  "is_closed (s\<lparr>new_addrs := a\<rparr>) = is_closed s"
  by (simp_all add: is_closed_def)

lemma is_closed_remove [simp]: "is_closed (remove_conn_by_ufrag U u s w) = is_closed s"
  by (auto simp: remove_conn_by_ufrag_def is_closed_def Let_def split: option.splits)

interpretation mux_table: conn_table mux_lookup "mux_acquire U" "mux_release U" "\<lambda>(s, w). is_closed s"
  for U :: "('c, 'w) udp_conn_api"
proof unfold_locales
  fix k and s :: "'c udp_mux \<times> 'w" and c
  assume "\<not> (case s of (s, w) \<Rightarrow> is_closed s)" and "mux_lookup s k = Some c"
  then show "mux_acquire U k s = (Ok c, s)"
    by (auto simp: mux_acquire_def mux_lookup_def get_conn_def split: prod.splits)
qed (auto simp: mux_acquire_def mux_lookup_def mux_release_def get_conn_def map_of_conns_remove
      split: prod.splits if_splits option.splits result.splits)

section \<open>Routes\<close>

lemma create_muxed_conn_addresses:
  assumes "udp_conn_laws U" and "create_muxed_conn U ufrag w = (r, w')"
  shows "set (conn_get_addresses U c w) \<subseteq> set (conn_get_addresses U c w')"
proof -
  obtain x v where lv: "sock_local_addr U w = (x, v)" by fastforce
  have v: "conn_get_addresses U c v = conn_get_addresses U c w"
    using udp_conn_lawsD(5) [OF assms(1), of c w] lv by simp
  show ?thesis
  proof (cases x)
    case (Err e)
    with assms(2) lv v show ?thesis by (simp add: create_muxed_conn_def)
  next
    case (Ok la)
    with assms(2) lv have "w' = snd (conn_new U la ufrag v)"
      by (simp add: create_muxed_conn_def split: prod.splits)
    with udp_conn_lawsD(6) [OF assms(1), of c v la ufrag] v show ?thesis by simp
  qed
qed

lemma routes_known_get_conn:
  assumes "udp_conn_laws U" and "routes_known U s w" and "get_conn U ufrag s w = (r, s', t, w')"
  shows "routes_known U s' w'"
proof -
  have "address_map s' = address_map s"
    using assms(3) by (auto simp: get_conn_def split: if_splits option.splits prod.splits result.splits)
  moreover have "set (conn_get_addresses U c w) \<subseteq> set (conn_get_addresses U c w')" for c
    using assms(3) create_muxed_conn_addresses [OF assms(1)]
    by (fastforce simp: get_conn_def split: if_splits option.splits prod.splits result.splits)
  ultimately show ?thesis using assms(2) by (auto simp: routes_known_def)
qed

lemma routes_known_remove: "routes_known U s w \<Longrightarrow> routes_known U (remove_conn_by_ufrag U u s w) w"
  by (auto simp: routes_known_def remove_conn_by_ufrag_def remove_addresses_apply Let_def
      split: option.splits if_splits)

text \<open>
  The entry for an address is the only one that registering changes, and a displaced connection loses
  the address in its own list too.
\<close>

lemma register_entry_routes:
  assumes U: "udp_conn_laws U"
    and known: "\<forall>a c. m a = Some c \<longrightarrow> a \<in> set (conn_get_addresses U c w)"
    and addr: "addr \<in> set (conn_get_addresses U conn w)"
    and entry: "register_entry U conn addr m w = (m', w')"
    and route: "m' a = Some c"
  shows "a \<in> set (conn_get_addresses U c w')"
proof (cases "m addr")
  case None
  with entry route known addr show ?thesis by (auto simp: register_entry_def split: if_splits)
next
  case (Some e)
  show ?thesis
  proof (cases "conn_key U e = conn_key U conn")
    case True
    with Some entry route known show ?thesis by (auto simp: register_entry_def)
  next
    case False
    then have "e \<noteq> conn" by auto
    with Some False entry route known addr show ?thesis
      by (auto simp: register_entry_def udp_conn_lawsD(2) [OF U] split: if_splits)
  qed
qed

lemma routes_known_register:
  assumes "udp_conn_laws U" and "routes_known U s w" and "addr \<in> set (conn_get_addresses U conn w)"
    and "register_conn_for_address U conn addr s w = (s', w')"
  shows "routes_known U s' w'"
  using assms register_entry_routes [OF assms(1) _ assms(3)]
  by (auto simp: routes_known_def register_conn_for_address_def split: if_splits prod.splits)

lemma close_conns_addresses:
  assumes "udp_conn_laws U"
  shows "conn_get_addresses U c (close_conns U cs w) = conn_get_addresses U c w"
  using assms by (induction U cs w rule: close_conns.induct) (auto simp: udp_conn_lawsD(4))

lemma close_conns_fold: "close_conns U cs w = fold (conn_close U) (map snd cs) w"
  by (induction U cs w rule: close_conns.induct) auto

lemma routes_known_close:
  assumes "udp_conn_laws U" and "routes_known U s w" and "close U ord s w = (r, s', w')"
  shows "routes_known U s' w'"
  using assms by (auto simp: routes_known_def close_def Let_def split: if_splits option.splits)

lemma ufrag_no_colon:
  "ufrag_from_stun_message S buffer loc = Ok u \<Longrightarrow> CHR '':'' \<notin> set u"
  using split_on_pieces [OF hd_in_set] split_on_pieces [OF last_in_set]
  by (auto simp: ufrag_from_stun_message_def Let_def split: result.splits prod.splits if_splits)

section \<open>Sequences of operations\<close>

text \<open>
  The operations as a labelled step relation over the mux and its world, one call at a time. A connection
  registers an address only after it has added it to its own list (the contract of
  \<open>UDPMuxConn\<close>), and between calls the connections may add further addresses to their lists.
\<close>

datatype 'c mux_op =
  OpGetConn string
| OpRemove string
| OpRegister 'c socket_addr
| OpClose
| OpConnsGrow

inductive mux_op_step ::
  "('c, 'w) udp_conn_api \<Rightarrow> ((string, 'c) hashmap \<Rightarrow> (string, 'c) hashmap) \<Rightarrow>
   'c udp_mux \<times> 'w \<Rightarrow> 'c mux_op \<Rightarrow> 'c udp_mux \<times> 'w \<Rightarrow> bool"
  for U ord where
  step_get: "get_conn U u s w = (r, s', t, w') \<Longrightarrow> mux_op_step U ord (s, w) (OpGetConn u) (s', w')"
| step_remove: "mux_op_step U ord (s, w) (OpRemove u) (remove_conn_by_ufrag U u s w, w)"
| step_register: "a \<in> set (conn_get_addresses U c w) \<Longrightarrow> register_conn_for_address U c a s w = (s', w') \<Longrightarrow>
    mux_op_step U ord (s, w) (OpRegister c a) (s', w')"
| step_close: "close U ord s w = (r, s', w') \<Longrightarrow> mux_op_step U ord (s, w) OpClose (s', w')"
| step_grow: "(\<forall>c. set (conn_get_addresses U c w) \<subseteq> set (conn_get_addresses U c w')) \<Longrightarrow>
    mux_op_step U ord (s, w) OpConnsGrow (s, w')"

definition mux_ok :: "('c, 'w) udp_conn_api \<Rightarrow> 'c udp_mux \<times> 'w \<Rightarrow> bool" where
  "mux_ok U = (\<lambda>(s, w). udp_conn_laws U \<longrightarrow> wf_mux U s \<and> routes_known U s w)"

interpretation mux_ops: step_invariant "mux_op_step U ord" "mux_ok U"
  for U :: "('c, 'w) udp_conn_api" and ord
proof unfold_locales
  fix p l q
  assume "mux_op_step U ord p l q" and "mux_ok U p"
  then show "mux_ok U q"
  proof (induction rule: mux_op_step.induct)
    case (step_get u s w r s' t w')
    then show ?case by (auto simp: mux_ok_def dest: wf_mux_get_conn routes_known_get_conn)
  next
    case (step_remove s w u)
    then show ?case by (auto simp: mux_ok_def wf_mux_remove routes_known_remove)
  next
    case (step_register a c w s s' w')
    then show ?case
      using wf_mux_register [of U s c a w] by (auto simp: mux_ok_def dest: routes_known_register)
  next
    case (step_close s w r s' w')
    then show ?case
      using wf_mux_close [of U s ord w] by (auto simp: mux_ok_def dest: routes_known_close)
  next
    case (step_grow w w' s)
    then show ?case by (auto simp: mux_ok_def routes_known_def)
  qed
qed

text \<open>A closed mux is inert: its tables stay empty under every operation.\<close>

definition closed_empty :: "'c udp_mux \<times> 'w \<Rightarrow> bool" where
  "closed_empty = (\<lambda>(s, w). is_closed s \<and> conns s = [] \<and> address_map s = Map.empty \<and> new_addrs s = {})"

interpretation mux_closed: step_invariant "mux_op_step U ord" closed_empty
  for U :: "('c, 'w) udp_conn_api" and ord
proof unfold_locales
  fix p l q
  assume "mux_op_step U ord p l q" and "closed_empty p"
  then show "closed_empty q"
    by (induction rule: mux_op_step.induct)
       (auto simp: closed_empty_def get_conn_def remove_conn_by_ufrag_def register_conn_for_address_def close_def)
qed

section \<open>Properties\<close>

text \<open>What \<open>remove_conn_by_ufrag\<close> leaves behind: if every routed address is listed by its connection, then
  after the removal nothing is stored under the ufrag, no address is routed to the removed connection any
  more, and every route to another connection survives unless the removed connection listed that address
  as well.\<close>

theorem remove_conn_leaves_no_route:
  assumes "routes_known U s w" and "map_of (conns s) ufrag = Some conn"
    and "s' = remove_conn_by_ufrag U ufrag s w"
  shows "map_of (conns s') ufrag = None \<and>
    (\<forall>a. address_map s' a \<noteq> Some conn) \<and>
    (\<forall>a c. address_map s a = Some c \<longrightarrow> a \<notin> set (conn_get_addresses U conn w) \<longrightarrow> address_map s' a = Some c) \<and>
    (\<forall>k. k \<noteq> ufrag \<longrightarrow> map_of (conns s') k = map_of (conns s) k)"
proof (intro conjI allI impI)
  show "map_of (conns s') ufrag = None" using assms(3) by (simp add: map_of_conns_remove)
next
  fix a
  show "address_map s' a \<noteq> Some conn"
    using assms by (auto simp: remove_conn_by_ufrag_def remove_addresses_apply routes_known_def Let_def)
next
  fix a c
  assume "address_map s a = Some c" and "a \<notin> set (conn_get_addresses U conn w)"
  then show "address_map s' a = Some c"
    using assms by (simp add: remove_conn_by_ufrag_def remove_addresses_apply Let_def)
next
  fix k
  assume "k \<noteq> ufrag"
  then show "map_of (conns s') k = map_of (conns s) k" using assms(3) by (simp add: map_of_conns_remove)
qed

text \<open>Closing an open mux succeeds, closes every connection of the table exactly once (in the order the hash
  map yields them), empties all three tables and marks the mux closed.\<close>

theorem close_tears_down:
  assumes "\<not> is_closed s" and "iterates ord" and "close U ord s w = (r, s', w')"
  shows "r = Ok () \<and> is_closed s' \<and> conns s' = [] \<and> address_map s' = Map.empty \<and> new_addrs s' = {} \<and>
    w' = fold (conn_close U) (map snd (ord (conns s))) w \<and>
    mset (map snd (ord (conns s))) = mset (map snd (conns s))"
proof -
  have "mset (ord (conns s)) = mset (conns s)" using assms(2) by (simp add: iterates_def)
  with assms show ?thesis
    by (auto simp: close_def is_closed_def Let_def close_conns_fold mset_map split: option.splits)
qed

text \<open>Whatever sequence of calls is made on a new mux, the keys of its table stay distinct, every
  connection is stored under its own ufrag, and every routed address is one that its connection lists.\<close>

theorem mux_operations_keep_invariant:
  assumes "udp_conn_laws U" and "run (mux_op_step U ord) (mux_new, w) ops (s, w')"
  shows "wf_mux U s \<and> routes_known U s w'"
proof -
  have "mux_ok U (mux_new, w)"
    by (simp add: mux_ok_def routes_known_def) (simp add: mux_new_def)
  from mux_ops.invar_run [OF assms(2) this] assms(1) show ?thesis by (simp add: mux_ok_def)
qed

text \<open>C30: Once an open mux has been closed, no later sequence of (uninterrupted) calls puts anything back into its
  tables or reopens it, a further \<open>close\<close> reports \<open>ErrAlreadyClosed\<close> and \<open>get_conn\<close> reports
  \<open>ErrUseClosedNetworkConn\<close>.\<close>

theorem closed_mux_stays_closed:
  assumes "\<not> is_closed s" and "close U ord s w = (r, s1, w1)"
    and "run (mux_op_step U ord) (s1, w1) ops (s2, w2)"
  shows "is_closed s2 \<and> conns s2 = [] \<and> address_map s2 = Map.empty \<and> new_addrs s2 = {} \<and>
    close U ord s2 w2 = (Err ErrAlreadyClosed, s2, w2) \<and>
    get_conn U ufrag s2 w2 = (Err ErrUseClosedNetworkConn, s2, None, w2)"
proof -
  from assms(1,2) have "closed_empty (s1, w1)"
    by (auto simp: closed_empty_def close_def is_closed_def Let_def split: option.splits)
  from mux_closed.invar_run [OF assms(3) this] show ?thesis
    by (simp add: closed_empty_def close_def get_conn_def)
qed

text \<open>A connection handed out by \<open>get_conn\<close> stays the one registered under its ufrag across further calls of
  \<open>get_conn\<close>: asking again for the same ufrag returns the same connection, spawns nothing and changes
  nothing, and asking for another ufrag does not disturb it.\<close>

theorem get_conn_stable:
  assumes "get_conn U ufrag s w = (Ok c, s1, t1, w1)"
  shows "get_conn U ufrag s1 w1 = (Ok c, s1, None, w1) \<and>
    (\<forall>other r s2 t2 w2. get_conn U other s1 w1 = (r, s2, t2, w2) \<longrightarrow> map_of (conns s2) ufrag = Some c)"
proof (intro conjI allI impI)
  have acq: "mux_acquire U ufrag (s, w) = (Ok c, s1, w1)" using assms by (simp add: mux_acquire_def)
  have "map_of (conns s1) ufrag = Some c \<and> \<not> is_closed s1"
    using mux_table.acquire_lookup [OF acq] mux_table.acquire_open [OF acq] mux_table.acquire_shut [OF acq]
    by (simp add: mux_lookup_def)
  then show "get_conn U ufrag s1 w1 = (Ok c, s1, None, w1)" by (simp add: get_conn_def)
  fix other r s2 t2 w2
  assume "get_conn U other s1 w1 = (r, s2, t2, w2)"
  then have "mux_acquire U other (s1, w1) = (r, s2, w2)" by (simp add: mux_acquire_def)
  from mux_table.acquire_stable [OF acq this] show "map_of (conns s2) ufrag = Some c"
    by (simp add: mux_lookup_def)
qed

text \<open>Registering a connection for an address on an open mux: afterwards the address is routed to a connection
  with that key, the address is no longer remembered as a new one, all other routes are as before, and a
  connection with another key that had the address has lost it.\<close>

theorem register_takes_over:
  assumes "udp_conn_laws U" and "\<not> is_closed s"
    and "register_conn_for_address U conn addr s w = (s', w')"
  shows "(\<exists>c. address_map s' addr = Some c \<and> conn_key U c = conn_key U conn) \<and>
    addr \<notin> new_addrs s' \<and>
    (\<forall>a. a \<noteq> addr \<longrightarrow> address_map s' a = address_map s a) \<and>
    (\<forall>e. address_map s addr = Some e \<longrightarrow> conn_key U e \<noteq> conn_key U conn \<longrightarrow>
       address_map s' addr = Some conn \<and> addr \<notin> set (conn_get_addresses U e w'))"
  using assms
  by (auto simp: register_conn_for_address_def register_entry_def udp_conn_lawsD(2) split: option.splits if_splits)

text \<open>The user name of a STUN message is the receiver's ufrag, a colon and the sender's ufrag: the mux reads the
  first piece when it looks for one of its own connections and the last piece when it reports a new peer.\<close>

theorem ufrag_of_username:
  assumes "stun_unmarshal_binary S buffer = Ok msg" and "stun_get_username S msg = (name, True)"
    and "from_utf8 name = Ok (l @ CHR '':'' # r)" and "CHR '':'' \<notin> set l" and "CHR '':'' \<notin> set r"
  shows "ufrag_from_stun_message S buffer True = Ok l \<and> ufrag_from_stun_message S buffer False = Ok r"
  using assms by (simp add: ufrag_from_stun_message_def split_on_append split_on_id)

text \<open>Looking a ufrag up in a STUN message fails only for a message that does not decode, has no user name, or
  whose user name is not UTF-8 (the last error branch of the code is dead), and a ufrag that is found never
  contains a colon.\<close>

theorem ufrag_from_stun_message_cases:
  "(case ufrag_from_stun_message S buffer loc of
      Ok u \<Rightarrow> CHR '':'' \<notin> set u
    | Err e \<Rightarrow> e \<noteq> OtherUtil ''can't get ufrag from username'' \<and>
        ((\<exists>m. stun_unmarshal_binary S buffer = Err m) \<or>
         (\<exists>m. stun_unmarshal_binary S buffer = Ok m \<and>
            (snd (stun_get_username S m) = False \<or> (\<exists>x. from_utf8 (fst (stun_get_username S m)) = Err x)))))"
  using split_on_pieces [OF hd_in_set] split_on_pieces [OF last_in_set]
  by (auto simp: ufrag_from_stun_message_def Let_def split: result.splits prod.splits)

text \<open>Normalising a target for a socket keeps the port, never changes a target of the socket's own family, gives
  an IPv6 target whenever the socket is IPv6, maps different targets to different targets, and is idempotent.\<close>

theorem normalize_socket_addr_spec:
  "sock_port (normalize_socket_addr t a) = sock_port t \<and>
   (sock_is_ipv4 t = sock_is_ipv4 a \<longrightarrow> normalize_socket_addr t a = t) \<and>
   (sock_is_ipv6 a \<longrightarrow> sock_is_ipv6 (normalize_socket_addr t a)) \<and>
   (sock_is_ipv4 t = sock_is_ipv4 u \<longrightarrow> normalize_socket_addr t a = normalize_socket_addr u a \<longrightarrow> t = u) \<and>
   normalize_socket_addr (normalize_socket_addr t a) a = normalize_socket_addr t a"
  by (cases t; cases a; cases u)
     (simp_all add: normalize_socket_addr_def sock_is_ipv4_def sock_is_ipv6_def ip_is_ipv6_def to_ipv6_mapped_inj)

section \<open>Witnesses\<close>

text \<open>One connection under the ufrag \<open>ab\<close>, listing and routed for one address.\<close>

definition demo_addr :: socket_addr where
  "demo_addr = SockV4 0x7f000001 4000"

definition demo_world :: tworld where
  "demo_world = tw_init\<lparr>tw_next := 1, tw_addrs := (\<lambda>_. [])((0, ''ab'') := [demo_addr])\<rparr>"

definition demo_mux :: "tconn udp_mux" where
  "demo_mux = \<lparr>conns = [(''ab'', (0, ''ab''))], address_map = [demo_addr \<mapsto> (0, ''ab'')],
               closed_watch_tx = Some (), new_addrs = {}\<rparr>"

lemmas demo_defs = demo_mux_def demo_world_def demo_addr_def toy_udp_def tw_init_def

lemma remove_conn_leaves_no_route_witness:
  "routes_known toy_udp demo_mux demo_world \<and>
   (\<forall>a. address_map (remove_conn_by_ufrag toy_udp ''ab'' demo_mux demo_world) a \<noteq> Some (0, ''ab''))"
proof -
  have r: "routes_known toy_udp demo_mux demo_world" by (simp add: routes_known_def demo_defs)
  have "map_of (conns demo_mux) ''ab'' = Some (0, ''ab'')" by (simp add: demo_defs)
  from remove_conn_leaves_no_route [OF r this refl] r show ?thesis by blast
qed

lemma close_tears_down_witness:
  "is_closed (fst (snd (close toy_udp rev demo_mux demo_world))) \<and>
   tw_closed (snd (snd (close toy_udp rev demo_mux demo_world))) = [(0, ''ab'')]"
proof -
  have o: "\<not> is_closed demo_mux" by (simp add: is_closed_def demo_defs)
  have e: "close toy_udp rev demo_mux demo_world =
      (fst (close toy_udp rev demo_mux demo_world), fst (snd (close toy_udp rev demo_mux demo_world)),
       snd (snd (close toy_udp rev demo_mux demo_world)))" by simp
  from close_tears_down [OF o iterates_rev e] show ?thesis by (simp add: demo_defs)
qed

lemma mux_operations_keep_invariant_witness:
  "wf_mux toy_udp (fst (snd (get_conn toy_udp ''ab'' mux_new tw_init)))"
proof -
  let ?s = "\<lparr>conns = [(''ab'', (0, ''ab''))], address_map = Map.empty, closed_watch_tx = Some (), new_addrs = {}\<rparr>"
  let ?w = "tw_init\<lparr>tw_next := 1\<rparr>"
  have g: "get_conn toy_udp ''ab'' mux_new tw_init = (Ok (0, ''ab''), ?s, Some ((0, ''ab''), ''ab''), ?w)"
    by (simp add: get_conn_def create_muxed_conn_def is_closed_def mux_new_def toy_udp_def tw_init_def)
  have "run (mux_op_step toy_udp rev) (mux_new, tw_init) [OpGetConn ''ab''] (?s, ?w)"
    by (rule run_single) (rule mux_op_step.step_get [OF g])
  from mux_operations_keep_invariant [OF toy_udp_laws this] g show ?thesis by simp
qed

lemma closed_mux_stays_closed_witness:
  "get_conn toy_udp ''cd'' (fst (snd (close toy_udp rev demo_mux demo_world))) demo_world =
     (Err ErrUseClosedNetworkConn, fst (snd (close toy_udp rev demo_mux demo_world)), None, demo_world)"
proof -
  let ?c = "close toy_udp rev demo_mux demo_world"
  have o: "\<not> is_closed demo_mux" by (simp add: is_closed_def demo_defs)
  have e: "?c = (fst ?c, fst (snd ?c), snd (snd ?c))" by simp
  have g: "mux_op_step toy_udp rev (fst (snd ?c), snd (snd ?c)) OpConnsGrow (fst (snd ?c), demo_world)"
    by (rule mux_op_step.step_grow) (simp add: close_def is_closed_def demo_defs Let_def)
  have "run (mux_op_step toy_udp rev) (fst (snd ?c), snd (snd ?c)) [OpConnsGrow] (fst (snd ?c), demo_world)"
    by (rule run_single) (rule g)
  from closed_mux_stays_closed [OF o e this] show ?thesis by blast
qed

lemma get_conn_stable_witness:
  "get_conn toy_udp ''ab'' demo_mux demo_world = (Ok (0, ''ab''), demo_mux, None, demo_world)"
proof -
  have "get_conn toy_udp ''ab'' demo_mux demo_world = (Ok (0, ''ab''), demo_mux, None, demo_world)"
    by (simp add: get_conn_def is_closed_def demo_defs)
  from get_conn_stable [OF this] show ?thesis by blast
qed

lemma register_takes_over_witness:
  "address_map (fst (register_conn_for_address toy_udp (1, ''cd'') demo_addr demo_mux demo_world)) demo_addr
     = Some (1, ''cd'')"
proof -
  let ?r = "register_conn_for_address toy_udp (1, ''cd'') demo_addr demo_mux demo_world"
  have o: "\<not> is_closed demo_mux" by (simp add: is_closed_def demo_defs)
  have e: "?r = (fst ?r, snd ?r)" by simp
  have "address_map demo_mux demo_addr = Some (0, ''ab'')"
    and "conn_key toy_udp (0, ''ab'') \<noteq> conn_key toy_udp (1, ''cd'')" by (simp_all add: demo_defs)
  with register_takes_over [OF toy_udp_laws o e] show ?thesis by blast
qed

lemma ufrag_of_username_witness:
  "ufrag_from_stun_message toy_stun (toy_packet ''ab:cd'') True = Ok ''ab'' \<and>
   ufrag_from_stun_message toy_stun (toy_packet ''ab:cd'') False = Ok ''cd''"
proof (rule ufrag_of_username)
  show "stun_unmarshal_binary toy_stun (toy_packet ''ab:cd'') = Ok (into_bytes ''ab:cd'')"
    by (simp add: toy_stun_def toy_packet_def into_bytes_def)
  show "stun_get_username toy_stun (into_bytes ''ab:cd'') = (into_bytes ''ab:cd'', True)"
    by (simp add: toy_stun_def into_bytes_def)
  show "from_utf8 (into_bytes ''ab:cd'') = Ok (''ab'' @ CHR '':'' # ''cd'')"
    by (simp add: from_utf8_into_bytes is_ascii_def)
qed simp_all

lemma normalize_socket_addr_spec_witness:
  "normalize_socket_addr (SockV4 0x7f000001 80) (SockV4 0 0) = SockV4 0x7f000001 80 \<and>
   sock_is_ipv6 (normalize_socket_addr (SockV4 0x7f000001 80) (SockV6 0 0 0 0))"
  using normalize_socket_addr_spec [of "SockV4 0x7f000001 80" "SockV4 0 0" "SockV4 0 0"]
    normalize_socket_addr_spec [of "SockV4 0x7f000001 80" "SockV6 0 0 0 0" "SockV4 0 0"]
  by (simp add: sock_is_ipv4_def sock_is_ipv6_def ip_is_ipv6_def)

end
