(* ===== verification/Udp_Mux_Worker.thy ===== *)
theory Udp_Mux_Worker
  imports Udp_Mux
begin

text \<open>
  The packet worker that \<open>UDPMuxNewAddr::new\<close> spawns (\<open>start_conn_worker\<close> of \<open>src/udp_mux.rs\<close>): a loop that
  receives datagrams into one reused buffer, routes them to muxed connections, and reports the addresses
  of unknown peers on a bounded channel. The events are what the two branches of the loop's \<open>select!\<close>
  deliver.
\<close>

section \<open>State and events\<close>

definition RECEIVE_MTU :: nat where
  "RECEIVE_MTU = 8192"

record ('ma, 'h, 'm, 'c, 'q, 'w) mux_env =
  env_ma :: "('ma, 'h) multiaddr_api"
  env_hex :: hex_api
  env_stun :: "'m stun_api"
  env_udp :: "('c, 'w) udp_conn_api"
  env_mpsc :: "('ma, 'q) mpsc_api"

datatype worker_ctl = Running | Stopped | Crashed string

record ('c, 'q, 'w) mux_sys =
  sys_mux :: "'c udp_mux"
  sys_buf :: "u8 list"
  sys_chan :: 'q
  sys_world :: 'w
  sys_ctl :: worker_ctl

text \<open>
  \<open>conn.recv_from(&mut buffer)\<close> writes the datagram over the front of the buffer and returns its length;
  \<open>closed_watch_rx.changed()\<close> becomes ready once the close signal has been sent.
\<close>

datatype worker_event =
  Received "u8 list" socket_addr
| RecvFailed util_error
| ClosedChanged

definition sys_new :: "('ma, 'h, 'm, 'c, 'q, 'w) mux_env \<Rightarrow> nat \<Rightarrow> 'w \<Rightarrow> ('c, 'q, 'w) mux_sys" where
  "sys_new E cap w =
     \<lparr>sys_mux = mux_new, sys_buf = replicate RECEIVE_MTU 0, sys_chan = mpsc_channel (env_mpsc E) cap,
      sys_world = w, sys_ctl = Running\<rparr>"

section \<open>One turn of the loop\<close>

definition recv_into :: "u8 list \<Rightarrow> u8 list \<Rightarrow> u8 list" where
  "recv_into buffer data = data @ drop (length data) buffer"

definition find_conn :: "'m stun_api \<Rightarrow> u8 list \<Rightarrow> socket_addr \<Rightarrow> 'c udp_mux \<Rightarrow> 'c option" where
  "find_conn S buffer addr s =
     (case address_map s addr of
        None \<Rightarrow> if stun_is_message S buffer then conn_from_stun_message S buffer s else None
      | Some c \<Rightarrow> Some c)"

definition new_peer_multiaddr :: "('ma, 'h) multiaddr_api \<Rightarrow> socket_addr \<Rightarrow> u8 list \<Rightarrow> 'ma" where
  "new_peer_multiaddr M addr f =
     ma_with M (ma_with M (ma_with M (ma_empty M) (ma_from_ip M (sock_ip addr))) (Udp (sock_port addr))) (XWebRTC f)"

text \<open>The branch for a source without a connection.\<close>

definition report_new_addr ::
  "('ma, 'h, 'm, 'c, 'q, 'w) mux_env \<Rightarrow> u8 list \<Rightarrow> socket_addr \<Rightarrow> ('c, 'q, 'w) mux_sys \<Rightarrow> ('c, 'q, 'w) mux_sys" where
  "report_new_addr E buffer addr y =
     (if addr \<in> new_addrs (sys_mux y) then y
      else
        (case ufrag_from_stun_message (env_stun E) buffer False of
           Ok ufrag \<Rightarrow>
             (case hex_to_cow (env_hex E) (strip_colons ufrag) of
                Panics msg \<Rightarrow> y\<lparr>sys_ctl := Crashed msg\<rparr>
              | Returns f \<Rightarrow>
                  (case mpsc_try_send (env_mpsc E) (new_peer_multiaddr (env_ma E) addr f) (sys_chan y) of
                     (False, q) \<Rightarrow> y\<lparr>sys_chan := q\<rparr>
                   | (True, q) \<Rightarrow>
                       y\<lparr>sys_chan := q, sys_mux := (sys_mux y)\<lparr>new_addrs := insert addr (new_addrs (sys_mux y))\<rparr>\<rparr>))
         | Err e \<Rightarrow> y))"

definition on_packet ::
  "('ma, 'h, 'm, 'c, 'q, 'w) mux_env \<Rightarrow> nat \<Rightarrow> socket_addr \<Rightarrow> ('c, 'q, 'w) mux_sys \<Rightarrow> ('c, 'q, 'w) mux_sys" where
  "on_packet E len addr y =
     (case find_conn (env_stun E) (sys_buf y) addr (sys_mux y) of
        None \<Rightarrow> report_new_addr E (sys_buf y) addr y
      | Some conn \<Rightarrow>
          y\<lparr>sys_world := snd (conn_write_packet (env_udp E) conn (take len (sys_buf y)) addr (sys_world y))\<rparr>)"

fun worker_turn ::
  "('ma, 'h, 'm, 'c, 'q, 'w) mux_env \<Rightarrow> ('c, 'q, 'w) mux_sys \<Rightarrow> worker_event \<Rightarrow> ('c, 'q, 'w) mux_sys" where
  "worker_turn E y (Received data addr) =
     on_packet E (length data) addr (y\<lparr>sys_buf := recv_into (sys_buf y) data\<rparr>)"
| "worker_turn E y (RecvFailed (Io (IoErr KTimedOut m))) = y"
| "worker_turn E y (RecvFailed err) = y\<lparr>sys_ctl := Stopped\<rparr>"
| "worker_turn E y ClosedChanged = y\<lparr>sys_ctl := Stopped\<rparr>"

fun start_conn_worker ::
  "('ma, 'h, 'm, 'c, 'q, 'w) mux_env \<Rightarrow> ('c, 'q, 'w) mux_sys \<Rightarrow> worker_event list \<Rightarrow> ('c, 'q, 'w) mux_sys" where
  "start_conn_worker E y [] = y"
| "start_conn_worker E y (ev # evs) =
     (if sys_ctl y = Running then start_conn_worker E (worker_turn E y ev) evs else y)"

section \<open>The worker among the other operations\<close>

text \<open>
  A system step is a turn of the running worker, a call of one of the mux operations, or the listener
  taking an address from the channel. A datagram fits the buffer it is received into.
\<close>

datatype 'c sys_label = SysWorker worker_event | SysOp "'c mux_op" | SysListen

definition fits :: "worker_event \<Rightarrow> bool" where
  "fits ev \<longleftrightarrow> (case ev of Received data addr \<Rightarrow> length data \<le> RECEIVE_MTU | _ \<Rightarrow> True)"

inductive sys_step ::
  "('ma, 'h, 'm, 'c, 'q, 'w) mux_env \<Rightarrow> ((string, 'c) hashmap \<Rightarrow> (string, 'c) hashmap) \<Rightarrow>
   ('c, 'q, 'w) mux_sys \<Rightarrow> 'c sys_label \<Rightarrow> ('c, 'q, 'w) mux_sys \<Rightarrow> bool"
  for E ord where
  sys_worker: "sys_ctl y = Running \<Longrightarrow> fits ev \<Longrightarrow> sys_step E ord y (SysWorker ev) (worker_turn E y ev)"
| sys_op: "mux_op_step (env_udp E) ord (sys_mux y, sys_world y) op (s', w') \<Longrightarrow>
    sys_step E ord y (SysOp op) (y\<lparr>sys_mux := s', sys_world := w'\<rparr>)"
| sys_listen: "sys_step E ord y SysListen (y\<lparr>sys_chan := snd (mpsc_poll_next (env_mpsc E) (sys_chan y))\<rparr>)"

inductive_cases sys_workerE: "sys_step E ord y (SysWorker ev) z"

text \<open>A turn reports an address if it enters it into the set of reported addresses; it queues it in the same turn.\<close>

definition reports :: "('c, 'q, 'w) mux_sys \<Rightarrow> ('c, 'q, 'w) mux_sys \<Rightarrow> socket_addr \<Rightarrow> bool" where
  "reports y z addr \<longleftrightarrow> addr \<notin> new_addrs (sys_mux y) \<and> addr \<in> new_addrs (sys_mux z)"

section \<open>Facts\<close>

lemma take_recv_into [simp]: "take (length data) (recv_into buffer data) = data"
  by (simp add: recv_into_def)

lemma length_recv_into: "length data \<le> length buffer \<Longrightarrow> length (recv_into buffer data) = length buffer"
  by (simp add: recv_into_def)

lemma report_new_addr_frame [simp]:
  "sys_buf (report_new_addr E b a y) = sys_buf y"
  "sys_world (report_new_addr E b a y) = sys_world y"
  "conns (sys_mux (report_new_addr E b a y)) = conns (sys_mux y)"
  "address_map (sys_mux (report_new_addr E b a y)) = address_map (sys_mux y)"
  "closed_watch_tx (sys_mux (report_new_addr E b a y)) = closed_watch_tx (sys_mux y)"
  by (auto simp: report_new_addr_def split: result.splits outcome.splits prod.splits bool.splits)

lemma report_new_addr_new_addrs:
  "new_addrs (sys_mux (report_new_addr E b a y)) = new_addrs (sys_mux y) \<or>
   new_addrs (sys_mux (report_new_addr E b a y)) = insert a (new_addrs (sys_mux y))"
  by (auto simp: report_new_addr_def split: result.splits outcome.splits prod.splits bool.splits)

lemma on_packet_frame [simp]:
  "sys_buf (on_packet E n a y) = sys_buf y"
  "conns (sys_mux (on_packet E n a y)) = conns (sys_mux y)"
  "address_map (sys_mux (on_packet E n a y)) = address_map (sys_mux y)"
  "closed_watch_tx (sys_mux (on_packet E n a y)) = closed_watch_tx (sys_mux y)"
  by (auto simp: on_packet_def split: option.splits)

lemma on_packet_new_addrs:
  "new_addrs (sys_mux (on_packet E n a y)) = new_addrs (sys_mux y) \<or>
   new_addrs (sys_mux (on_packet E n a y)) = insert a (new_addrs (sys_mux y))"
  using report_new_addr_new_addrs [of E "sys_buf y" a y] by (auto simp: on_packet_def split: option.splits)

lemma worker_turn_frame:
  "conns (sys_mux (worker_turn E y ev)) = conns (sys_mux y)"
  "address_map (sys_mux (worker_turn E y ev)) = address_map (sys_mux y)"
  "closed_watch_tx (sys_mux (worker_turn E y ev)) = closed_watch_tx (sys_mux y)"
  by (induction E y ev rule: worker_turn.induct) auto

lemma worker_turn_new_addrs_mono: "new_addrs (sys_mux y) \<subseteq> new_addrs (sys_mux (worker_turn E y ev))"
proof (cases "(E, y, ev)" rule: worker_turn.cases)
  case (1 E' y' data addr)
  then show ?thesis
    using on_packet_new_addrs [of E "length data" addr "y\<lparr>sys_buf := recv_into (sys_buf y) data\<rparr>"] by auto
qed auto

text \<open>The buffer keeps its size: no turn ever reads or writes outside it.\<close>

interpretation worker_buffer: step_invariant "sys_step E ord" "\<lambda>y. length (sys_buf y) = RECEIVE_MTU"
  for E :: "('ma, 'h, 'm, 'c, 'q, 'w) mux_env" and ord
proof unfold_locales
  fix y l z
  assume "sys_step E ord y l z" and "length (sys_buf y) = RECEIVE_MTU"
  then show "length (sys_buf z) = RECEIVE_MTU"
  proof (induction rule: sys_step.induct)
    case (sys_worker y ev)
    then show ?case
      by (cases "(E, y, ev)" rule: worker_turn.cases) (auto simp: fits_def length_recv_into)
  qed auto
qed

text \<open>
  The part of the invariant of the mux that survives the worker: its own turns change neither the tables of
  connections nor the lists of addresses.
\<close>

definition sys_ok :: "('ma, 'h, 'm, 'c, 'q, 'w) mux_env \<Rightarrow> ('c, 'q, 'w) mux_sys \<Rightarrow> bool" where
  "sys_ok E y \<longleftrightarrow> mux_ok (env_udp E) (sys_mux y, sys_world y)"

lemma on_packet_addresses:
  assumes "udp_conn_laws (env_udp E)"
  shows "conn_get_addresses (env_udp E) c (sys_world (on_packet E n a y)) =
    conn_get_addresses (env_udp E) c (sys_world y)"
  by (auto simp: on_packet_def udp_conn_lawsD(3) [OF assms] split: option.splits)

lemma worker_turn_addresses:
  assumes "udp_conn_laws (env_udp E)"
  shows "conn_get_addresses (env_udp E) c (sys_world (worker_turn E y ev)) =
    conn_get_addresses (env_udp E) c (sys_world y)"
  by (cases "(E, y, ev)" rule: worker_turn.cases) (auto simp: on_packet_addresses [OF assms])

interpretation worker_mux: step_invariant "sys_step E ord" "sys_ok E"
  for E :: "('ma, 'h, 'm, 'c, 'q, 'w) mux_env" and ord
proof unfold_locales
  fix y l z
  assume "sys_step E ord y l z" and "sys_ok E y"
  then show "sys_ok E z"
  proof (induction rule: sys_step.induct)
    case (sys_worker y ev)
    then show ?case
      by (auto simp: sys_ok_def mux_ok_def wf_mux_def routes_known_def worker_turn_frame worker_turn_addresses)
  next
    case (sys_op y op s' w')
    then show ?case using mux_ops.invar_step by (fastforce simp: sys_ok_def)
  qed (simp add: sys_ok_def)
qed

section \<open>Reporting new peers\<close>

lemma sys_ctl_report: "sys_ctl (report_new_addr E b a y) = sys_ctl y \<or> (\<exists>m. sys_ctl (report_new_addr E b a y) = Crashed m)"
  by (auto simp: report_new_addr_def split: result.splits outcome.splits prod.splits bool.splits)

text \<open>What a turn that reports an address has done.\<close>

lemma report_new_addr_reports:
  assumes "a \<notin> new_addrs (sys_mux y)" and "a' \<notin> new_addrs (sys_mux y)"
    and "a' \<in> new_addrs (sys_mux (report_new_addr E b a y))"
  obtains ufrag f q where "a' = a" and "ufrag_from_stun_message (env_stun E) b False = Ok ufrag"
    and "hex_to_cow (env_hex E) (strip_colons ufrag) = Returns f"
    and "mpsc_try_send (env_mpsc E) (new_peer_multiaddr (env_ma E) a f) (sys_chan y) = (True, q)"
    and "sys_chan (report_new_addr E b a y) = q"
  using assms
  by (auto simp: report_new_addr_def split: result.splits outcome.splits prod.splits bool.splits)

lemma worker_turn_reports:
  assumes "reports y (worker_turn E y ev) a"
  obtains data ufrag f q where "ev = Received data a"
    and "ufrag_from_stun_message (env_stun E) (recv_into (sys_buf y) data) False = Ok ufrag"
    and "hex_to_cow (env_hex E) (strip_colons ufrag) = Returns f"
    and "mpsc_try_send (env_mpsc E) (new_peer_multiaddr (env_ma E) a f) (sys_chan y) = (True, q)"
    and "sys_chan (worker_turn E y ev) = q"
proof (cases "(E, y, ev)" rule: worker_turn.cases)
  case (1 E' y' data addr)
  let ?y = "y\<lparr>sys_buf := recv_into (sys_buf y) data\<rparr>"
  from 1 assms have r: "a \<notin> new_addrs (sys_mux y)" "a \<in> new_addrs (sys_mux (on_packet E (length data) addr ?y))"
    by (auto simp: reports_def)
  then have n: "find_conn (env_stun E) (recv_into (sys_buf y) data) addr (sys_mux y) = None"
    by (auto simp: on_packet_def split: option.splits)
  with r have in_rep: "a \<in> new_addrs (sys_mux (report_new_addr E (recv_into (sys_buf y) data) addr ?y))"
    by (simp add: on_packet_def)
  have "addr \<notin> new_addrs (sys_mux ?y)"
    using r(1) in_rep by (auto simp: report_new_addr_def)
  from report_new_addr_reports [OF this _ in_rep] r(1) obtain ufrag f q where
    "a = addr" "ufrag_from_stun_message (env_stun E) (recv_into (sys_buf y) data) False = Ok ufrag"
    "hex_to_cow (env_hex E) (strip_colons ufrag) = Returns f"
    "mpsc_try_send (env_mpsc E) (new_peer_multiaddr (env_ma E) addr f) (sys_chan y) = (True, q)"
    "sys_chan (report_new_addr E (recv_into (sys_buf y) data) addr ?y) = q" by auto
  with 1 n that show thesis by (simp add: on_packet_def)
qed (use assms in \<open>auto simp: reports_def\<close>)

text \<open>The multiaddress that is reported.\<close>

lemma iter_new_peer_multiaddr:
  "multiaddr_laws M \<Longrightarrow>
   ma_iter M (new_peer_multiaddr M addr f) = [ip_protocol (sock_ip addr), Udp (sock_port addr), XWebRTC f]"
  by (simp add: new_peer_multiaddr_def multiaddr_lawsD)

lemma new_peer_multiaddr_parses:
  assumes "multiaddr_laws M"
  shows "multiaddr_to_socketaddr M (new_peer_multiaddr M addr f) = Some (sock_new (sock_ip addr) (sock_port addr))"
    and "fingerprint_from_addr M (new_peer_multiaddr M addr f) = Some f"
  by (auto simp: multiaddr_to_socketaddr_Some iter_new_peer_multiaddr [OF assms] fingerprint_from_addr_def)

text \<open>C11: A reported peer: the worker queues exactly one multiaddress, last in the channel, from which the listener's
  side reads back the peer's IP address and port, and a fingerprint of 32 bytes; when the peer's ufrag is in
  the lowercase form that fingerprints are printed in, that fingerprint printed without colons is the ufrag.\<close>

theorem worker_report_roundtrip:
  assumes "multiaddr_laws (env_ma E)" and "hex_laws (env_hex E)" and "mpsc_laws (env_mpsc E)"
    and "reports y (worker_turn E y ev) addr"
  shows "\<exists>m f data ufrag.
    ev = Received data addr \<and>
    mpsc_queued (env_mpsc E) (sys_chan (worker_turn E y ev)) = mpsc_queued (env_mpsc E) (sys_chan y) @ [m] \<and>
    multiaddr_to_socketaddr (env_ma E) m = Some (sock_new (sock_ip addr) (sock_port addr)) \<and>
    fingerprint_from_addr (env_ma E) m = Some f \<and> last (ma_iter (env_ma E) m) = XWebRTC f \<and> length f = 32 \<and>
    ufrag_from_stun_message (env_stun E) (recv_into (sys_buf y) data) False = Ok ufrag \<and>
    ((\<forall>c \<in> set ufrag. is_hex_lower c) \<longrightarrow> strip_colons (fingerprint_to_string f) = ufrag)"
proof -
  from assms(4) obtain data ufrag f q where ev: "ev = Received data addr"
    and u: "ufrag_from_stun_message (env_stun E) (recv_into (sys_buf y) data) False = Ok ufrag"
    and f: "hex_to_cow (env_hex E) (strip_colons ufrag) = Returns f"
    and q: "mpsc_try_send (env_mpsc E) (new_peer_multiaddr (env_ma E) addr f) (sys_chan y) = (True, q)"
    and z: "sys_chan (worker_turn E y ev) = q" by (rule worker_turn_reports)
  have strip: "strip_colons ufrag = ufrag"
    using ufrag_no_colon [OF u] by (simp add: strip_colons_filter filter_neq_id)
  have len: "length f = 32" using hex_to_cow_length [OF assms(2) f] .
  have low: "strip_colons (fingerprint_to_string f) = ufrag" if "\<forall>c \<in> set ufrag. is_hex_lower c"
  proof -
    from f strip have "length ufrag = 64" using hex_to_cow_iff [OF assms(2), of ufrag] by auto
    from hex_to_cow_lower [OF assms(2) that this] f strip show ?thesis
      by (metis outcome.inject(1) strip_fingerprint)
  qed
  show ?thesis
    using ev u len low mpsc_try_send_True(1) [OF assms(3) q] z new_peer_multiaddr_parses [OF assms(1)]
      iter_new_peer_multiaddr [OF assms(1), of addr f] by fastforce
qed

text \<open>C29: Routing: a datagram from an address with a route, or a STUN message from an address without one whose
  user name starts with the ufrag of a connection of the table, is handed to that connection unchanged and
  in full, and nothing else about the mux or the channel changes.\<close>

theorem worker_routes_packet:
  assumes "address_map (sys_mux y) addr = Some c \<or>
    address_map (sys_mux y) addr = None \<and> stun_is_message (env_stun E) (recv_into (sys_buf y) data) \<and>
    ufrag_from_stun_message (env_stun E) (recv_into (sys_buf y) data) True = Ok u \<and>
    map_of (conns (sys_mux y)) u = Some c"
  shows "worker_turn E y (Received data addr) =
    y\<lparr>sys_buf := recv_into (sys_buf y) data,
      sys_world := snd (conn_write_packet (env_udp E) c data addr (sys_world y))\<rparr>"
  using assms by (auto simp: on_packet_def find_conn_def conn_from_stun_message_def)

text \<open>The address is remembered until it is registered or the mux is closed.\<close>

definition forgets :: "socket_addr \<Rightarrow> 'c sys_label \<Rightarrow> bool" where
  "forgets a l \<longleftrightarrow> l = SysOp OpClose \<or> (\<exists>c. l = SysOp (OpRegister c a))"

lemma sys_step_remembers:
  assumes "sys_step E ord y l z" and "\<not> forgets a l" and "a \<in> new_addrs (sys_mux y)"
  shows "a \<in> new_addrs (sys_mux z)"
  using assms
proof (induction rule: sys_step.induct)
  case (sys_worker y ev)
  then show ?case using worker_turn_new_addrs_mono by blast
next
  case (sys_op y op s' w')
  from sys_op.hyps sys_op.prems show ?case
    by (cases rule: mux_op_step.cases)
       (auto simp: forgets_def get_conn_def remove_conn_by_ufrag_def register_conn_for_address_def Let_def
         split: if_splits option.splits prod.splits result.splits)
qed auto

lemma run_remembers:
  assumes "run (sys_step E ord) y ls z" and "\<forall>l \<in> set ls. \<not> forgets a l" and "a \<in> new_addrs (sys_mux y)"
  shows "a \<in> new_addrs (sys_mux z)"
  using assms by (induction rule: run.induct) (auto dest: sys_step_remembers)

text \<open>The channel grows only when an address is reported.\<close>

lemma queue_change_reports:
  assumes "mpsc_laws (env_mpsc E)"
    and "mpsc_queued (env_mpsc E) (sys_chan (worker_turn E y (Received data addr))) \<noteq> mpsc_queued (env_mpsc E) (sys_chan y)"
  shows "reports y (worker_turn E y (Received data addr)) addr"
  using assms(2) mpsc_try_send_False(1) [OF assms(1)]
  by (auto simp: on_packet_def report_new_addr_def reports_def
      split: option.splits if_splits result.splits outcome.splits prod.splits bool.splits)

text \<open>A peer is not announced to the listener twice: if two datagrams from the same address both add an entry to
  the channel, then in between the address was registered for a connection or the mux was closed, whatever
  packets, calls and reads of the channel there were besides.\<close>

theorem report_once_until_registered:
  assumes "mpsc_laws (env_mpsc E)"
    and "sys_step E ord y (SysWorker (Received data addr)) y1"
    and "mpsc_queued (env_mpsc E) (sys_chan y1) \<noteq> mpsc_queued (env_mpsc E) (sys_chan y)"
    and "run (sys_step E ord) y1 ls y2"
    and "sys_step E ord y2 (SysWorker (Received data' addr)) y3"
    and "mpsc_queued (env_mpsc E) (sys_chan y3) \<noteq> mpsc_queued (env_mpsc E) (sys_chan y2)"
  shows "\<exists>k \<in> set ls. forgets addr k"
proof (rule ccontr)
  assume none: "\<not> (\<exists>k \<in> set ls. forgets addr k)"
  have "reports y y1 addr" "reports y2 y3 addr"
    using assms queue_change_reports [OF assms(1)] by (auto elim!: sys_workerE)
  with none run_remembers [OF assms(4), of addr] show False by (auto simp: reports_def)
qed

text \<open>A report that the full channel refuses is not lost: the address is not remembered, so the same datagram
  received again once the channel has been drained reports it.\<close>

theorem refused_report_is_retried:
  assumes "mpsc_laws (env_mpsc E)" and "sys_ctl y = Running"
    and "find_conn (env_stun E) (recv_into (sys_buf y) data) addr (sys_mux y) = None"
    and "addr \<notin> new_addrs (sys_mux y)"
    and "ufrag_from_stun_message (env_stun E) (recv_into (sys_buf y) data) False = Ok ufrag"
    and "hex_to_cow (env_hex E) (strip_colons ufrag) = Returns f"
    and "\<not> fst (mpsc_try_send (env_mpsc E) (new_peer_multiaddr (env_ma E) addr f) (sys_chan y))"
    and "z = worker_turn E y (Received data addr)"
    and "mpsc_queued (env_mpsc E) q = []" and "\<not> mpsc_closed (env_mpsc E) q"
  shows "addr \<notin> new_addrs (sys_mux z) \<and> sys_ctl z = Running \<and>
    mpsc_queued (env_mpsc E) (sys_chan z) = mpsc_queued (env_mpsc E) (sys_chan y) \<and>
    reports (z\<lparr>sys_chan := q\<rparr>) (worker_turn E (z\<lparr>sys_chan := q\<rparr>) (Received data addr)) addr"
proof -
  let ?m = "new_peer_multiaddr (env_ma E) addr f"
  obtain q' where q': "mpsc_try_send (env_mpsc E) ?m (sys_chan y) = (False, q')"
    using assms(7) by (metis (full_types) prod.collapse)
  have z: "z = y\<lparr>sys_buf := recv_into (sys_buf y) data, sys_chan := q'\<rparr>"
    using assms(3-6,8) q' by (simp add: on_packet_def report_new_addr_def)
  obtain q'' where q'': "mpsc_try_send (env_mpsc E) ?m q = (True, q'')"
    using mpsc_try_send_empty [OF assms(1,9,10), of ?m] by (metis (full_types) prod.collapse)
  have again: "recv_into (recv_into b d) d = recv_into b d" for b d by (simp add: recv_into_def)
  show ?thesis
    using z q'' mpsc_try_send_False(1) [OF assms(1) q'] assms(2-6)
    by (simp add: on_packet_def report_new_addr_def reports_def again)
qed

text \<open>C18: The worker survives every datagram except one: a STUN message from an unreported, unrouted address whose
  user name ends in a ufrag that is not 64 hexadecimal digits makes the decoder's result be unwrapped and the
  worker panics. No other datagram stops it.\<close>

theorem worker_panics_iff:
  assumes "hex_laws (env_hex E)" and "sys_ctl y = Running"
  shows "sys_ctl (worker_turn E y (Received data addr)) \<noteq> Running \<longleftrightarrow>
    find_conn (env_stun E) (recv_into (sys_buf y) data) addr (sys_mux y) = None \<and>
    addr \<notin> new_addrs (sys_mux y) \<and>
    (\<exists>u. ufrag_from_stun_message (env_stun E) (recv_into (sys_buf y) data) False = Ok u \<and>
       (length u \<noteq> 64 \<or> (\<exists>c \<in> set u. \<not> is_hex c)))"
proof -
  have strip: "strip_colons u = u" if "ufrag_from_stun_message (env_stun E) b False = Ok u" for b u
    using ufrag_no_colon [OF that] by (simp add: strip_colons_filter filter_neq_id)
  have dec: "(\<exists>msg. hex_to_cow (env_hex E) u = Panics msg) \<longleftrightarrow> length u \<noteq> 64 \<or> (\<exists>c \<in> set u. \<not> is_hex c)" for u
    using hex_to_cow_iff [OF assms(1), of u] by (metis outcome.distinct(1) outcome.exhaust)
  have rep: "sys_ctl (report_new_addr E b addr z) \<noteq> Running \<longleftrightarrow>
      addr \<notin> new_addrs (sys_mux z) \<and> (\<exists>u msg. ufrag_from_stun_message (env_stun E) b False = Ok u \<and>
        hex_to_cow (env_hex E) u = Panics msg)" if "sys_ctl z = Running" for b z
    using that strip [of b]
    by (auto simp: report_new_addr_def split: result.splits outcome.splits prod.splits bool.splits)
  have "sys_ctl (worker_turn E y (Received data addr)) \<noteq> Running \<longleftrightarrow>
      find_conn (env_stun E) (recv_into (sys_buf y) data) addr (sys_mux y) = None \<and>
      addr \<notin> new_addrs (sys_mux y) \<and>
      (\<exists>u. ufrag_from_stun_message (env_stun E) (recv_into (sys_buf y) data) False = Ok u \<and>
         (\<exists>msg. hex_to_cow (env_hex E) u = Panics msg))"
    using assms(2) by (auto simp: on_packet_def rep split: option.splits)
  then show ?thesis by (simp only: dec)
qed

text \<open>C35: The buffer is reused without being cleared: an empty datagram from an unknown address is examined as if it
  carried the STUN message that an earlier packet left in the buffer, and reports its sender under that
  message's ufrag.\<close>

theorem empty_datagram_reports_stale_message:
  assumes "find_conn (env_stun E) (sys_buf y) addr (sys_mux y) = None"
    and "addr \<notin> new_addrs (sys_mux y)"
    and "ufrag_from_stun_message (env_stun E) (sys_buf y) False = Ok ufrag"
    and "hex_to_cow (env_hex E) ufrag = Returns f"
    and "mpsc_try_send (env_mpsc E) (new_peer_multiaddr (env_ma E) addr f) (sys_chan y) = (True, q)"
  shows "reports y (worker_turn E y (Received [] addr)) addr \<and>
    sys_chan (worker_turn E y (Received [] addr)) = q"
proof -
  have "strip_colons ufrag = ufrag"
    using ufrag_no_colon [OF assms(3)] by (simp add: strip_colons_filter filter_neq_id)
  with assms show ?thesis by (simp add: on_packet_def report_new_addr_def reports_def recv_into_def)
qed

text \<open>The buffer handed to \<open>recv_from\<close> is 8192 bytes in every reachable state, so slicing the datagram out of it
  never panics, and the invariant of the mux tables holds throughout.\<close>

theorem worker_buffer_bound:
  assumes "udp_conn_laws (env_udp E)" and "run (sys_step E ord) (sys_new E cap w) ls y"
  shows "length (sys_buf y) = RECEIVE_MTU \<and> wf_mux (env_udp E) (sys_mux y) \<and>
    routes_known (env_udp E) (sys_mux y) (sys_world y)"
proof -
  have "length (sys_buf (sys_new E cap w)) = RECEIVE_MTU" by (simp add: sys_new_def)
  moreover have "sys_ok E (sys_new E cap w)"
    by (simp add: sys_ok_def mux_ok_def sys_new_def routes_known_def) (simp add: mux_new_def)
  ultimately show ?thesis
    using worker_buffer.invar_run [OF assms(2)] worker_mux.invar_run [OF assms(2)] assms(1)
    by (simp add: sys_ok_def mux_ok_def)
qed

lemma start_conn_worker_dead: "sys_ctl y \<noteq> Running \<Longrightarrow> start_conn_worker E y evs = y"
  by (cases evs) auto

text \<open>After its first panic, failed receive (a time-out excepted) or close signal the worker handles nothing any
  more: whatever arrives later, the state stays what that event left.\<close>

theorem worker_stops_for_good:
  assumes "sys_ctl y = Running"
    and "ev = ClosedChanged \<or> (\<exists>e. ev = RecvFailed e \<and> (\<forall>m. e \<noteq> Io (IoErr KTimedOut m))) \<or>
      (\<exists>msg. sys_ctl (worker_turn E y ev) = Crashed msg)"
  shows "start_conn_worker E y (ev # evs) = worker_turn E y ev \<and> sys_ctl (worker_turn E y ev) \<noteq> Running"
proof -
  have "sys_ctl (worker_turn E y ev) \<noteq> Running"
    using assms(2) by (cases "(E, y, ev)" rule: worker_turn.cases) auto
  with assms(1) start_conn_worker_dead show ?thesis by auto
qed

section \<open>Witnesses\<close>

text \<open>
  A peer at \<open>demo_peer\<close> whose fingerprint is all zeros sends the user name \<open>zz:0000...\<close>.
\<close>

definition demo_env ::
  "(nat protocol list, nat, u8 list, tconn, nat \<times> nat protocol list list \<times> bool, tworld) mux_env" where
  "demo_env = \<lparr>env_ma = list_ma, env_hex = ref_hex, env_stun = toy_stun, env_udp = toy_udp, env_mpsc = list_mpsc\<rparr>"

definition demo_fp :: "u8 list" where
  "demo_fp = replicate 32 0"

definition demo_ufrag :: string where
  "demo_ufrag = concat (map fmt_02x demo_fp)"

definition demo_packet :: "u8 list" where
  "demo_packet = toy_packet (''zz:'' @ demo_ufrag)"

definition demo_peer :: socket_addr where
  "demo_peer = SockV4 0x0a000001 5000"

definition demo_sys :: "(tconn, nat \<times> nat protocol list list \<times> bool, tworld) mux_sys" where
  "demo_sys = (sys_new demo_env 1 (tw_init\<lparr>tw_addrs := (\<lambda>_. [demo_peer])\<rparr>))
     \<lparr>sys_mux := mux_new\<lparr>conns := [(''ab'', (0, ''ab''))]\<rparr>\<rparr>"

lemma demo_env_sel [simp]:
  "env_ma demo_env = list_ma" "env_hex demo_env = ref_hex" "env_stun demo_env = toy_stun"
  "env_udp demo_env = toy_udp" "env_mpsc demo_env = list_mpsc"
  by (simp_all add: demo_env_def)

lemma demo_sys_sel [simp]:
  "sys_ctl demo_sys = Running" "new_addrs (sys_mux demo_sys) = {}" "address_map (sys_mux demo_sys) = Map.empty"
  "conns (sys_mux demo_sys) = [(''ab'', (0, ''ab''))]" "sys_chan demo_sys = (1, [], False)"
  "sys_world demo_sys = tw_init\<lparr>tw_addrs := (\<lambda>_. [demo_peer])\<rparr>" "closed_watch_tx (sys_mux demo_sys) = Some ()"
  by (simp_all add: demo_sys_def sys_new_def mux_new_def list_mpsc_def)

lemma demo_fp_length [simp]: "length demo_fp = 32"
  by (simp add: demo_fp_def)

lemma demo_ufrag_hex: "\<forall>c \<in> set demo_ufrag. is_hex_lower c"
  by (auto simp: demo_ufrag_def dest: fmt_02x_hex)

lemma demo_ufrag_length [simp]: "length demo_ufrag = 64"
proof -
  have "length (concat (map fmt_02x bs)) = 2 * length bs" for bs by (induction bs) auto
  then show ?thesis by (simp add: demo_ufrag_def)
qed

lemma demo_ufrag_no_colon: "CHR '':'' \<notin> set demo_ufrag"
  using demo_ufrag_hex hex_lower_not_colon by blast

lemma demo_hex [simp]: "hex_to_cow ref_hex demo_ufrag = Returns demo_fp"
  unfolding demo_ufrag_def by (rule hex_to_cow_encode [OF ref_hex_laws]) simp

lemma demo_strip [simp]: "strip_colons demo_ufrag = demo_ufrag"
  by (simp add: strip_colons_filter filter_neq_id demo_ufrag_no_colon)

lemma demo_name_utf8: "from_utf8 (into_bytes (''zz:'' @ demo_ufrag)) = Ok (''zz'' @ CHR '':'' # demo_ufrag)"
  using demo_ufrag_hex hex_lower_ascii by (subst from_utf8_into_bytes) (auto simp: is_ascii_def)

lemma demo_username [simp]:
  "ufrag_from_stun_message toy_stun (recv_into buf demo_packet) loc = Ok (if loc then ''zz'' else demo_ufrag)"
proof -
  have "stun_unmarshal_binary toy_stun (recv_into buf demo_packet) = Ok (into_bytes (''zz:'' @ demo_ufrag))"
    unfolding recv_into_def demo_packet_def
    by (subst toy_unmarshal_packet [symmetric]) (simp_all add: toy_stun_def)
  moreover have "stun_get_username toy_stun (into_bytes (''zz:'' @ demo_ufrag)) = (into_bytes (''zz:'' @ demo_ufrag), True)"
    by (simp add: toy_stun_def into_bytes_def)
  ultimately show ?thesis
    using demo_name_utf8 demo_ufrag_no_colon
    by (cases loc) (simp_all add: ufrag_from_stun_message_def split_on_append [of _ "''zz''", simplified] split_on_id)
qed

lemma demo_stun [simp]: "stun_is_message toy_stun (recv_into buf demo_packet)"
  by (simp add: toy_stun_def recv_into_def demo_packet_def toy_packet_def)

lemma demo_find_conn:
  "address_map s demo_peer = None \<Longrightarrow> map_of (conns s) ''zz'' = None \<Longrightarrow>
   find_conn toy_stun (recv_into buf demo_packet) demo_peer s = None"
  by (simp add: find_conn_def conn_from_stun_message_def)

lemma demo_turn:
  assumes "address_map (sys_mux y) demo_peer = None" and "map_of (conns (sys_mux y)) ''zz'' = None"
    and "demo_peer \<notin> new_addrs (sys_mux y)"
    and "mpsc_try_send list_mpsc (new_peer_multiaddr list_ma demo_peer demo_fp) (sys_chan y) = (True, q)"
  shows "worker_turn demo_env y (Received demo_packet demo_peer) =
    y\<lparr>sys_buf := recv_into (sys_buf y) demo_packet, sys_chan := q,
      sys_mux := (sys_mux y)\<lparr>new_addrs := insert demo_peer (new_addrs (sys_mux y))\<rparr>\<rparr>"
  using assms by (simp add: on_packet_def report_new_addr_def demo_find_conn)

abbreviation "demo_ma \<equiv> new_peer_multiaddr list_ma demo_peer demo_fp"

lemma demo_reports: "reports demo_sys (worker_turn demo_env demo_sys (Received demo_packet demo_peer)) demo_peer"
  by (subst demo_turn [where q = "(1, [demo_ma], False)"]) (simp_all add: reports_def)

lemma worker_report_roundtrip_witness:
  "\<exists>m. mpsc_queued list_mpsc (sys_chan (worker_turn demo_env demo_sys (Received demo_packet demo_peer))) = [m] \<and>
     multiaddr_to_socketaddr list_ma m = Some demo_peer"
proof -
  have "mpsc_queued list_mpsc (sys_chan demo_sys) = []" by (simp add: list_mpsc_def)
  then show ?thesis
    using worker_report_roundtrip [of demo_env demo_sys "Received demo_packet demo_peer" demo_peer]
      list_ma_laws ref_hex_laws list_mpsc_laws demo_reports
    by (auto simp: demo_peer_def)
qed

lemma worker_routes_packet_witness:
  "sys_world (worker_turn demo_env
       (demo_sys\<lparr>sys_mux := (sys_mux demo_sys)\<lparr>conns := [(''zz'', (1, ''zz''))]\<rparr>\<rparr>) (Received demo_packet demo_peer)) =
     snd (conn_write_packet toy_udp (1, ''zz'') demo_packet demo_peer (sys_world demo_sys))"
proof -
  let ?y = "demo_sys\<lparr>sys_mux := (sys_mux demo_sys)\<lparr>conns := [(''zz'', (1, ''zz''))]\<rparr>\<rparr>"
  have "address_map (sys_mux ?y) demo_peer = None \<and>
      stun_is_message (env_stun demo_env) (recv_into (sys_buf ?y) demo_packet) \<and>
      ufrag_from_stun_message (env_stun demo_env) (recv_into (sys_buf ?y) demo_packet) True = Ok ''zz'' \<and>
      map_of (conns (sys_mux ?y)) ''zz'' = Some (1, ''zz'')" by simp
  from worker_routes_packet [OF disjI2, OF this] show ?thesis by simp
qed

text \<open>Report, register, remove, report again: the address is forgotten in between.\<close>

definition demo_sys1 :: "(tconn, nat \<times> nat protocol list list \<times> bool, tworld) mux_sys" where
  "demo_sys1 = demo_sys\<lparr>sys_buf := recv_into (sys_buf demo_sys) demo_packet, sys_chan := (1, [demo_ma], False),
      sys_mux := (sys_mux demo_sys)\<lparr>new_addrs := {demo_peer}\<rparr>\<rparr>"

definition demo_sys2 :: "(tconn, nat \<times> nat protocol list list \<times> bool, tworld) mux_sys" where
  "demo_sys2 = demo_sys1\<lparr>sys_mux := (sys_mux demo_sys)\<lparr>new_addrs := {}, address_map := [demo_peer \<mapsto> (0, ''ab'')]\<rparr>\<rparr>"

definition demo_sys3 :: "(tconn, nat \<times> nat protocol list list \<times> bool, tworld) mux_sys" where
  "demo_sys3 = demo_sys1\<lparr>sys_mux := (sys_mux demo_sys)\<lparr>conns := []\<rparr>\<rparr>"

lemma fits_demo: "fits (Received demo_packet demo_peer)"
  by (simp add: fits_def demo_packet_def toy_packet_def RECEIVE_MTU_def)

lemma demo_turn1: "worker_turn demo_env demo_sys (Received demo_packet demo_peer) = demo_sys1"
  by (subst demo_turn [where q = "(1, [demo_ma], False)"]) (simp_all add: demo_sys1_def)

lemma demo_step1: "sys_step demo_env rev demo_sys (SysWorker (Received demo_packet demo_peer)) demo_sys1"
  using sys_step.sys_worker [of demo_sys "Received demo_packet demo_peer" demo_env rev] fits_demo demo_turn1 by simp

lemma demo_step2: "sys_step demo_env rev demo_sys1 (SysOp (OpRegister (0, ''ab'') demo_peer)) demo_sys2"
proof -
  have "register_conn_for_address toy_udp (0, ''ab'') demo_peer (sys_mux demo_sys1) (sys_world demo_sys1) =
      (sys_mux demo_sys2, sys_world demo_sys1)"
    by (simp add: register_conn_for_address_def register_entry_def is_closed_def demo_sys1_def demo_sys2_def)
  moreover have "demo_peer \<in> set (conn_get_addresses toy_udp (0, ''ab'') (sys_world demo_sys1))"
    by (simp add: toy_udp_def demo_sys1_def)
  ultimately have "mux_op_step (env_udp demo_env) rev (sys_mux demo_sys1, sys_world demo_sys1)
      (OpRegister (0, ''ab'') demo_peer) (sys_mux demo_sys2, sys_world demo_sys1)"
    by (simp add: mux_op_step.step_register)
  from sys_step.sys_op [OF this] show ?thesis by (simp add: demo_sys2_def)
qed

lemma demo_step3: "sys_step demo_env rev demo_sys2 (SysOp (OpRemove ''ab'')) demo_sys3"
proof -
  have "remove_conn_by_ufrag toy_udp ''ab'' (sys_mux demo_sys2) (sys_world demo_sys2) = sys_mux demo_sys3"
    by (simp add: remove_conn_by_ufrag_def remove_addresses_def toy_udp_def demo_sys1_def demo_sys2_def demo_sys3_def
        Let_def)
  then have "mux_op_step (env_udp demo_env) rev (sys_mux demo_sys2, sys_world demo_sys2)
      (OpRemove ''ab'') (sys_mux demo_sys3, sys_world demo_sys2)"
    using mux_op_step.step_remove [of toy_udp rev "sys_mux demo_sys2" "sys_world demo_sys2" "''ab''"] by simp
  from sys_step.sys_op [OF this] show ?thesis by (simp add: demo_sys3_def demo_sys2_def)
qed

lemma report_once_until_registered_witness:
  "\<exists>k \<in> set [SysOp (OpRegister (0 :: nat, ''ab'') demo_peer), SysOp (OpRemove ''ab'')]. forgets demo_peer k"
proof -
  let ?z = "worker_turn demo_env demo_sys3 (Received demo_packet demo_peer)"
  have r1: "mpsc_queued (env_mpsc demo_env) (sys_chan demo_sys1) \<noteq> mpsc_queued (env_mpsc demo_env) (sys_chan demo_sys)"
    by (simp add: demo_sys1_def)
  have mid: "run (sys_step demo_env rev) demo_sys1
      [SysOp (OpRegister (0, ''ab'') demo_peer), SysOp (OpRemove ''ab'')] demo_sys3"
    using demo_step2 demo_step3 by (blast intro: run_intros)
  have "sys_ctl demo_sys3 = Running" by (simp add: demo_sys3_def demo_sys1_def)
  then have s: "sys_step demo_env rev demo_sys3 (SysWorker (Received demo_packet demo_peer)) ?z"
    using fits_demo by (rule sys_step.sys_worker)
  have r2: "mpsc_queued (env_mpsc demo_env) (sys_chan ?z) \<noteq> mpsc_queued (env_mpsc demo_env) (sys_chan demo_sys3)"
    by (subst demo_turn [where q = "(1, [demo_ma, demo_ma], False)"])
       (simp_all add: demo_sys3_def demo_sys1_def)
  have "mpsc_laws (env_mpsc demo_env)" by (simp add: list_mpsc_laws)
  from report_once_until_registered [OF this demo_step1 r1 mid s r2] show ?thesis .
qed

lemma refused_report_is_retried_witness:
  "demo_peer \<notin> new_addrs (sys_mux (worker_turn demo_env (demo_sys\<lparr>sys_chan := (1, [[], []], False)\<rparr>)
      (Received demo_packet demo_peer)))"
proof -
  let ?y = "demo_sys\<lparr>sys_chan := (1, [[], []], False)\<rparr>"
  have "find_conn (env_stun demo_env) (recv_into (sys_buf ?y) demo_packet) demo_peer (sys_mux ?y) = None"
    by (simp add: demo_find_conn)
  then show ?thesis
    using refused_report_is_retried [of demo_env ?y demo_packet demo_peer demo_ufrag demo_fp
        "worker_turn demo_env ?y (Received demo_packet demo_peer)" "(1, [], False)"]
    by (simp add: list_mpsc_laws)
qed

text \<open>A nine-byte packet with the user name \<open>zz:nohex\<close> is enough to stop the worker.\<close>

lemma nohex_username:
  "ufrag_from_stun_message toy_stun (recv_into buf (toy_packet ''zz:nohex'')) loc =
     Ok (if loc then ''zz'' else ''nohex'')"
proof -
  have "stun_unmarshal_binary toy_stun (recv_into buf (toy_packet ''zz:nohex'')) = Ok (into_bytes ''zz:nohex'')"
    unfolding recv_into_def by (subst toy_unmarshal_packet [symmetric]) (simp_all add: toy_stun_def)
  moreover have "stun_get_username toy_stun (into_bytes ''zz:nohex'') = (into_bytes ''zz:nohex'', True)"
    by (simp add: toy_stun_def into_bytes_def)
  moreover have "from_utf8 (into_bytes ''zz:nohex'') = Ok ''zz:nohex''"
    by (rule from_utf8_into_bytes) (simp add: is_ascii_def)
  ultimately show ?thesis by (simp add: ufrag_from_stun_message_def)
qed

lemma worker_panics_iff_witness:
  "sys_ctl (worker_turn demo_env demo_sys (Received (toy_packet ''zz:nohex'') demo_peer)) \<noteq> Running"
proof -
  have "find_conn (env_stun demo_env) (recv_into (sys_buf demo_sys) (toy_packet ''zz:nohex'')) demo_peer
      (sys_mux demo_sys) = None"
    by (simp add: find_conn_def conn_from_stun_message_def nohex_username)
  then show ?thesis
    using worker_panics_iff [of demo_env demo_sys "toy_packet ''zz:nohex''" demo_peer] ref_hex_laws
    by (simp add: nohex_username)
qed

lemma empty_datagram_reports_stale_message_witness:
  "reports (demo_sys\<lparr>sys_buf := recv_into (sys_buf demo_sys) demo_packet\<rparr>)
     (worker_turn demo_env (demo_sys\<lparr>sys_buf := recv_into (sys_buf demo_sys) demo_packet\<rparr>) (Received [] demo_peer))
     demo_peer"
proof -
  let ?y = "demo_sys\<lparr>sys_buf := recv_into (sys_buf demo_sys) demo_packet\<rparr>"
  have "find_conn (env_stun demo_env) (sys_buf ?y) demo_peer (sys_mux ?y) = None" by (simp add: demo_find_conn)
  then show ?thesis
    using empty_datagram_reports_stale_message [of demo_env ?y demo_peer demo_ufrag demo_fp "(1, [demo_ma], False)"]
    by simp
qed

lemma worker_buffer_bound_witness:
  "length (sys_buf (sys_new demo_env 1 tw_init)) = RECEIVE_MTU"
  using worker_buffer_bound [of demo_env rev 1 tw_init "[]" "sys_new demo_env 1 tw_init"] toy_udp_laws
  by (simp add: run_intros)

lemma worker_stops_for_good_witness:
  "start_conn_worker demo_env demo_sys [ClosedChanged, Received demo_packet demo_peer] = demo_sys\<lparr>sys_ctl := Stopped\<rparr>"
  using worker_stops_for_good [of demo_sys ClosedChanged demo_env "[Received demo_packet demo_peer]"] by simp

end
