(* ===== verification/Webrtc_Transport.thy ===== *)
theory Webrtc_Transport
  imports Listener Udp_Mux_Worker
begin

text \<open>
  \<open>WebRTCDirectTransport\<close> of \<open>src/transport.rs\<close>: construction and the methods of the \<open>Transport\<close> trait. The
  parts it ties together are the UDP mux with its worker, the dialer and the listen stream.
\<close>

section \<open>Operations\<close>

datatype ('ma, 'e) transport_error = MultiaddrNotSupported 'ma | Other 'e

text \<open>
  \<open>UdpSocket::bind\<close> and \<open>UdpSocket::local_addr\<close> of \<open>tokio\<close>; \<open>arc_mux\<close> is the shared pointer to the new mux.
\<close>

record ('la, 'so, 'w) socket_api =
  udp_bind :: "'la \<Rightarrow> ('w, ('so, io_error) result) world_call"
  udp_local_addr :: "'so \<Rightarrow> 'w \<Rightarrow> (socket_addr, io_error) result"

text \<open>
  A new transport comes with the system behind it: the mux, its worker and the channel of capacity 1 between
  the worker and the listeners.
\<close>

definition transport_new ::
  "('la, 'so, 'w) socket_api \<Rightarrow> ('ma, 'h, 'm, 'c, 'q, 'w) mux_env \<Rightarrow> 'o \<Rightarrow> 'r \<Rightarrow> 'o \<Rightarrow> 'o \<Rightarrow> 'la \<Rightarrow> 'w \<Rightarrow>
   (('o, 'r) webrtc_direct_transport \<times> ('c, 'q, 'w) mux_sys, ('ma, ('ma, 'pid, 'x) error) transport_error) result" where
  "transport_new K E arc_mux rx certificate id_keys listen_addr w =
     (case udp_bind K listen_addr w of
        (Err e, w') \<Rightarrow> Err (Other (IoError e))
      | (Ok socket, w') \<Rightarrow>
          (case udp_local_addr K socket w' of
             Err e \<Rightarrow> Err (Other (IoError e))
           | Ok udp_mux_addr \<Rightarrow>
               Ok (\<lparr>tr_config = [certificate], tr_udp_mux = arc_mux, tr_udp_mux_addr = udp_mux_addr,
                    tr_new_addr_rx = rx, tr_id_keys = id_keys\<rparr>,
                   sys_new E 1 w')))"

definition listen_on ::
  "('ma, 'h) multiaddr_api \<Rightarrow> ('o, 'w) if_watch_api \<Rightarrow> ('o, 'r) webrtc_direct_transport \<Rightarrow> 'ma \<Rightarrow>
   ('w, (('ma, 'o, 'r) listen_stream, ('ma, ('ma, 'pid, 'x) error) transport_error) result) world_call" where
  "listen_on M L self addr w =
     (case listen_stream_new M L (tr_udp_mux_addr self) (tr_config self) (tr_udp_mux self) (tr_new_addr_rx self)
        (tr_id_keys self) w of (ls, w') \<Rightarrow> (Ok ls, w'))"

definition dial ::
  "('ma, 'pid, 'o, 'x, 'w) rtc_api \<Rightarrow> ('o, 'w) data_channel_api \<Rightarrow> ('o, 'iq) mpsc_api \<Rightarrow>
   ('ma, 'h) multiaddr_api \<Rightarrow> ('tt, description_context, 'te) tt_api \<Rightarrow>
   ('o, 'r) webrtc_direct_transport \<Rightarrow> 'ma \<Rightarrow>
   (('ma, 'pid, 'o, 'x, 'iq, 'w) upgrade_future, ('ma, ('ma, 'pid, 'x) error) transport_error) result" where
  "dial A D C M T self addr = Ok (do_dial A D C M T self addr)"

definition dial_as_listener ::
  "('ma, 'pid, 'o, 'x, 'w) rtc_api \<Rightarrow> ('o, 'w) data_channel_api \<Rightarrow> ('o, 'iq) mpsc_api \<Rightarrow>
   ('ma, 'h) multiaddr_api \<Rightarrow> ('tt, description_context, 'te) tt_api \<Rightarrow>
   ('o, 'r) webrtc_direct_transport \<Rightarrow> 'ma \<Rightarrow>
   (('ma, 'pid, 'o, 'x, 'iq, 'w) upgrade_future, ('ma, ('ma, 'pid, 'x) error) transport_error) result" where
  "dial_as_listener A D C M T self addr = dial A D C M T self addr"

text \<open>\<open>libp2p_core::address_translation\<close> is a function of the library.\<close>

definition address_translation ::
  "('ma \<Rightarrow> 'ma \<Rightarrow> 'ma option) \<Rightarrow> ('o, 'r) webrtc_direct_transport \<Rightarrow> 'ma \<Rightarrow> 'ma \<Rightarrow> 'ma option" where
  "address_translation core_address_translation self server observed = core_address_translation server observed"

text \<open>
  The combinators of \<open>libp2p_core\<close> that \<open>boxed\<close> uses: \<open>Transport::map\<close>, \<open>Transport::boxed\<close> and \<open>StreamMuxerBox::new\<close>. The
  function given to \<open>map\<close> gets the output and the connected point. The last two fields are used by the law only:
  dialing with the resulting transport, and the I/O error that an error is boxed into.
\<close>

record ('t, 'mt, 'bt, 'out, 'out2, 'cp, 'conn, 'box, 'ma, 'e, 'w) transport_lib =
  tl_map :: "'t \<Rightarrow> ('out \<Rightarrow> 'cp \<Rightarrow> 'out2) \<Rightarrow> 'mt"
  tl_boxed :: "'mt \<Rightarrow> 'bt"
  muxer_box_new :: "'conn \<Rightarrow> 'box"
  tl_dial :: "'bt \<Rightarrow> 'ma \<Rightarrow> ('w, 'out2, io_error) async_fn"
  tl_box_error :: "'e \<Rightarrow> io_error"

definition boxed ::
  "('t, 'mt, 'bt, 'pid \<times> 'conn, 'pid \<times> 'box, 'cp, 'conn, 'box, 'ma, 'e, 'w) transport_lib \<Rightarrow> 't \<Rightarrow> 'bt" where
  "boxed K self = tl_boxed K (tl_map K self (\<lambda>(peer_id, conn) _. (peer_id, muxer_box_new K conn)))"

text \<open>Dialing with a mapped and boxed transport is dialing with the transport, with the function applied to its output.\<close>

definition transport_lib_laws ::
  "('t, 'mt, 'bt, 'out, 'out2, 'cp, 'conn, 'box, 'ma, 'e, 'w) transport_lib \<Rightarrow>
   ('t \<Rightarrow> 'ma \<Rightarrow> ('w, 'out, 'e) async_fn) \<Rightarrow> bool" where
  "transport_lib_laws K dial_with \<longleftrightarrow>
     (\<forall>t f addr w. \<exists>cp. tl_dial K (tl_boxed K (tl_map K t f)) addr w =
        (case dial_with t addr w of
           (Returns (Ok out), w') \<Rightarrow> (Returns (Ok (f out cp)), w')
         | (Returns (Err e), w') \<Rightarrow> (Returns (Err (tl_box_error K e)), w')
         | (Panics msg, w') \<Rightarrow> (Panics msg, w')))"

text \<open>The boxed transport connects to a peer exactly when the transport does, to the same peer and connection.\<close>

lemma boxed_dial:
  assumes "transport_lib_laws K (do_dial A D C M T)"
  shows "tl_dial K (boxed K self) addr w = (Returns (Ok (peer_id, b)), w') \<longleftrightarrow>
    (\<exists>conn. do_dial A D C M T self addr w = (Returns (Ok (peer_id, conn)), w') \<and> b = muxer_box_new K conn)"
  using assms [unfolded transport_lib_laws_def, rule_format, of self
    "\<lambda>(peer_id, conn) _. (peer_id, muxer_box_new K conn)" addr w] unfolding boxed_def
  by (elim exE) (auto split: prod.splits outcome.splits result.splits)

section \<open>Properties\<close>

text \<open>A new transport is ready to use: its mux is open with empty tables and a running worker, the channel
  between worker and listeners is open and empty, its certificate is the one given, so that asking for its
  fingerprint cannot panic for lack of one, and a listener made from it, whatever address is asked for,
  listens on the address the socket was actually bound to; constructing it fails only with the socket's own
  I/O error.\<close>

theorem transport_new_ready:
  fixes A :: "('ma, 'pid, 'o, 'x, 'v) rtc_api"
  assumes "mpsc_laws (env_mpsc E)"
  shows "(case transport_new K E arc_mux rx certificate id_keys listen_addr w of
      Ok (self, sys) \<Rightarrow>
        (\<exists>socket w'. udp_bind K listen_addr w = (Ok socket, w') \<and>
           udp_local_addr K socket w' = Ok (tr_udp_mux_addr self)) \<and>
        conns (sys_mux sys) = [] \<and> address_map (sys_mux sys) = Map.empty \<and> is_closed (sys_mux sys) = False \<and>
        sys_ctl sys = Running \<and> mpsc_queued (env_mpsc E) (sys_chan sys) = [] \<and>
        mpsc_closed (env_mpsc E) (sys_chan sys) = False \<and>
        (\<forall>v vs. rtc_get_fingerprints A certificate = Ok (v # vs) \<longrightarrow> cert_fingerprint A self = Returns v) \<and>
        (\<forall>M L addr u. \<exists>ls u'. listen_on M L self addr u = (Ok ls, u') \<and> ls_listen_addr ls = tr_udp_mux_addr self \<and>
           ls_pause ls = None)
    | Err err \<Rightarrow> \<exists>e. err = Other (IoError e :: ('ma, 'pid, 'x) error))"
  using mpsc_new [OF assms]
  by (auto simp: transport_new_def sys_new_def mux_new_def is_closed_def cert_fingerprint_def
      fingerprint_of_first_certificate_def listen_on_def listen_stream_new_def Let_def
      split: prod.splits result.splits)

definition demo_socket :: "(socket_addr, socket_addr, tworld) socket_api" where
  "demo_socket = \<lparr>udp_bind = (\<lambda>a w. (Ok a, w)), udp_local_addr = (\<lambda>a w. Ok a)\<rparr>"

lemma transport_new_ready_witness:
  "(case (transport_new demo_socket demo_env (0 :: nat) () 3 0 (SockV4 0 9000) tw_init ::
      (_, (_, (_, nat, string) error) transport_error) result) of
      Ok (self, sys) \<Rightarrow> tr_udp_mux_addr self = SockV4 0 9000 \<and> mpsc_queued list_mpsc (sys_chan sys) = []
    | Err err \<Rightarrow> False)"
proof -
  have laws: "mpsc_laws (env_mpsc demo_env)" by (simp add: list_mpsc_laws)
  have new: "(transport_new demo_socket demo_env (0 :: nat) () 3 0 (SockV4 0 9000) tw_init ::
      (_, (_, (_, nat, string) error) transport_error) result) =
    Ok (\<lparr>tr_config = [3], tr_udp_mux = 0, tr_udp_mux_addr = SockV4 0 9000, tr_new_addr_rx = (), tr_id_keys = 0\<rparr>,
        sys_new demo_env 1 tw_init)"
    by (simp add: transport_new_def demo_socket_def)
  show ?thesis
    using transport_new_ready [OF laws, where K = demo_socket and arc_mux = "0 :: nat" and rx = "()" and certificate = 3
      and id_keys = 0 and listen_addr = "SockV4 0 9000" and w = tw_init and A = toy_rtc]
    unfolding new by (simp add: sys_new_def)
qed

end
