(* ===== verification/Udp_Mux_Conc.thy ===== *)
theory Udp_Mux_Conc
  imports Udp_Mux
begin

text \<open>
  The operations of the UDP mux as concurrent tasks. Each operation of \<open>src/udp_mux.rs\<close> takes and releases
  several locks; here it is a task whose program counter names the next section executed under one lock, and
  the sections of different tasks interleave arbitrarily. A task spawned by \<open>get_conn\<close> joins the others: waiting
  for its connection to close is over-approximated by letting it go on at any time.
\<close>

section \<open>Tasks\<close>

datatype 'c mux_ret =
  CloseRet "(unit, util_error) result"
| GetRet "('c, util_error) result"
| RemoveRet
| RegisterRet

datatype 'c pc =
  CloseStart
| CloseLock
| CloseConns
| CloseLoop "(string, 'c) hashmap"
| CloseAddrs
| CloseNewAddrs
| GetStart string
| GetLock string
| CleanupWait string
| RemoveStart string
| RemoveAddrs 'c
| RegisterStart 'c socket_addr
| RegisterMap 'c socket_addr
| RegisterNew 'c socket_addr
| Finished "'c mux_ret"

text \<open>One section of a task: where it goes on, the tasks it spawns, and the shared state afterwards.\<close>

fun task_step ::
  "('c, 'w) udp_conn_api \<Rightarrow> ((string, 'c) hashmap \<Rightarrow> (string, 'c) hashmap) \<Rightarrow>
   'c pc \<Rightarrow> 'c udp_mux \<Rightarrow> 'w \<Rightarrow> 'c pc \<times> 'c pc list \<times> 'c udp_mux \<times> 'w" where
  "task_step U ord CloseStart s w =
     (if is_closed s then Finished (CloseRet (Err ErrAlreadyClosed)) else CloseLock, [], s, w)"
| "task_step U ord CloseLock s w =
     (case closed_watch_tx s of
        Some tx \<Rightarrow> (CloseConns, [], s\<lparr>closed_watch_tx := None\<rparr>, w)
      | None \<Rightarrow> (Finished (CloseRet (Ok ())), [], s, w))"
| "task_step U ord CloseConns s w = (CloseLoop (ord (conns s)), [], s\<lparr>conns := []\<rparr>, w)"
| "task_step U ord (CloseLoop []) s w = (CloseAddrs, [], s, w)"
| "task_step U ord (CloseLoop ((_, c) # cs)) s w = (CloseLoop cs, [], s, conn_close U c w)"
| "task_step U ord CloseAddrs s w = (CloseNewAddrs, [], s\<lparr>address_map := Map.empty\<rparr>, w)"
| "task_step U ord CloseNewAddrs s w = (Finished (CloseRet (Ok ())), [], s\<lparr>new_addrs := {}\<rparr>, w)"
| "task_step U ord (GetStart u) s w =
     (if is_closed s then Finished (GetRet (Err ErrUseClosedNetworkConn)) else GetLock u, [], s, w)"
| "task_step U ord (GetLock u) s w =
     (case map_of (conns s) u of
        Some c \<Rightarrow> (Finished (GetRet (Ok c)), [], s, w)
      | None \<Rightarrow>
          (case create_muxed_conn U u w of
             (Err e, w') \<Rightarrow> (Finished (GetRet (Err e)), [], s, w')
           | (Ok c, w') \<Rightarrow>
               (Finished (GetRet (Ok c)), [CleanupWait u], s\<lparr>conns := AList.update u c (conns s)\<rparr>, w')))"
| "task_step U ord (CleanupWait u) s w = (RemoveStart u, [], s, w)"
| "task_step U ord (RemoveStart u) s w =
     (case map_of (conns s) u of Some c \<Rightarrow> RemoveAddrs c | None \<Rightarrow> Finished RemoveRet,
      [], s\<lparr>conns := AList.delete u (conns s)\<rparr>, w)"
| "task_step U ord (RemoveAddrs c) s w =
     (Finished RemoveRet, [], s\<lparr>address_map := remove_addresses (conn_get_addresses U c w) (address_map s)\<rparr>, w)"
| "task_step U ord (RegisterStart c a) s w =
     (if is_closed s then Finished RegisterRet else RegisterMap c a, [], s, w)"
| "task_step U ord (RegisterMap c a) s w =
     (case register_entry U c a (address_map s) w of
        (m, w') \<Rightarrow> (RegisterNew c a, [], s\<lparr>address_map := m\<rparr>, w'))"
| "task_step U ord (RegisterNew c a) s w = (Finished RegisterRet, [], s\<lparr>new_addrs := new_addrs s - {a}\<rparr>, w)"
| "task_step U ord (Finished r) s w = (Finished r, [], s, w)"

text \<open>A configuration is the list of tasks, the mux and the outside world; a step is labelled with its task.\<close>

type_synonym ('c, 'w) conc = "'c pc list \<times> 'c udp_mux \<times> 'w"

inductive conc_step ::
  "('c, 'w) udp_conn_api \<Rightarrow> ((string, 'c) hashmap \<Rightarrow> (string, 'c) hashmap) \<Rightarrow>
   ('c, 'w) conc \<Rightarrow> nat \<Rightarrow> ('c, 'w) conc \<Rightarrow> bool"
  for U ord where
  conc: "i < length ts \<Longrightarrow> task_step U ord (ts ! i) s w = (pc, spawned, s', w') \<Longrightarrow>
    conc_step U ord (ts, s, w) i (ts[i := pc] @ spawned, s', w')"

inductive_cases conc_stepE [elim!]: "conc_step U ord (ts, s, w) i z"

section \<open>A task on its own\<close>

fun alone ::
  "('c, 'w) udp_conn_api \<Rightarrow> ((string, 'c) hashmap \<Rightarrow> (string, 'c) hashmap) \<Rightarrow>
   nat \<Rightarrow> 'c pc \<Rightarrow> 'c udp_mux \<Rightarrow> 'w \<Rightarrow> 'c pc \<times> 'c udp_mux \<times> 'w" where
  "alone U ord 0 pc s w = (pc, s, w)"
| "alone U ord (Suc n) pc s w = (case task_step U ord pc s w of (pc', _, s', w') \<Rightarrow> alone U ord n pc' s' w')"

lemma alone_loop:
  "alone U ord (Suc (Suc (Suc (length cs)))) (CloseLoop cs) s w =
     (Finished (CloseRet (Ok ())), s\<lparr>address_map := Map.empty, new_addrs := {}\<rparr>, close_conns U cs w)"
proof (induction cs arbitrary: w)
  case Nil
  show ?case by simp
next
  case (Cons x cs)
  then show ?case by (cases x) simp
qed

lemma alone_close:
  assumes "iterates ord" and "close U ord s w = (r, s', w')"
  shows "alone U ord (length (conns s) + 6) CloseStart s w = (Finished (CloseRet r), s', w')"
proof (cases "is_closed s")
  case True
  have "alone U ord n (Finished (CloseRet r)) s w = (Finished (CloseRet r), s, w)" for n by (induction n) simp_all
  with True assms(2) show ?thesis by (auto simp: close_def eval_nat_numeral)
next
  case False
  have len: "length (ord (conns s)) = length (conns s)"
    using assms(1) by (metis iterates_def size_mset)
  have "alone U ord (length (conns s) + 6) CloseStart s w =
      alone U ord (Suc (Suc (Suc (length (ord (conns s)))))) (CloseLoop (ord (conns s))) (s\<lparr>closed_watch_tx := None, conns := []\<rparr>) w"
    using False by (auto simp: is_closed_def eval_nat_numeral len)
  with False assms(2) show ?thesis
    unfolding alone_loop by (auto simp: close_def is_closed_def Let_def)
qed

lemma alone_get:
  assumes "get_conn U u s w = (r, s', t, w')"
  shows "alone U ord 2 (GetStart u) s w = (Finished (GetRet r), s', w')"
  using assms by (auto simp: get_conn_def eval_nat_numeral split: if_splits option.splits prod.splits result.splits)

lemma alone_remove:
  "alone U ord 2 (RemoveStart u) s w = (Finished RemoveRet, remove_conn_by_ufrag U u s w, w)"
  by (auto simp: remove_conn_by_ufrag_def eval_nat_numeral Let_def split: option.splits)

lemma alone_register:
  assumes "register_conn_for_address U c a s w = (s', w')"
  shows "alone U ord 3 (RegisterStart c a) s w = (Finished RegisterRet, s', w')"
  using assms by (auto simp: register_conn_for_address_def eval_nat_numeral split: if_splits prod.splits)

section \<open>Invariants of all interleavings\<close>

lemma wf_mux_task_step:
  assumes "udp_conn_laws U" and "wf_mux U s" and "task_step U ord p s w = (p', spawned, s', w')"
  shows "wf_mux U s'"
proof -
  have key: "map_of (conns s) u = None \<Longrightarrow> create_muxed_conn U u w = (Ok c, v) \<Longrightarrow>
      wf_mux U (s\<lparr>conns := AList.update u c (conns s)\<rparr>)" for u c v
    using assms(2) create_muxed_conn_key [OF assms(1)] by (auto simp: wf_mux_def)
  show ?thesis
    using assms(2,3) key
    by (cases "(U, ord, p, s, w)" rule: task_step.cases)
       (auto simp: wf_mux_def split: if_splits option.splits prod.splits result.splits)
qed

text \<open>A task that has taken the close signal and is tearing the mux down.\<close>

fun tearing :: "'c pc \<Rightarrow> bool" where
  "tearing CloseConns = True"
| "tearing (CloseLoop cs) = True"
| "tearing CloseAddrs = True"
| "tearing CloseNewAddrs = True"
| "tearing _ = False"

definition teardowns :: "'c pc list \<Rightarrow> nat" where
  "teardowns ts = length (filter tearing ts)"

lemma teardowns_simps [simp]:
  "teardowns [] = 0" "teardowns (p # ts) = (if tearing p then 1 else 0) + teardowns ts"
  "teardowns (ts @ us) = teardowns ts + teardowns us"
  by (simp_all add: teardowns_def)

lemma teardowns_update:
  assumes "i < length ts"
  shows "teardowns (ts[i := p] @ us) + (if tearing (ts ! i) then 1 else 0) =
    teardowns ts + (if tearing p then 1 else 0) + teardowns us"
  using arg_cong [OF id_take_nth_drop [OF assms], of teardowns] assms
  by (simp add: upd_conv_take_nth_drop)

definition conc_ok :: "('c, 'w) udp_conn_api \<Rightarrow> ('c, 'w) conc \<Rightarrow> bool" where
  "conc_ok U = (\<lambda>(ts, s, w). (udp_conn_laws U \<longrightarrow> wf_mux U s) \<and> teardowns ts \<le> (if is_closed s then 1 else 0))"

lemma task_step_spawned: "task_step U ord p s w = (p', spawned, s', w') \<Longrightarrow> teardowns spawned = 0"
  by (cases "(U, ord, p, s, w)" rule: task_step.cases)
     (auto split: if_splits option.splits prod.splits result.splits)

lemma task_step_closed:
  "task_step U ord p s w = (p', spawned, s', w') \<Longrightarrow>
   is_closed s' = (is_closed s \<or> p = CloseLock) \<and> tearing p' = (tearing p \<and> p \<noteq> CloseNewAddrs \<or> p = CloseLock \<and> \<not> is_closed s)"
  by (cases "(U, ord, p, s, w)" rule: task_step.cases)
     (auto simp: is_closed_def split: if_splits option.splits prod.splits result.splits)

interpretation interleaving: step_invariant "conc_step U ord" "conc_ok U"
  for U :: "('c, 'w) udp_conn_api" and ord
proof unfold_locales
  fix c i d
  assume step: "conc_step U ord c i d" and ok: "conc_ok U c"
  obtain ts s w where c: "c = (ts, s, w)" by (metis surj_pair)
  from step [unfolded c] obtain p sp s' w' where i: "i < length ts"
    and t: "task_step U ord (ts ! i) s w = (p, sp, s', w')" and d: "d = (ts[i := p] @ sp, s', w')" by auto
  from teardowns_update [OF i, of p sp] task_step_spawned [OF t] task_step_closed [OF t] ok c
  have "teardowns (ts[i := p] @ sp) \<le> (if is_closed s' then 1 else 0)"
    by (auto simp: conc_ok_def split: if_splits)
  with wf_mux_task_step [OF _ _ t] ok c d show "conc_ok U d" by (simp add: conc_ok_def)
qed

text \<open>
  Only the first \<open>length us\<close> tasks run, each a call of \<open>get_conn\<close>: what a finished one returned is what the table
  holds under its ufrag.
\<close>

fun get_at :: "string \<Rightarrow> 'c udp_mux \<Rightarrow> 'c pc \<Rightarrow> bool" where
  "get_at u s (GetStart v) = (v = u)"
| "get_at u s (GetLock v) = (v = u)"
| "get_at u s (Finished (GetRet (Err e))) = True"
| "get_at u s (Finished (GetRet (Ok c))) = (map_of (conns s) u = Some c)"
| "get_at u s _ = False"

lemma get_at_step:
  assumes "get_at u s p" and "task_step U ord p s w = (p', spawned, s', w')"
  shows "get_at u s' p'" and "map_of (conns s) \<subseteq>\<^sub>m map_of (conns s')"
  using assms
  by (cases "(u, s, p)" rule: get_at.cases,
      auto simp: map_le_def split: if_splits option.splits prod.splits result.splits)+

lemma get_at_grow: "get_at u s p \<Longrightarrow> map_of (conns s) \<subseteq>\<^sub>m map_of (conns s') \<Longrightarrow> get_at u s' p"
  by (cases "(u, s, p)" rule: get_at.cases) (auto simp: map_le_def dom_def)

definition get_agreed :: "string list \<Rightarrow> ('c, 'w) conc \<Rightarrow> bool" where
  "get_agreed us = (\<lambda>(ts, s, w). length us \<le> length ts \<and> (\<forall>i < length us. get_at (us ! i) s (ts ! i)))"

lemma get_agreed_step:
  assumes "conc_step U ord c i d" and "get_agreed us c" and "i < length us"
  shows "get_agreed us d"
proof -
  obtain ts s w where c: "c = (ts, s, w)" by (metis surj_pair)
  from assms(1) [unfolded c] obtain p sp s' w' where
    t: "task_step U ord (ts ! i) s w = (p, sp, s', w')" and d: "d = (ts[i := p] @ sp, s', w')" by auto
  have len: "length us \<le> length ts" and at: "\<And>j. j < length us \<Longrightarrow> get_at (us ! j) s (ts ! j)"
    using assms(2) c by (auto simp: get_agreed_def)
  note new = get_at_step [OF at [OF assms(3)] t]
  have "get_at (us ! j) s' ((ts[i := p] @ sp) ! j)" if "j < length us" for j
    using that len new(1) get_at_grow [OF at [OF that] new(2)] assms(3)
    by (cases "j = i") (simp_all add: nth_append)
  with len show ?thesis by (simp add: d get_agreed_def)
qed

lemma get_agreed_run:
  assumes "run (conc_step U ord) c is d" and "get_agreed us c" and "\<forall>i \<in> set is. i < length us"
  shows "get_agreed us d"
  using assms
proof (induction rule: run.induct)
  case (run_cons s l t ls u)
  with get_agreed_step [OF run_cons(1)] show ?case by simp
qed simp

section \<open>Schedules as functions\<close>

text \<open>The configuration a schedule leads to, for evaluating concrete interleavings.\<close>

fun schedule ::
  "('c, 'w) udp_conn_api \<Rightarrow> ((string, 'c) hashmap \<Rightarrow> (string, 'c) hashmap) \<Rightarrow> nat list \<Rightarrow> ('c, 'w) conc \<Rightarrow> ('c, 'w) conc" where
  "schedule U ord [] c = c"
| "schedule U ord (i # is) (ts, s, w) =
     (case task_step U ord (ts ! i) s w of (p, sp, s', w') \<Rightarrow> schedule U ord is (ts[i := p] @ sp, s', w'))"

lemma schedule_run:
  assumes "\<forall>i \<in> set is. i < length ts"
  shows "run (conc_step U ord) (ts, s, w) is (schedule U ord is (ts, s, w))"
  using assms
proof (induction "is" arbitrary: ts s w)
  case Nil
  show ?case by (simp add: run_nil)
next
  case (Cons i "is")
  obtain p sp s' w' where t: "task_step U ord (ts ! i) s w = (p, sp, s', w')" by (metis surj_pair)
  then have "conc_step U ord (ts, s, w) i (ts[i := p] @ sp, s', w')" using Cons.prems by (intro conc) auto
  moreover have "run (conc_step U ord) (ts[i := p] @ sp, s', w') is (schedule U ord is (ts[i := p] @ sp, s', w'))"
    using Cons.prems by (intro Cons.IH) auto
  ultimately have "run (conc_step U ord) (ts, s, w) (i # is) (schedule U ord is (ts[i := p] @ sp, s', w'))"
    by (rule run_cons)
  with t show ?case by simp
qed

section \<open>Properties\<close>



text \<open>Whatever the interleaving of any number of tasks on a new mux, the table of connections stays well
  formed (distinct keys, each connection under its own ufrag) and at most one task ever tears the mux down, and
  only after it has been marked closed.\<close>

theorem interleavings_keep_table:
  assumes "udp_conn_laws U" and "\<forall>t \<in> set ts. tearing t = False"
    and "run (conc_step U ord) (ts, mux_new, w) is (ts', s', w')"
  shows "wf_mux U s' \<and> teardowns ts' \<le> 1 \<and> (is_closed s' = False \<longrightarrow> teardowns ts' = 0)"
proof -
  have "teardowns ts = 0" using assms(2) by (simp add: teardowns_def filter_empty_conv)
  then have "conc_ok U (ts, mux_new, w)" by (simp add: conc_ok_def)
  from interleaving.invar_run [OF assms(3) this] assms(1) show ?thesis
    by (auto simp: conc_ok_def split: if_splits)
qed

lemma interleavings_keep_table_witness:
  "wf_mux toy_udp (fst (snd (schedule toy_udp (\<lambda>m. m) [0, 1, 0, 1, 1] ([GetStart ''ab'', CloseStart], mux_new, tw_init))))"
proof -
  let ?z = "schedule toy_udp (\<lambda>m. m) [0, 1, 0, 1, 1] ([GetStart ''ab'', CloseStart], mux_new, tw_init)"
  have "run (conc_step toy_udp (\<lambda>m. m)) ([GetStart ''ab'', CloseStart], mux_new, tw_init) [0, 1, 0, 1, 1]
      (fst ?z, fst (snd ?z), snd (snd ?z))"
    unfolding prod.collapse by (rule schedule_run) simp
  from interleavings_keep_table [OF toy_udp_laws _ this] show ?thesis by simp
qed

text \<open>Concurrent callers get the same connection: however calls of \<open>get_conn\<close> interleave, two that ask for the
  same ufrag and succeed return the same connection, because looking up and inserting happen under one lock.\<close>

theorem concurrent_get_conn_agree:
  assumes "run (conc_step U ord) (map GetStart us, s, w) is (ts, s', w')" and "\<forall>i \<in> set is. i < length us"
    and "i < length us" and "j < length us" and "us ! i = us ! j"
    and "ts ! i = Finished (GetRet (Ok c))" and "ts ! j = Finished (GetRet (Ok d))"
  shows "c = d"
proof -
  have "get_agreed us (map GetStart us, s, w)" by (simp add: get_agreed_def)
  from get_agreed_run [OF assms(1) this assms(2)]
  have "get_at (us ! i) s' (ts ! i)" "get_at (us ! j) s' (ts ! j)" using assms(3,4) by (simp_all add: get_agreed_def)
  with assms(5-) show ?thesis by simp
qed

lemma demo_gets:
  "fst (schedule toy_udp (\<lambda>m. m) [0, 1, 1, 0] (map GetStart [''ab'', ''ab''], mux_new, tw_init)) =
     [Finished (GetRet (Ok (0, ''ab''))), Finished (GetRet (Ok (0, ''ab''))), CleanupWait ''ab'']"
  by (simp add: mux_new_def is_closed_def toy_udp_def tw_init_def create_muxed_conn_def)

lemma concurrent_get_conn_agree_witness:
  "\<exists>c. fst (schedule toy_udp (\<lambda>m. m) [0, 1, 1, 0] (map GetStart [''ab'', ''ab''], mux_new, tw_init)) ! 0 =
       Finished (GetRet (Ok c)) \<and>
     fst (schedule toy_udp (\<lambda>m. m) [0, 1, 1, 0] (map GetStart [''ab'', ''ab''], mux_new, tw_init)) ! 1 =
       Finished (GetRet (Ok c))"
proof -
  let ?z = "schedule toy_udp (\<lambda>m. m) [0, 1, 1, 0] (map GetStart [''ab'', ''ab''], mux_new, tw_init)"
  have run: "run (conc_step toy_udp (\<lambda>m. m)) (map GetStart [''ab'', ''ab''], mux_new, tw_init) [0, 1, 1, 0]
      (fst ?z, fst (snd ?z), snd (snd ?z))"
    unfolding prod.collapse by (rule schedule_run) simp
  obtain c d where cd: "fst ?z ! 0 = Finished (GetRet (Ok c))" "fst ?z ! 1 = Finished (GetRet (Ok d))"
    unfolding demo_gets by simp
  have "c = d" by (rule concurrent_get_conn_agree [OF run _ _ _ _ cd]) simp_all
  with cd show ?thesis by blast
qed

text \<open>C31: The closed check of \<open>get_conn\<close> and \<open>register_conn_for_address\<close> does not protect against a concurrent \<open>close\<close>:
  there is an interleaving in which \<open>close\<close> returns successfully and afterwards the call that passed its check
  before still enters its connection, so that the closed mux is left with a connection it never closed and a
  route to it.\<close>

theorem late_operations_survive_close:
  assumes "sock_local_addr U w = (Ok la, w1)" and "conn_new U la u w1 = (c, w2)"
  shows "\<exists>is ts s v. run (conc_step U (\<lambda>m. m)) ([GetStart u, CloseStart, RegisterStart d a], mux_new, w) is (ts, s, v) \<and>
    ts ! 0 = Finished (GetRet (Ok c)) \<and> ts ! 1 = Finished (CloseRet (Ok ())) \<and> ts ! 2 = Finished RegisterRet \<and>
    is_closed s \<and> conns s = [(u, c)] \<and> address_map s = [a \<mapsto> d]"
proof (intro exI conjI)
  let ?start = "([GetStart u, CloseStart, RegisterStart d a], mux_new, w)"
  let ?z = "schedule U (\<lambda>m. m) [0, 2, 1, 1, 1, 1, 1, 1, 0, 2, 2] ?start"
  have z: "?z = ([Finished (GetRet (Ok c)), Finished (CloseRet (Ok ())), Finished RegisterRet, CleanupWait u],
      mux_new\<lparr>closed_watch_tx := None, conns := [(u, c)], address_map := [a \<mapsto> d]\<rparr>, w2)"
    using assms by (simp add: mux_new_def is_closed_def create_muxed_conn_def register_entry_def)
  show "run (conc_step U (\<lambda>m. m)) ?start [0, 2, 1, 1, 1, 1, 1, 1, 0, 2, 2] (fst ?z, fst (snd ?z), snd (snd ?z))"
    unfolding prod.collapse by (rule schedule_run) simp
  show "fst ?z ! 0 = Finished (GetRet (Ok c))" "fst ?z ! 1 = Finished (CloseRet (Ok ()))" "fst ?z ! 2 = Finished RegisterRet"
    "is_closed (fst (snd ?z))" "conns (fst (snd ?z)) = [(u, c)]" "address_map (fst (snd ?z)) = [a \<mapsto> d]"
    by (simp_all only: z) (simp_all add: is_closed_def)
qed

lemma late_operations_survive_close_witness:
  "\<exists>is ts s v. run (conc_step toy_udp (\<lambda>m. m))
       ([GetStart ''ab'', CloseStart, RegisterStart (7, ''k'') (SockV4 1 2)], mux_new, tw_init) is (ts, s, v) \<and>
    ts ! 0 = Finished (GetRet (Ok (0, ''ab''))) \<and> ts ! 1 = Finished (CloseRet (Ok ())) \<and> ts ! 2 = Finished RegisterRet \<and>
    is_closed s \<and> conns s = [(''ab'', (0, ''ab''))] \<and> address_map s = [SockV4 1 2 \<mapsto> (7, ''k'')]"
  by (rule late_operations_survive_close [of toy_udp tw_init "SockV4 0 7" tw_init])
     (simp_all add: toy_udp_def tw_init_def)

text \<open>
  Two concurrent calls of \<open>close\<close> can both report success: the second loses the race for the signal after it has
  passed the closed check, and \<open>ErrAlreadyClosed\<close> is not returned.
\<close>

lemma concurrent_closes_both_succeed:
  "\<exists>is s v. run (conc_step U (\<lambda>m. m)) ([CloseStart, CloseStart], mux_new, w) is
     ([Finished (CloseRet (Ok ())), Finished (CloseRet (Ok ()))], s, v)"
proof (intro exI)
  let ?z = "schedule U (\<lambda>m. m) [0, 1, 0, 1, 0, 0, 0, 0] ([CloseStart, CloseStart], mux_new, w)"
  have z: "?z = ([Finished (CloseRet (Ok ())), Finished (CloseRet (Ok ()))], mux_new\<lparr>closed_watch_tx := None\<rparr>, w)"
    by (simp add: mux_new_def is_closed_def)
  have "run (conc_step U (\<lambda>m. m)) ([CloseStart, CloseStart], mux_new, w) [0, 1, 0, 1, 0, 0, 0, 0] ?z"
    by (rule schedule_run) simp
  then show "run (conc_step U (\<lambda>m. m)) ([CloseStart, CloseStart], mux_new, w) [0, 1, 0, 1, 0, 0, 0, 0]
     ([Finished (CloseRet (Ok ())), Finished (CloseRet (Ok ()))], mux_new\<lparr>closed_watch_tx := None\<rparr>, w)"
    unfolding z .
qed

text \<open>
  The cleanup task knows its connection by ufrag only: if the connection was removed and a new one created for
  the same ufrag before the cleanup runs, it removes the new one.
\<close>

lemma remove_addresses_empty [simp]: "remove_addresses as (\<lambda>x. None) = (\<lambda>x. None)"
  by (rule ext) (simp add: remove_addresses_apply)

lemma cleanup_removes_newer_connection:
  assumes "sock_local_addr U w = (Ok la, w1)" and "conn_new U la u w1 = (c, w2)"
    and "sock_local_addr U w2 = (Ok la, w3)" and "conn_new U la u w3 = (d, w4)"
  shows "\<exists>is ts s v. run (conc_step U (\<lambda>m. m)) ([GetStart u, RemoveStart u, GetStart u], mux_new, w) is (ts, s, v) \<and>
    ts ! 0 = Finished (GetRet (Ok c)) \<and> ts ! 2 = Finished (GetRet (Ok d)) \<and> ts ! 4 = CleanupWait u \<and> conns s = []"
proof (intro exI conjI)
  let ?start = "([GetStart u, RemoveStart u, GetStart u], mux_new, w)"
  let ?y = "schedule U (\<lambda>m. m) [0, 0, 1, 1, 2, 2] ?start"
  let ?z = "schedule U (\<lambda>m. m) [3, 3, 3] ?y"
  have y: "?y = ([Finished (GetRet (Ok c)), Finished RemoveRet, Finished (GetRet (Ok d)), CleanupWait u, CleanupWait u],
      mux_new\<lparr>conns := [(u, d)]\<rparr>, w4)"
    using assms by (simp add: mux_new_def is_closed_def create_muxed_conn_def)
  have z: "?z = ([Finished (GetRet (Ok c)), Finished RemoveRet, Finished (GetRet (Ok d)), Finished RemoveRet, CleanupWait u],
      mux_new, w4)"
    unfolding y by (simp add: mux_new_def)
  show "run (conc_step U (\<lambda>m. m)) ?start ([0, 0, 1, 1, 2, 2] @ [3, 3, 3]) (fst ?z, fst (snd ?z), snd (snd ?z))"
  proof (rule run_append)
    show "run (conc_step U (\<lambda>m. m)) ?start [0, 0, 1, 1, 2, 2] ?y" by (rule schedule_run) simp
    show "run (conc_step U (\<lambda>m. m)) ?y [3, 3, 3] (fst ?z, fst (snd ?z), snd (snd ?z))"
      unfolding prod.collapse y by (rule schedule_run) simp
  qed
  show "fst ?z ! 0 = Finished (GetRet (Ok c))" "fst ?z ! 2 = Finished (GetRet (Ok d))" "fst ?z ! 4 = CleanupWait u"
    "conns (fst (snd ?z)) = []"
    by (simp_all only: z) (simp_all add: mux_new_def)
qed

end
