(* ===== verification/Udp_Mux_System.thy ===== *)
theory Udp_Mux_System
  imports Udp_Mux_Worker Udp_Mux_Conc
begin

text \<open>
  The UDP mux as a concurrent system: the packet worker of \<open>src/udp_mux.rs\<close>, split at the locks it takes, runs
  between the lock sections of any number of calls of the mux operations and the reads of the listener. An
  abstract machine says what the listeners may observe: which addresses are announced, and when an address may
  be announced again; the system is proved to implement it.
\<close>

section \<open>The worker between its locks\<close>

text \<open>
  \<open>WRoute\<close>: a datagram is in the buffer and its source is about to be looked up in \<open>address_map\<close>; \<open>WStun\<close>: the
  lookup by ufrag in \<open>conns\<close> follows; \<open>WCheck\<close>: no connection was found and \<open>new_addrs\<close> is read; \<open>WSend\<close>: the
  address is sent on the channel; \<open>WInsert\<close>: it was sent and is about to be remembered; \<open>WDeliver\<close>: the packet is
  written to a connection. \<open>WIdle\<close> is the \<open>select!\<close>.
\<close>

datatype 'c wpc =
  WIdle
| WRoute nat socket_addr
| WStun nat socket_addr
| WCheck socket_addr
| WSend socket_addr
| WInsert socket_addr
| WDeliver 'c nat socket_addr

text \<open>
  What can be observed of a step: an address is put on the channel as a multiaddress, a multiaddress is taken from
  the channel, an address or all of them may be announced again.
\<close>

datatype 'ma visible =
  Announced socket_addr 'ma
| Delivered 'ma
| Forgot socket_addr
| ForgotAll
| Silent

fun worker_section ::
  "('ma, 'h, 'm, 'c, 'q, 'w) mux_env \<Rightarrow> 'c wpc \<Rightarrow> ('c, 'q, 'w) mux_sys \<Rightarrow> 'c wpc \<times> 'ma visible \<times> ('c, 'q, 'w) mux_sys" where
  "worker_section E WIdle y = (WIdle, Silent, y)"
| "worker_section E (WRoute len addr) y =
     (case address_map (sys_mux y) addr of
        Some c \<Rightarrow> WDeliver c len addr
      | None \<Rightarrow> if stun_is_message (env_stun E) (sys_buf y) then WStun len addr else WCheck addr,
      Silent, y)"
| "worker_section E (WStun len addr) y =
     (case conn_from_stun_message (env_stun E) (sys_buf y) (sys_mux y) of
        Some c \<Rightarrow> WDeliver c len addr
      | None \<Rightarrow> WCheck addr,
      Silent, y)"
| "worker_section E (WCheck addr) y = (if addr \<in> new_addrs (sys_mux y) then WIdle else WSend addr, Silent, y)"
| "worker_section E (WSend addr) y =
     (case ufrag_from_stun_message (env_stun E) (sys_buf y) False of
        Err e \<Rightarrow> (WIdle, Silent, y)
      | Ok ufrag \<Rightarrow>
          (case hex_to_cow (env_hex E) (strip_colons ufrag) of
             Panics msg \<Rightarrow> (WIdle, Silent, y\<lparr>sys_ctl := Crashed msg\<rparr>)
           | Returns f \<Rightarrow>
               (case mpsc_try_send (env_mpsc E) (new_peer_multiaddr (env_ma E) addr f) (sys_chan y) of
                  (False, q) \<Rightarrow> (WIdle, Silent, y\<lparr>sys_chan := q\<rparr>)
                | (True, q) \<Rightarrow>
                      (WInsert addr, Announced addr (new_peer_multiaddr (env_ma E) addr f), y\<lparr>sys_chan := q\<rparr>))))"
| "worker_section E (WInsert addr) y =
     (WIdle, Silent, y\<lparr>sys_mux := (sys_mux y)\<lparr>new_addrs := insert addr (new_addrs (sys_mux y))\<rparr>\<rparr>)"
| "worker_section E (WDeliver c len addr) y =
     (WIdle, Silent, y\<lparr>sys_world := snd (conn_write_packet (env_udp E) c (take len (sys_buf y)) addr (sys_world y))\<rparr>)"

text \<open>The worker on its own: a datagram arrives, and its sections follow one another.\<close>

fun work_alone ::
  "('ma, 'h, 'm, 'c, 'q, 'w) mux_env \<Rightarrow> nat \<Rightarrow> 'c wpc \<Rightarrow> ('c, 'q, 'w) mux_sys \<Rightarrow> 'c wpc \<times> ('c, 'q, 'w) mux_sys" where
  "work_alone E 0 p y = (p, y)"
| "work_alone E (Suc n) p y = (case worker_section E p y of (p', _, y') \<Rightarrow> work_alone E n p' y')"

section \<open>The system\<close>

text \<open>Reading the channel takes its first item, if it has one.\<close>

definition take_visible :: "'ma option poll \<Rightarrow> 'ma visible" where
  "take_visible r = (case r of Ready (Some m) \<Rightarrow> Delivered m | _ \<Rightarrow> Silent)"

text \<open>The operations that clients call; the cleanup task is spawned by \<open>get_conn\<close> alone.\<close>

fun is_call :: "'c pc \<Rightarrow> bool" where
  "is_call CloseStart = True"
| "is_call (GetStart u) = True"
| "is_call (RemoveStart u) = True"
| "is_call (RegisterStart c a) = True"
| "is_call _ = False"

fun task_visible :: "'c pc \<Rightarrow> 'ma visible" where
  "task_visible (RegisterNew c a) = Forgot a"
| "task_visible CloseNewAddrs = ForgotAll"
| "task_visible _ = Silent"

type_synonym ('c, 'q, 'w) system = "'c wpc \<times> 'c pc list \<times> ('c, 'q, 'w) mux_sys"

inductive system_step ::
  "('ma, 'h, 'm, 'c, 'q, 'w) mux_env \<Rightarrow> ((string, 'c) hashmap \<Rightarrow> (string, 'c) hashmap) \<Rightarrow>
   ('c, 'q, 'w) system \<Rightarrow> 'ma visible \<Rightarrow> ('c, 'q, 'w) system \<Rightarrow> bool"
  for E ord where
  receive: "sys_ctl y = Running \<Longrightarrow> length data \<le> RECEIVE_MTU \<Longrightarrow>
    system_step E ord (WIdle, ts, y) Silent
      (WRoute (length data) addr, ts, y\<lparr>sys_buf := recv_into (sys_buf y) data\<rparr>)"
| recv_failed: "sys_ctl y = Running \<Longrightarrow>
    system_step E ord (WIdle, ts, y) Silent (WIdle, ts, worker_turn E y (RecvFailed err))"
| closed_changed: "sys_ctl y = Running \<Longrightarrow> is_closed (sys_mux y) \<Longrightarrow>
    system_step E ord (WIdle, ts, y) Silent (WIdle, ts, worker_turn E y ClosedChanged)"
| work: "worker_section E p y = (p', v, y') \<Longrightarrow> system_step E ord (p, ts, y) v (p', ts, y')"
| task: "i < length ts \<Longrightarrow> task_step (env_udp E) ord (ts ! i) (sys_mux y) (sys_world y) = (pc, spawned, s', w') \<Longrightarrow>
    system_step E ord (p, ts, y) (task_visible (ts ! i)) (p, ts[i := pc] @ spawned, y\<lparr>sys_mux := s', sys_world := w'\<rparr>)"
| call: "is_call pc \<Longrightarrow> system_step E ord (p, ts, y) Silent (p, ts @ [pc], y)"
| listen: "mpsc_poll_next (env_mpsc E) (sys_chan y) = (r, q) \<Longrightarrow>
    system_step E ord (p, ts, y) (take_visible r) (p, ts, y\<lparr>sys_chan := q\<rparr>)"

text \<open>A new mux: the worker waits, no call has been made.\<close>

definition system_new :: "('ma, 'h, 'm, 'c, 'q, 'w) mux_env \<Rightarrow> nat \<Rightarrow> 'w \<Rightarrow> ('c, 'q, 'w) system" where
  "system_new E cap w = (WIdle, [], sys_new E cap w)"

section \<open>What the listeners may observe\<close>

text \<open>What a multiaddress on the channel looks like.\<close>

definition reportable :: "('ma, 'h) multiaddr_api \<Rightarrow> socket_addr \<Rightarrow> 'ma \<Rightarrow> bool" where
  "reportable M a m \<longleftrightarrow>
     (\<exists>f. length f = 32 \<and> ma_iter M m = [ip_protocol (sock_ip a), Udp (sock_port a), XWebRTC f])"

text \<open>
  The abstract machine keeps the set of addresses that must not be announced and the announcements that nobody
  has taken yet. Announcing an address enters it into the set and the queue; a registration may take it out of
  the set, closing the mux may take out any; deliveries are first in, first out.
\<close>

inductive announce_spec ::
  "('ma, 'h) multiaddr_api \<Rightarrow> socket_addr set \<times> 'ma list \<Rightarrow> 'ma visible \<Rightarrow> socket_addr set \<times> 'ma list \<Rightarrow> bool"
  for M where
  announce: "a \<notin> S \<Longrightarrow> reportable M a m \<Longrightarrow> announce_spec M (S, ms) (Announced a m) (insert a S, ms @ [m])"
| deliver: "announce_spec M (S, m # ms) (Delivered m) (S, ms)"
| forget: "S' = S \<or> S' = S - {a} \<Longrightarrow> announce_spec M (S, ms) (Forgot a) (S', ms)"
| forget_all: "S' \<subseteq> S \<Longrightarrow> announce_spec M (S, ms) ForgotAll (S', ms)"
| silent: "announce_spec M (S, ms) Silent (S, ms)"

inductive_simps announce_spec_simps [simp]:
  "announce_spec M s (Announced a m) t" "announce_spec M s (Delivered m) t" "announce_spec M s (Forgot a) t"
  "announce_spec M s ForgotAll t" "announce_spec M s Silent t"

definition allows_again :: "socket_addr \<Rightarrow> 'ma visible \<Rightarrow> bool" where
  "allows_again a v \<longleftrightarrow> v = Forgot a \<or> v = ForgotAll"

fun announced :: "'ma visible list \<Rightarrow> 'ma list" where
  "announced [] = []"
| "announced (Announced a m # vs) = m # announced vs"
| "announced (_ # vs) = announced vs"

fun delivered :: "'ma visible list \<Rightarrow> 'ma list" where
  "delivered [] = []"
| "delivered (Delivered m # vs) = m # delivered vs"
| "delivered (_ # vs) = delivered vs"

lemma announce_spec_keeps:
  assumes "run (announce_spec M) s vs t" and "a \<in> fst s" and "\<forall>v \<in> set vs. \<not> allows_again a v"
  shows "a \<in> fst t"
  using assms
proof (induction rule: run.induct)
  case (run_cons s v t vs u)
  then show ?case by (cases v) (auto simp: allows_again_def)
qed simp

lemma announce_spec_once:
  assumes "run (announce_spec M) s (us @ Announced a m # vs @ Announced a m' # ws) t"
  shows "\<exists>v \<in> set vs. allows_again a v"
proof (rule ccontr)
  assume none: "\<not> (\<exists>v \<in> set vs. allows_again a v)"
  from assms obtain x0 where "run (announce_spec M) x0 (Announced a m # vs @ Announced a m' # ws) t"
    by (rule run_appendE)
  then obtain x where step: "announce_spec M x0 (Announced a m) x"
    and rest: "run (announce_spec M) x (vs @ Announced a m' # ws) t" by (rule run_consE)
  from step have x: "a \<in> fst x" by auto
  from rest obtain z where z: "run (announce_spec M) x vs z"
    and again: "run (announce_spec M) z (Announced a m' # ws) t" by (rule run_appendE)
  from again have "a \<notin> fst z" by auto
  with none announce_spec_keeps [OF z x] show False by blast
qed

lemma announce_spec_fifo:
  assumes "run (announce_spec M) s vs t"
  shows "snd s @ announced vs = delivered vs @ snd t"
  using assms
proof (induction rule: run.induct)
  case (run_cons s v t vs u)
  then show ?case by (cases v) auto
qed simp

lemma announced_reportable:
  assumes "run (announce_spec M) s vs t"
  shows "\<forall>m \<in> set (announced vs). \<exists>a. reportable M a m"
  using assms
proof (induction rule: run.induct)
  case (run_cons s v t vs u)
  then show ?case by (cases v) auto
qed simp

section \<open>The system implements it\<close>

fun in_progress :: "'c wpc \<Rightarrow> socket_addr set" where
  "in_progress (WInsert a) = {a}"
| "in_progress _ = {}"

definition observed ::
  "('ma, 'h, 'm, 'c, 'q, 'w) mux_env \<Rightarrow> ('c, 'q, 'w) system \<Rightarrow> socket_addr set \<times> 'ma list" where
  "observed E = (\<lambda>(p, ts, y). (new_addrs (sys_mux y) \<union> in_progress p, mpsc_queued (env_mpsc E) (sys_chan y)))"

text \<open>The laws of the packages the worker announces with; the length of a packet in flight.\<close>

definition report_laws :: "('ma, 'h, 'm, 'c, 'q, 'w) mux_env \<Rightarrow> bool" where
  "report_laws E \<longleftrightarrow> multiaddr_laws (env_ma E) \<and> hex_laws (env_hex E) \<and> mpsc_laws (env_mpsc E)"

fun wpc_ok :: "'c udp_mux \<Rightarrow> 'c wpc \<Rightarrow> bool" where
  "wpc_ok s (WRoute len a) \<longleftrightarrow> len \<le> RECEIVE_MTU"
| "wpc_ok s (WStun len a) \<longleftrightarrow> len \<le> RECEIVE_MTU"
| "wpc_ok s (WDeliver c len a) \<longleftrightarrow> len \<le> RECEIVE_MTU"
| "wpc_ok s (WSend a) \<longleftrightarrow> a \<notin> new_addrs s"
| "wpc_ok s _ \<longleftrightarrow> True"

text \<open>
  The invariant: the tables are well formed, at most one task tears the mux down and only after the close signal,
  the buffer keeps its size and every packet in it ends inside, an address about to be sent is not remembered,
  and a worker that has stopped is not in the middle of a packet.
\<close>

definition system_ok :: "('ma, 'h, 'm, 'c, 'q, 'w) mux_env \<Rightarrow> ('c, 'q, 'w) system \<Rightarrow> bool" where
  "system_ok E = (\<lambda>(p, ts, y).
     conc_ok (env_udp E) (ts, sys_mux y, sys_world y) \<and> length (sys_buf y) = RECEIVE_MTU \<and>
     wpc_ok (sys_mux y) p \<and> (sys_ctl y \<noteq> Running \<longrightarrow> p = WIdle))"

lemma worker_section_frame:
  assumes "worker_section E p y = (p', v, z)"
  shows "conns (sys_mux z) = conns (sys_mux y)" and "address_map (sys_mux z) = address_map (sys_mux y)"
    and "closed_watch_tx (sys_mux z) = closed_watch_tx (sys_mux y)" and "sys_buf z = sys_buf y"
  using assms
  by (cases "(E, p, y)" rule: worker_section.cases,
      auto split: if_splits option.splits result.splits outcome.splits prod.splits bool.splits)+

lemma task_step_new_addrs:
  assumes "task_step U ord p s w = (p', sp, s', w')"
  shows "new_addrs s' = (case (task_visible p :: 'ma visible) of Forgot a \<Rightarrow> new_addrs s - {a} | ForgotAll \<Rightarrow> {} | _ \<Rightarrow> new_addrs s)"
  using assms
  by (cases "(U, ord, p, s, w)" rule: task_step.cases)
     (auto split: if_splits option.splits prod.splits result.splits)

lemma worker_section_ok:
  assumes "worker_section E p y = (p', v, z)" and "wpc_ok (sys_mux y) p" and "sys_ctl y \<noteq> Running \<longrightarrow> p = WIdle"
  shows "wpc_ok (sys_mux z) p'" and "sys_ctl z \<noteq> Running \<longrightarrow> p' = WIdle"
  using assms
  by (cases "(E, p, y)" rule: worker_section.cases,
      auto split: if_splits option.splits result.splits outcome.splits prod.splits bool.splits)+

lemma worker_section_observed:
  assumes "report_laws E" and "worker_section E p y = (p', v, z)" and "wpc_ok (sys_mux y) p"
  shows "announce_spec (env_ma E) (observed E (p, ts, y)) v (observed E (p', ts, z))"
proof -
  have laws: "multiaddr_laws (env_ma E)" "hex_laws (env_hex E)" "mpsc_laws (env_mpsc E)"
    using assms(1) by (simp_all add: report_laws_def)
  have rep: "reportable (env_ma E) a (new_peer_multiaddr (env_ma E) a f)"
    if "hex_to_cow (env_hex E) u = Returns f" for a f u
    using hex_to_cow_length [OF laws(2) that] iter_new_peer_multiaddr [OF laws(1), of a f] by (auto simp: reportable_def)
  show ?thesis
    using assms(2,3) rep mpsc_try_send_True(1) [OF laws(3)] mpsc_try_send_False(1) [OF laws(3)]
    by (cases "(E, p, y)" rule: worker_section.cases)
       (auto simp: observed_def split: if_splits option.splits result.splits outcome.splits prod.splits bool.splits)
qed

lemma listen_observed:
  assumes "report_laws E" and "mpsc_poll_next (env_mpsc E) (sys_chan y) = (r, q)"
  shows "announce_spec (env_ma E) (observed E (p, ts, y)) (take_visible r) (observed E (p, ts, y\<lparr>sys_chan := q\<rparr>))"
  using assms mpsc_poll_next_spec [of "env_mpsc E" "sys_chan y"]
  by (auto simp: report_laws_def observed_def take_visible_def split: list.splits if_splits)

lemma task_observed:
  assumes "task_step U ord pc s w = (pc', sp, s', w')"
  shows "announce_spec M (new_addrs s \<union> X, ms :: 'ma list) (task_visible pc) (new_addrs s' \<union> X, ms)"
  using task_step_new_addrs [OF assms, where ?'ma = 'ma] by (cases pc) auto

lemma worker_turn_idle:
  "sys_mux (worker_turn E y (RecvFailed err)) = sys_mux y" "sys_buf (worker_turn E y (RecvFailed err)) = sys_buf y"
  "sys_chan (worker_turn E y (RecvFailed err)) = sys_chan y" "sys_world (worker_turn E y (RecvFailed err)) = sys_world y"
  by (cases "(E, y, RecvFailed err)" rule: worker_turn.cases, auto)+

interpretation system_inv: step_invariant "system_step E ord" "system_ok E"
  for E :: "('ma, 'h, 'm, 'c, 'q, 'w) mux_env" and ord
proof unfold_locales
  fix c v d
  assume "system_step E ord c v d" and "system_ok E c"
  then show "system_ok E d"
  proof (induction rule: system_step.induct)
    case (work p y p' v y' ts)
    then show ?case
      using worker_section_frame [OF work(1)] worker_section_ok [OF work(1)]
      by (simp add: system_ok_def conc_ok_def wf_mux_def is_closed_def)
  next
    case (task i ts y pc spawned s' w' p)
    have "conc_ok (env_udp E) (ts[i := pc] @ spawned, s', w')"
      using interleaving.invar_step [OF conc [OF task(1,2)]] task(3) by (simp add: system_ok_def)
    moreover have "wpc_ok s' p"
      using task(3) task_step_new_addrs [OF task(2)]
      by (cases p) (auto simp: system_ok_def split: visible.splits)
    ultimately show ?case using task(3) by (simp add: system_ok_def)
  next
    case (call pc p ts y)
    then show ?case by (cases pc) (simp_all add: system_ok_def conc_ok_def)
  qed (auto simp: system_ok_def worker_turn_idle length_recv_into)
qed

interpretation announcing: step_simulation "system_step E ord" "\<lambda>c. report_laws E \<and> system_ok E c"
  "announce_spec (env_ma E)" "observed E"
  for E :: "('ma, 'h, 'm, 'c, 'q, 'w) mux_env" and ord
proof unfold_locales
  fix c v d
  assume step: "system_step E ord c v d" and ok: "report_laws E \<and> system_ok E c"
  then show "report_laws E \<and> system_ok E d" using system_inv.invar_step by blast
  from step ok show "announce_spec (env_ma E) (observed E c) v (observed E d)"
  proof (induction rule: system_step.induct)
    case (work p y p' v y' ts)
    then show ?case using worker_section_observed [OF _ work(1)] by (simp add: system_ok_def)
  next
    case (task i ts y pc spawned s' w' p)
    from task_observed [OF task(2)] show ?case by (simp add: observed_def)
  next
    case (listen y r q p ts)
    then show ?case using listen_observed [OF _ listen(1)] by simp
  qed (simp_all add: observed_def worker_turn_idle)
qed

section \<open>Schedules as functions\<close>

text \<open>The states and observations a list of choices leads to, for evaluating concrete interleavings.\<close>

datatype 'c choice = Receive "u8 list" socket_addr | Work | Task nat | Call "'c pc" | Listen

fun enabled :: "'c choice \<Rightarrow> ('c, 'q, 'w) system \<Rightarrow> bool" where
  "enabled (Receive data addr) (p, ts, y) \<longleftrightarrow> p = WIdle \<and> sys_ctl y = Running \<and> length data \<le> RECEIVE_MTU"
| "enabled (Task i) (p, ts, y) \<longleftrightarrow> i < length ts"
| "enabled (Call pc) (p, ts, y) \<longleftrightarrow> is_call pc"
| "enabled _ (p, ts, y) \<longleftrightarrow> True"

fun take_choice ::
  "('ma, 'h, 'm, 'c, 'q, 'w) mux_env \<Rightarrow> ((string, 'c) hashmap \<Rightarrow> (string, 'c) hashmap) \<Rightarrow>
   'c choice \<Rightarrow> ('c, 'q, 'w) system \<Rightarrow> 'ma visible \<times> ('c, 'q, 'w) system" where
  "take_choice E ord (Receive data addr) (p, ts, y) =
     (Silent, WRoute (length data) addr, ts, y\<lparr>sys_buf := recv_into (sys_buf y) data\<rparr>)"
| "take_choice E ord Work (p, ts, y) = (case worker_section E p y of (p', v, y') \<Rightarrow> (v, p', ts, y'))"
| "take_choice E ord (Task i) (p, ts, y) =
     (case task_step (env_udp E) ord (ts ! i) (sys_mux y) (sys_world y) of
        (pc, spawned, s', w') \<Rightarrow>
          (task_visible (ts ! i), p, ts[i := pc] @ spawned, y\<lparr>sys_mux := s', sys_world := w'\<rparr>))"
| "take_choice E ord (Call pc) (p, ts, y) = (Silent, p, ts @ [pc], y)"
| "take_choice E ord Listen (p, ts, y) =
     (case mpsc_poll_next (env_mpsc E) (sys_chan y) of (r, q) \<Rightarrow> (take_visible r, p, ts, y\<lparr>sys_chan := q\<rparr>))"

lemma take_choice_step: "enabled ch c \<Longrightarrow> take_choice E ord ch c = (v, d) \<Longrightarrow> system_step E ord c v d"
  by (cases "(ch, c)" rule: enabled.cases) (auto intro: system_step.intros split: prod.splits)

fun system_schedule ::
  "('ma, 'h, 'm, 'c, 'q, 'w) mux_env \<Rightarrow> ((string, 'c) hashmap \<Rightarrow> (string, 'c) hashmap) \<Rightarrow>
   'c choice list \<Rightarrow> ('c, 'q, 'w) system \<Rightarrow> ('ma visible list \<times> ('c, 'q, 'w) system) option" where
  "system_schedule E ord [] c = Some ([], c)"
| "system_schedule E ord (ch # chs) c =
     (if enabled ch c then
        (case take_choice E ord ch c of (v, d) \<Rightarrow>
           (case system_schedule E ord chs d of None \<Rightarrow> None | Some (vs, e) \<Rightarrow> Some (v # vs, e)))
      else None)"

lemma system_schedule_run: "system_schedule E ord chs c = Some (vs, d) \<Longrightarrow> run (system_step E ord) c vs d"
proof (induction chs arbitrary: c vs)
  case Nil
  then show ?case by (auto intro: run_intros)
next
  case (Cons ch chs)
  then show ?case
    by (auto split: if_splits prod.splits option.splits intro!: run_intros take_choice_step)
qed

section \<open>Properties\<close>

lemma system_new_ok: "system_ok E (system_new E cap w)"
  by (simp add: system_ok_def system_new_def sys_new_def conc_ok_def)

lemma system_announces:
  assumes "report_laws E" and "run (system_step E ord) (system_new E cap w) vs c"
  shows "run (announce_spec (env_ma E)) ({}, []) vs (observed E c)"
proof -
  have "observed E (system_new E cap w) = ({}, [])"
    using assms(1) mpsc_new by (auto simp: observed_def system_new_def sys_new_def mux_new_def report_laws_def)
  with announcing.abs_run [OF assms(2)] assms(1) system_new_ok show ?thesis by metis
qed

lemma wf_multiaddr: "reportable M a m \<Longrightarrow> multiaddr_to_socketaddr M m = Some (sock_new (sock_ip a) (sock_port a))"
  by (auto simp: reportable_def multiaddr_to_socketaddr_Some)

text \<open>C3: The interleaved system implements the abstract announcer: whatever the worker, the tasks of the callers and
  the listener do between each other's lock sections, and in whatever order, what can be observed of a new mux is a
  run of the machine that announces only addresses outside its set and delivers announcements first in, first
  out; its set is the addresses remembered or about to be, its queue the contents of the channel.\<close>

theorem system_implements_announcer:
  assumes "report_laws E" and "run (system_step E ord) (system_new E cap w) vs c"
  shows "run (announce_spec (env_ma E)) ({}, []) vs (observed E c)"
  using assms by (rule system_announces)

text \<open>C4: A peer is not announced twice: in every interleaving, between two announcements of the same address a
  registration of that address has finished or the mux was closed.\<close>

theorem announced_once_until_forgotten:
  assumes "report_laws E"
    and "run (system_step E ord) (system_new E cap w) (us @ Announced a m # vs @ Announced a m' # ws) c"
  shows "Forgot a \<in> set vs \<or> ForgotAll \<in> set vs"
  using announce_spec_once [OF system_announces [OF assms]] by (auto simp: allows_again_def)

text \<open>No announcement is lost, doubled or overtaken: in every interleaving the multiaddresses announced are, in this
  order, those the listener has taken followed by those still in the channel.\<close>

theorem announcements_delivered_in_order:
  assumes "report_laws E" and "run (system_step E ord) (system_new E cap w) vs (p, ts, y)"
  shows "announced vs = delivered vs @ mpsc_queued (env_mpsc E) (sys_chan y)"
  using announce_spec_fifo [OF system_announces [OF assms]] by (simp add: observed_def)

text \<open>C22: The type of what goes over the channel: every multiaddress a listener takes and every one still waiting
  has exactly three components, an IP address, a UDP port and a fingerprint of 32 bytes, so that the listener can
  read a socket address from it.\<close>

theorem channel_carries_webrtc_addresses:
  assumes "report_laws E" and "run (system_step E ord) (system_new E cap w) vs (p, ts, y)"
    and "m \<in> set (delivered vs) \<union> set (mpsc_queued (env_mpsc E) (sys_chan y))"
  shows "\<exists>a f. ma_iter (env_ma E) m = [ip_protocol (sock_ip a), Udp (sock_port a), XWebRTC f] \<and> length f = 32 \<and>
    multiaddr_to_socketaddr (env_ma E) m = Some (sock_new (sock_ip a) (sock_port a))"
proof -
  note spec = system_announces [OF assms(1,2)]
  have "m \<in> set (announced vs)"
    using announce_spec_fifo [OF spec] assms(3) by (auto simp: observed_def)
  with announced_reportable [OF spec] obtain a where a: "reportable (env_ma E) a m" by blast
  with wf_multiaddr [OF a] show ?thesis by (auto simp: reportable_def)
qed



text \<open>
  When the operations are not interleaved, an address with a route is never remembered as reported.
\<close>

interpretation routed_forgotten: step_invariant "sys_step E ord"
  "\<lambda>y. dom (address_map (sys_mux y)) \<inter> new_addrs (sys_mux y) = {}"
  for E :: "('ma, 'h, 'm, 'c, 'q, 'w) mux_env" and ord
proof unfold_locales
  fix y l z
  assume "sys_step E ord y l z" and "dom (address_map (sys_mux y)) \<inter> new_addrs (sys_mux y) = {}"
  then show "dom (address_map (sys_mux z)) \<inter> new_addrs (sys_mux z) = {}"
  proof (induction rule: sys_step.induct)
    case (sys_worker y ev)
    then show ?case
      by (cases "(E, y, ev)" rule: worker_turn.cases)
         (auto simp: on_packet_def report_new_addr_def find_conn_def
           split: option.splits if_splits result.splits outcome.splits prod.splits bool.splits)
  next
    case (sys_op y op s' w')
    from sys_op.hyps sys_op.prems show ?case
      by (cases rule: mux_op_step.cases)
         (auto simp: get_conn_def remove_conn_by_ufrag_def register_conn_for_address_def register_entry_def
           remove_addresses_apply close_def Let_def dom_def disjoint_iff
           split: if_splits option.splits prod.splits result.splits)
  qed auto
qed

text \<open>C36: Remembering an address is not atomic with announcing it: there is an interleaving in which the registration
  of the announced address finishes after the worker has sent it and before the worker remembers it, so that the
  address ends up remembered as reported although it has a route, and is not announced again when the route is
  gone.\<close>

theorem registration_overtakes_report:
  assumes "stun_is_message (env_stun E) (recv_into (replicate RECEIVE_MTU 0) data)" and "length data \<le> RECEIVE_MTU"
    and "ufrag_from_stun_message (env_stun E) (recv_into (replicate RECEIVE_MTU 0) data) False = Ok u"
    and "hex_to_cow (env_hex E) (strip_colons u) = Returns f"
    and "mpsc_try_send (env_mpsc E) (new_peer_multiaddr (env_ma E) a f) (mpsc_channel (env_mpsc E) cap) = (True, q)"
  shows "\<exists>vs ts y. run (system_step E ord) (system_new E cap w) vs (WIdle, ts, y) \<and> ts = [Finished RegisterRet] \<and>
    sys_ctl y = Running \<and> address_map (sys_mux y) = [a \<mapsto> c] \<and> a \<in> new_addrs (sys_mux y) \<and>
    worker_section E (WCheck a) y = (WIdle, Silent, y)"
proof -
  let ?chs = "[Receive data a, Work, Work, Work, Work, Call (RegisterStart c a), Task 0, Task 0, Task 0, Work]"
  have "conn_from_stun_message (env_stun E) b (mux_new :: 'd udp_mux) = None" for b
    by (auto simp: conn_from_stun_message_def mux_new_def split: result.splits)
  with assms obtain vs y where "system_schedule E ord ?chs (system_new E cap w) = Some (vs, WIdle, [Finished RegisterRet], y)"
    "sys_ctl y = Running" "address_map (sys_mux y) = [a \<mapsto> c]" "a \<in> new_addrs (sys_mux y)"
    by (simp add: system_new_def sys_new_def mux_new_def is_closed_def register_entry_def)
  with system_schedule_run show ?thesis by fastforce
qed

section \<open>Witnesses\<close>

text \<open>
  The peer of \<open>demo_peer\<close> is announced, the mux is closed before the worker sees the signal, and the peer is
  announced again; the listener takes the first announcement.
\<close>

definition demo_choices :: "tconn choice list" where
  "demo_choices =
     [Receive demo_packet demo_peer, Work, Work, Work, Work, Work, Call CloseStart, Task 0, Task 0, Task 0, Task 0, Task 0, Task 0,
      Listen, Receive demo_packet demo_peer, Work, Work, Work, Work, Work]"

definition demo_trace :: "nat protocol list visible list" where
  "demo_trace =
     [Silent, Silent, Silent, Silent, Announced demo_peer demo_ma, Silent, Silent, Silent, Silent, Silent, Silent, Silent, ForgotAll,
      Delivered demo_ma, Silent, Silent, Silent, Silent, Announced demo_peer demo_ma, Silent]"

lemma demo_schedule:
  "\<exists>y. system_schedule demo_env rev demo_choices (system_new demo_env 1 tw_init) =
     Some (demo_trace, WIdle, [Finished (CloseRet (Ok ()))], y) \<and> mpsc_queued list_mpsc (sys_chan y) = [demo_ma]"
  using fits_demo
  by (simp add: demo_choices_def demo_trace_def system_new_def sys_new_def mux_new_def is_closed_def
      conn_from_stun_message_def list_mpsc_def take_visible_def fits_def)

lemma demo_run: "\<exists>y. run (system_step demo_env rev) (system_new demo_env 1 tw_init) demo_trace
    (WIdle, [Finished (CloseRet (Ok ()))], y) \<and> mpsc_queued list_mpsc (sys_chan y) = [demo_ma]"
  using demo_schedule system_schedule_run by metis

lemma demo_report_laws: "report_laws demo_env"
  using list_ma_laws ref_hex_laws list_mpsc_laws by (simp add: report_laws_def)

lemma system_implements_announcer_witness:
  "\<exists>S ms. run (announce_spec list_ma) ({}, []) demo_trace (S, ms)"
proof -
  from demo_run obtain y where "run (system_step demo_env rev) (system_new demo_env 1 tw_init) demo_trace
      (WIdle, [Finished (CloseRet (Ok ()))], y)" by blast
  from system_implements_announcer [OF demo_report_laws this] show ?thesis by (auto simp: observed_def)
qed

lemma announced_once_until_forgotten_witness:
  "Forgot demo_peer \<in> set (take 13 (drop 5 demo_trace)) \<or> ForgotAll \<in> set (take 13 (drop 5 demo_trace))"
proof -
  have split: "demo_trace = take 4 demo_trace @ Announced demo_peer demo_ma # take 13 (drop 5 demo_trace) @
      Announced demo_peer demo_ma # drop 19 demo_trace" by (simp add: demo_trace_def)
  from demo_run obtain y where "run (system_step demo_env rev) (system_new demo_env 1 tw_init) demo_trace
      (WIdle, [Finished (CloseRet (Ok ()))], y)" by blast
  then have "run (system_step demo_env rev) (system_new demo_env 1 tw_init) (take 4 demo_trace @
      Announced demo_peer demo_ma # take 13 (drop 5 demo_trace) @ Announced demo_peer demo_ma # drop 19 demo_trace)
      (WIdle, [Finished (CloseRet (Ok ()))], y)" using split by metis
  from announced_once_until_forgotten [OF demo_report_laws this] show ?thesis .
qed

lemma announcements_delivered_in_order_witness:
  "announced demo_trace = delivered demo_trace @ [demo_ma]"
  using demo_run announcements_delivered_in_order [OF demo_report_laws] by fastforce

lemma channel_carries_webrtc_addresses_witness:
  "\<exists>a. multiaddr_to_socketaddr list_ma demo_ma = Some (sock_new (sock_ip a) (sock_port a))"
proof -
  from demo_run obtain y where "run (system_step demo_env rev) (system_new demo_env 1 tw_init) demo_trace
      (WIdle, [Finished (CloseRet (Ok ()))], y)" by blast
  moreover have "demo_ma \<in> set (delivered demo_trace)" by (simp add: demo_trace_def)
  ultimately show ?thesis using channel_carries_webrtc_addresses [OF demo_report_laws, of rev 1 tw_init demo_trace] by fastforce
qed


lemma registration_overtakes_report_witness:
  "\<exists>vs ts y. run (system_step demo_env rev) (system_new demo_env 1 tw_init) vs (WIdle, ts, y) \<and>
     ts = [Finished RegisterRet] \<and> sys_ctl y = Running \<and> address_map (sys_mux y) = [demo_peer \<mapsto> (0, ''ab'')] \<and>
     demo_peer \<in> new_addrs (sys_mux y) \<and> worker_section demo_env (WCheck demo_peer) y = (WIdle, Silent, y)"
  using fits_demo
  by (intro registration_overtakes_report [where u = demo_ufrag and f = demo_fp and data = demo_packet
      and q = "(1, [demo_ma], False)"])
     (simp_all add: fits_def list_mpsc_def)

end
