(* ===== verification/Node.thy ===== *)
theory Node
  imports Webrtc_Transport Udp_Mux_System
begin

text \<open>
  A listening peer as a whole: the packet worker and the callers of the mux (\<open>src/udp_mux.rs\<close>) together with any
  number of listen streams made from one transport (\<open>src/transport.rs\<close>), which share the channel of new addresses.
\<close>

section \<open>Polling a stream many times\<close>

text \<open>Polling the listen stream a number of times; \<open>None\<close> if a poll does not return.\<close>

fun poll_many ::
  "('ma, 'pid, 'o, 'x, 'w) rtc_api \<Rightarrow> ('o, 'w) data_channel_api \<Rightarrow> ('o, 'iq) mpsc_api \<Rightarrow>
   ('ma, 'h) multiaddr_api \<Rightarrow> ('tt, description_context, 'te) tt_api \<Rightarrow> ('ma, 'q) mpsc_api \<Rightarrow>
   ('o, 'w) if_watch_api \<Rightarrow> nat \<Rightarrow> ('ma, 'o, 'r) listen_stream \<Rightarrow> 'q \<Rightarrow> 'w \<Rightarrow>
   (('ma, 'pid, 'o, 'x, 'iq, 'w) listen_item list \<times> ('ma, 'o, 'r) listen_stream \<times> 'q \<times> 'w) option" where
  "poll_many A D C M T N L 0 ls q w = Some ([], ls, q, w)"
| "poll_many A D C M T N L (Suc n) ls q w =
     (case poll_next A D C M T N L ls q w of
        None \<Rightarrow> None
      | Some (r, ls', q', w') \<Rightarrow>
          (case poll_many A D C M T N L n ls' q' w' of
             None \<Rightarrow> None
           | Some (rs, ls2, q2, w2) \<Rightarrow> Some (r # rs, ls2, q2, w2)))"

definition upgrade_item ::
  "('ma, 'pid, 'o, 'x, 'w) rtc_api \<Rightarrow> ('o, 'w) data_channel_api \<Rightarrow> ('o, 'iq) mpsc_api \<Rightarrow>
   ('ma, 'h) multiaddr_api \<Rightarrow> ('tt, description_context, 'te) tt_api \<Rightarrow> ('ma, 'o, 'r) listen_stream \<Rightarrow> 'ma \<Rightarrow>
   ('ma, 'pid, 'o, 'x, 'iq, 'w) listen_item" where
  "upgrade_item A D C M T ls m =
     Ready (Some (Ok (Upgrade (ip_to_multiaddr M (sock_ip (ls_listen_addr ls)) (sock_port (ls_listen_addr ls))) m
       (webrtc A D C M T (ls_udp_mux ls) (ls_config ls) m (ls_id_keys ls)))))"

lemma poll_next_upgrade:
  assumes "mpsc_laws N" and "ls_in_addr ls = One None" and "ls_pause ls = None" and "mpsc_queued N q = m # ms"
  shows "\<exists>q'. poll_next A D C M T N L ls q w = Some (upgrade_item A D C M T ls m, ls, q', w) \<and> mpsc_queued N q' = ms"
proof -
  obtain r q' where p: "mpsc_poll_next N q = (r, q')" by fastforce
  with mpsc_poll_next_spec [OF assms(1), of q] assms(4) have "r = Ready (Some m)" "mpsc_queued N q' = ms" by simp_all
  moreover have "ls\<lparr>ls_pause := None\<rparr> = ls" using assms(3) by simp
  ultimately show ?thesis using p assms(2,3) by (simp add: poll_tail_def poll_new_addr_def upgrade_item_def)
qed

lemma poll_many_upgrades:
  assumes "mpsc_laws N" and "ls_in_addr ls = One None" and "ls_pause ls = None" and "mpsc_queued N q = ms"
  shows "\<exists>q'. poll_many A D C M T N L (length ms) ls q w = Some (map (upgrade_item A D C M T ls) ms, ls, q', w) \<and>
    mpsc_queued N q' = []"
  using assms(4)
proof (induction ms arbitrary: q)
  case (Cons m ms)
  obtain q1 where q1: "poll_next A D C M T N L ls q w = Some (upgrade_item A D C M T ls m, ls, q1, w)" "mpsc_queued N q1 = ms"
    using poll_next_upgrade [OF assms(1-3) Cons.prems, of A D C M T L w] by blast
  from Cons.IH [OF q1(2)] obtain q' where
    "poll_many A D C M T N L (length ms) ls q1 w = Some (map (upgrade_item A D C M T ls) ms, ls, q', w)" "mpsc_queued N q' = []"
    by blast
  with q1(1) show ?case by simp
qed simp

section \<open>A poll and the channel\<close>

text \<open>The address a poll takes from the channel for an upgrade.\<close>

definition item_upgrade :: "('ma, 'pid, 'o, 'x, 'iq, 'w) listen_item \<Rightarrow> 'ma option" where
  "item_upgrade r = (case r of Ready (Some (Ok (Upgrade l a u))) \<Rightarrow> Some a | _ \<Rightarrow> None)"

definition item_visible :: "('ma, 'pid, 'o, 'x, 'iq, 'w) listen_item \<Rightarrow> 'ma visible" where
  "item_visible r = (case item_upgrade r of Some a \<Rightarrow> Delivered a | None \<Rightarrow> Silent)"

text \<open>A poll leaves the channel alone, or reads it once and yields an upgrade for what it read.\<close>

lemma poll_tail_channel:
  assumes "poll_tail A D C M T N L ls q w = (r, ls', q', w')"
  shows "q' = q \<and> item_upgrade r = None \<or> (\<exists>x. mpsc_poll_next N q = (x, q') \<and> item_visible r = take_visible x)"
  using assms
  by (auto simp: poll_tail_def poll_new_addr_def Let_def item_upgrade_def item_visible_def take_visible_def
      split: option.splits prod.splits poll.splits)

lemma origin_channel:
  assumes "item_origin A D C M T N L ls q r ls' q'"
  shows "q' = q \<and> item_upgrade r = None \<or> (\<exists>x. mpsc_poll_next N q = (x, q') \<and> item_visible r = take_visible x)"
  using assms
proof (induction rule: item_origin.induct)
  case (from_tail ls q v r ls' q' w')
  then show ?case by (rule poll_tail_channel)
qed (auto simp: item_upgrade_def)

section \<open>The machine\<close>

type_synonym ('ma, 'o, 'r, 'c, 'q, 'w, 'v) node = "('ma, 'o, 'r) listen_stream list \<times> ('c, 'q, 'w) system \<times> 'v"

datatype ('ma, 'pid, 'o, 'x, 'iq, 'v) node_label =
  MuxStep "'ma visible"
| Yields nat "('ma, 'pid, 'o, 'x, 'iq, 'v) listen_item"
| NewListener

text \<open>
  The channel is read by the streams only; a stream that has been dropped is one that is not polled any more.
\<close>

inductive node_step ::
  "('ma, 'pid, 'o, 'x, 'v) rtc_api \<Rightarrow> ('o, 'v) data_channel_api \<Rightarrow> ('o, 'iq) mpsc_api \<Rightarrow>
   ('tt, description_context, 'te) tt_api \<Rightarrow> ('o, 'v) if_watch_api \<Rightarrow> ('o, 'r) webrtc_direct_transport \<Rightarrow>
   ('ma, 'h, 'm, 'c, 'q, 'w) mux_env \<Rightarrow> ((string, 'c) hashmap \<Rightarrow> (string, 'c) hashmap) \<Rightarrow>
   ('ma, 'o, 'r, 'c, 'q, 'w, 'v) node \<Rightarrow> ('ma, 'pid, 'o, 'x, 'iq, 'v) node_label \<Rightarrow>
   ('ma, 'o, 'r, 'c, 'q, 'w, 'v) node \<Rightarrow> bool"
  for A D C T L self E ord where
  node_mux: "system_step E ord c v d \<Longrightarrow> \<forall>m. v \<noteq> Delivered m \<Longrightarrow>
    node_step A D C T L self E ord (lss, c, w) (MuxStep v) (lss, d, w)"
| node_poll: "i < length lss \<Longrightarrow>
    poll_next A D C (env_ma E) T (env_mpsc E) L (lss ! i) (sys_chan y) w = Some (r, ls', q', w') \<Longrightarrow>
    node_step A D C T L self E ord (lss, (p, ts, y), w) (Yields i r) (lss[i := ls'], (p, ts, y\<lparr>sys_chan := q'\<rparr>), w')"
| node_listen: "listen_on (env_ma E) L self addr w =
      (Ok ls :: (_, ('ma, ('ma, 'pid, 'x) error) transport_error) result, w') \<Longrightarrow>
    node_step A D C T L self E ord (lss, c, w) NewListener (lss @ [ls], c, w')"

fun node_announced :: "('ma, 'pid, 'o, 'x, 'iq, 'v) node_label list \<Rightarrow> 'ma list" where
  "node_announced [] = []"
| "node_announced (MuxStep v # ls) = announced [v] @ node_announced ls"
| "node_announced (_ # ls) = node_announced ls"

text \<open>The upgrades the streams have yielded: by which stream, and for which address.\<close>

fun node_upgrades :: "('ma, 'pid, 'o, 'x, 'iq, 'v) node_label list \<Rightarrow> (nat \<times> 'ma) list" where
  "node_upgrades [] = []"
| "node_upgrades (Yields i r # ls) =
     (case item_upgrade r of Some a \<Rightarrow> [(i, a)] | None \<Rightarrow> []) @ node_upgrades ls"
| "node_upgrades (_ # ls) = node_upgrades ls"

lemma announced_append: "announced (us @ vs) = announced us @ announced vs"
  by (induction us rule: announced.induct) simp_all

lemma delivered_append: "delivered (us @ vs) = delivered us @ delivered vs"
  by (induction us rule: delivered.induct) simp_all

text \<open>Forgetting the streams gives a run of the mux system in which their upgrades are the deliveries.\<close>

lemma node_step_system:
  assumes "node_step A D C T L self E ord (lss, c, w) l (lss', c', w')"
  shows "\<exists>vs. run (system_step E ord) c vs c' \<and> announced vs = node_announced [l] \<and> delivered vs = map snd (node_upgrades [l])"
  using assms
proof (cases rule: node_step.cases)
  case (node_mux v)
  then show ?thesis by (intro exI [of _ "[v]"]) (cases v, auto intro: run_single)
next
  case (node_poll i y r ls' q' p ts)
  from origin_channel [OF poll_next_origin [OF node_poll(6)]] show ?thesis
  proof (elim disjE conjE exE)
    assume "q' = sys_chan y" and "item_upgrade r = None"
    then show ?thesis using node_poll by (intro exI [of _ "[]"]) (auto intro: run_nil)
  next
    fix x
    assume "mpsc_poll_next (env_mpsc E) (sys_chan y) = (x, q')" and v: "item_visible r = take_visible x"
    from listen [OF this(1), of ord p ts] v have "system_step E ord (p, ts, y) (item_visible r) (p, ts, y\<lparr>sys_chan := q'\<rparr>)"
      by simp
    then show ?thesis using node_poll(1-4)
      by (intro exI [of _ "[item_visible r]"]) (auto intro: run_single simp: item_visible_def split: option.splits)
  qed
next
  case node_listen
  then show ?thesis by (intro exI [of _ "[]"]) (auto intro: run_nil)
qed

lemma node_run_system:
  assumes "run (node_step A D C T L self E ord) n ls n'"
  shows "\<exists>vs. run (system_step E ord) (fst (snd n)) vs (fst (snd n')) \<and> announced vs = node_announced ls \<and>
    delivered vs = map snd (node_upgrades ls)"
  using assms
proof (induction rule: run.induct)
  case (run_nil n)
  show ?case by (intro exI [of _ "[]"]) (simp add: Prelude.run_nil)
next
  case (run_cons n l n' ls n'')
  obtain us where us: "run (system_step E ord) (fst (snd n)) us (fst (snd n'))" "announced us = node_announced [l]"
    "delivered us = map snd (node_upgrades [l])"
    using node_step_system [of A D C T L self E ord "fst n" "fst (snd n)" "snd (snd n)" l "fst n'" "fst (snd n')" "snd (snd n')"]
      run_cons(1) by auto
  obtain vs where vs: "run (system_step E ord) (fst (snd n')) vs (fst (snd n''))" "announced vs = node_announced ls"
    "delivered vs = map snd (node_upgrades ls)" using run_cons.IH by blast
  have "node_announced (l # ls) = node_announced [l] @ node_announced ls"
    "node_upgrades (l # ls) = node_upgrades [l] @ node_upgrades ls" by (cases l; simp)+
  with us vs show ?case
    by (intro exI [of _ "us @ vs"]) (simp add: run_append announced_append delivered_append)
qed

lemma node_upgrades_index:
  assumes "run (node_step A D C T L self E ord) n ls n'"
  shows "length (fst n) \<le> length (fst n') \<and> (\<forall>(i, m) \<in> set (node_upgrades ls). i < length (fst n'))"
  using assms
proof (induction rule: run.induct)
  case (run_cons n l n' ls n'')
  from run_cons(1) have "length (fst n) \<le> length (fst n') \<and> (\<forall>(i, m) \<in> set (node_upgrades [l]). i < length (fst n))"
    by (cases rule: node_step.cases) (auto split: option.splits)
  moreover have "node_upgrades (l # ls) = node_upgrades [l] @ node_upgrades ls" by (cases l) simp_all
  ultimately show ?case using run_cons.IH by fastforce
qed simp

section \<open>How much can wait\<close>

text \<open>
  The capacity of a channel with one sender: the buffer it was made with and the one slot every sender has. \<open>cap_of\<close>
  observes the size of the buffer.
\<close>

definition mpsc_capacity_law :: "('a, 'q) mpsc_api \<Rightarrow> ('q \<Rightarrow> nat) \<Rightarrow> bool" where
  "mpsc_capacity_law C cap_of \<longleftrightarrow>
     (\<forall>n. cap_of (mpsc_channel C n) = n) \<and>
     (\<forall>x q q'. mpsc_try_send C x q = (True, q') \<longrightarrow> length (mpsc_queued C q') \<le> cap_of q + 1) \<and>
     (\<forall>x q. cap_of (snd (mpsc_try_send C x q)) = cap_of q) \<and>
     (\<forall>q. cap_of (snd (mpsc_poll_next C q)) = cap_of q)"

lemma mpsc_capacity_send:
  assumes "mpsc_laws C" and "mpsc_capacity_law C cap_of" and "mpsc_try_send C x q = (b, q')"
    and "length (mpsc_queued C q) \<le> cap_of q + 1"
  shows "cap_of q' = cap_of q" and "length (mpsc_queued C q') \<le> cap_of q + 1"
proof -
  show "cap_of q' = cap_of q" using assms(2,3) unfolding mpsc_capacity_law_def by (metis snd_conv)
  show "length (mpsc_queued C q') \<le> cap_of q + 1"
  proof (cases b)
    case True
    with assms(3) have "mpsc_try_send C x q = (True, q')" by simp
    with assms(2) show ?thesis unfolding mpsc_capacity_law_def by blast
  next
    case False
    with assms(3,4) mpsc_try_send_False(1) [OF assms(1), of x q q'] show ?thesis by simp
  qed
qed

definition channel_ok :: "('ma, 'h, 'm, 'c, 'q, 'w) mux_env \<Rightarrow> ('q \<Rightarrow> nat) \<Rightarrow> nat \<Rightarrow> ('c, 'q, 'w) system \<Rightarrow> bool" where
  "channel_ok E cap_of cap = (\<lambda>(p, ts, y).
     mpsc_laws (env_mpsc E) \<and> mpsc_capacity_law (env_mpsc E) cap_of \<and>
     cap_of (sys_chan y) = cap \<and> length (mpsc_queued (env_mpsc E) (sys_chan y)) \<le> cap + 1)"

lemma worker_section_channel:
  assumes "worker_section E p y = (p', v, z)"
  shows "sys_chan z = sys_chan y \<or> (\<exists>m b. mpsc_try_send (env_mpsc E) m (sys_chan y) = (b, sys_chan z))"
  using assms
  by (cases "(E, p, y)" rule: worker_section.cases)
     (auto split: if_splits option.splits result.splits outcome.splits prod.splits bool.splits)

interpretation channel_bound: step_invariant "system_step E ord" "channel_ok E cap_of cap"
  for E :: "('ma, 'h, 'm, 'c, 'q, 'w) mux_env" and ord cap_of cap
proof unfold_locales
  fix c v d
  assume "system_step E ord c v d" and "channel_ok E cap_of cap c"
  then show "channel_ok E cap_of cap d"
  proof (induction rule: system_step.induct)
    case (work p y p' v y' ts)
    then have laws: "mpsc_laws (env_mpsc E)" "mpsc_capacity_law (env_mpsc E) cap_of" by (simp_all add: channel_ok_def)
    from worker_section_channel [OF work(1)] show ?case
    proof (elim disjE exE)
      fix m b
      assume t: "mpsc_try_send (env_mpsc E) m (sys_chan y) = (b, sys_chan y')"
      from mpsc_capacity_send [OF laws t] work laws show ?case by (auto simp: channel_ok_def)
    qed (use work in \<open>simp add: channel_ok_def\<close>)
  next
    case (listen y r q p ts)
    then have "q = snd (mpsc_poll_next (env_mpsc E) (sys_chan y))" by simp
    with listen(2) mpsc_poll_next_spec(2) [of "env_mpsc E" "sys_chan y"] show ?case
      by (auto simp: channel_ok_def mpsc_capacity_law_def)
  qed (auto simp: channel_ok_def worker_turn_idle)
qed

section \<open>Properties\<close>

text \<open>C9: Every announcement is upgraded by one stream: however the worker, the callers of the mux and any number of listen
  streams of one transport interleave, the addresses the worker has announced are, in this order, those for which some
  stream has yielded an upgrade, each one once, followed by those still in the channel; and every upgrade is for an
  address that a socket address can be read from.\<close>

theorem every_announcement_upgraded_once:
  assumes "report_laws E"
    and "run (node_step A D C T L self E ord) ([], system_new E cap u, w) ls (lss, (p, ts, y), w')"
  shows "node_announced ls = map snd (node_upgrades ls) @ mpsc_queued (env_mpsc E) (sys_chan y) \<and>
    (\<forall>(i, m) \<in> set (node_upgrades ls). i < length lss \<and> multiaddr_to_socketaddr (env_ma E) m \<noteq> None)"
proof -
  obtain vs where vs: "run (system_step E ord) (system_new E cap u) vs (p, ts, y)" "announced vs = node_announced ls"
    "delivered vs = map snd (node_upgrades ls)" using node_run_system [OF assms(2)] by auto
  note spec = system_announces [OF assms(1) vs(1)]
  have fifo: "node_announced ls = map snd (node_upgrades ls) @ mpsc_queued (env_mpsc E) (sys_chan y)"
    using announce_spec_fifo [OF spec] vs(2,3) by (simp add: observed_def)
  have "multiaddr_to_socketaddr (env_ma E) m \<noteq> None" if "(i, m) \<in> set (node_upgrades ls)" for i m
  proof -
    have "m \<in> snd ` set (node_upgrades ls)" using that by force
    with fifo vs(2) have "m \<in> set (announced vs)" by simp
    with announced_reportable [OF spec] wf_multiaddr show ?thesis by fastforce
  qed
  with fifo node_upgrades_index [OF assms(2)] show ?thesis by auto
qed


section \<open>Witnesses\<close>

lemma list_mpsc_capacity: "mpsc_capacity_law list_mpsc fst"
  by (auto simp: mpsc_capacity_law_def list_mpsc_def split: if_splits list.splits)


lemma mux_run_node:
  assumes "run (system_step E ord) c vs d" and "delivered vs = []"
  shows "run (node_step A D C T L self E ord) (lss, c, w) (map MuxStep vs) (lss, d, w)"
  using assms
proof (induction rule: run.induct)
  case (run_nil c)
  then show ?case by (simp add: Prelude.run_nil)
next
  case (run_cons c v d vs e)
  then have "\<forall>m. v \<noteq> Delivered m" and "delivered vs = []" by (cases v; simp)+
  with run_cons show ?case by (auto intro: Prelude.run_cons node_mux)
qed

text \<open>One peer is announced while two streams listen; the second stream takes it.\<close>

definition demo_self :: "(nat, unit) webrtc_direct_transport" where
  "demo_self = demo_transport\<lparr>tr_udp_mux_addr := SockV4 0x7F000001 9000\<rparr>"

definition demo_stream :: "(nat protocol list, nat, unit) listen_stream" where
  "demo_stream = demo_listener\<lparr>ls_in_addr := One (Some (ip_to_multiaddr list_ma (IpV4 0x7F000001) 9000))\<rparr>"

lemma demo_listen: "listen_on list_ma toy_ifw demo_self [] w =
    (Ok demo_stream :: (_, (_, (_, nat, string) error) transport_error) result, w)"
  by (simp add: listen_on_def listen_stream_new_def demo_self_def demo_transport_def demo_stream_def demo_listener_def)

lemma demo_announce:
  "\<exists>y. run (system_step demo_env rev) (system_new demo_env 1 tw_init)
      [Silent, Silent, Silent, Silent, Announced demo_peer demo_ma, Silent] (WIdle, [], y) \<and>
     mpsc_queued list_mpsc (sys_chan y) = [demo_ma]"
proof -
  have "\<exists>y. system_schedule demo_env rev [Receive demo_packet demo_peer, Work, Work, Work, Work, Work] (system_new demo_env 1 tw_init) =
     Some ([Silent, Silent, Silent, Silent, Announced demo_peer demo_ma, Silent], WIdle, [], y) \<and>
     mpsc_queued list_mpsc (sys_chan y) = [demo_ma]"
    using fits_demo
    by (simp add: system_new_def sys_new_def mux_new_def is_closed_def conn_from_stun_message_def list_mpsc_def fits_def)
  then show ?thesis using system_schedule_run by blast
qed

abbreviation demo_item :: "(nat protocol list, nat, nat, string, nat \<times> nat list \<times> bool, dworld) listen_item" where
  "demo_item \<equiv> upgrade_item toy_rtc toy_dc list_mpsc list_ma demo_tt demo_listener demo_ma"

definition demo_node_trace ::
  "(nat protocol list, nat, nat, string, nat \<times> nat list \<times> bool, dworld) node_label list" where
  "demo_node_trace =
     map MuxStep [Silent, Silent, Silent, Silent, Announced demo_peer demo_ma, Silent] @
     [NewListener, NewListener, Yields 1 (Ready (Some (Ok (NewAddress (ip_to_multiaddr list_ma (IpV4 0x7F000001) 9000))))),
      Yields 1 demo_item]"

lemma demo_node_run:
  "\<exists>lss p ts y. run (node_step toy_rtc toy_dc list_mpsc demo_tt toy_ifw demo_self demo_env rev)
     ([], system_new demo_env 1 tw_init, dw_init) demo_node_trace (lss, (p, ts, y), dw_init)"
proof -
  let ?step = "node_step toy_rtc toy_dc list_mpsc demo_tt toy_ifw demo_self demo_env rev"
  obtain y where y: "run (system_step demo_env rev) (system_new demo_env 1 tw_init)
      [Silent, Silent, Silent, Silent, Announced demo_peer demo_ma, Silent] (WIdle, [], y)"
    and q: "mpsc_queued list_mpsc (sys_chan y) = [demo_ma]"
    by (insert demo_announce, elim exE conjE) (rule that)
  let ?n = "\<lambda>lss. (lss, (WIdle, [], y), dw_init)"
  have mux: "run ?step ([], system_new demo_env 1 tw_init, dw_init)
      (map MuxStep [Silent, Silent, Silent, Silent, Announced demo_peer demo_ma, Silent]) (?n [])"
    by (rule mux_run_node [OF y]) simp
  have l1: "?step (?n lss) NewListener (?n (lss @ [demo_stream]))" for lss
    by (rule node_listen [where addr = "[]"]) (simp add: demo_listen)
  have p1: "?step (?n [demo_stream, demo_stream])
      (Yields 1 (Ready (Some (Ok (NewAddress (ip_to_multiaddr list_ma (IpV4 0x7F000001) 9000)))))) (?n [demo_stream, demo_listener])"
    using node_poll [of 1 "[demo_stream, demo_stream]" toy_rtc toy_dc list_mpsc demo_env demo_tt toy_ifw y dw_init]
    by (simp add: demo_stream_def demo_listener_def)
  have idle: "ls_in_addr demo_listener = One None" "ls_pause demo_listener = None" by (simp_all add: demo_listener_def)
  obtain q' where "demo_poll demo_listener (sys_chan y) dw_init = Some (demo_item, demo_listener, q', dw_init)"
    by (rule exE [OF poll_next_upgrade [OF list_mpsc_laws idle q, of toy_rtc toy_dc list_mpsc list_ma demo_tt toy_ifw dw_init]])
      (erule conjE, rule that)
  then have p2: "?step (?n [demo_stream, demo_listener]) (Yields 1 demo_item)
      ([demo_stream, demo_listener], (WIdle, [], y\<lparr>sys_chan := q'\<rparr>), dw_init)"
    using node_poll [of 1 "[demo_stream, demo_listener]" toy_rtc toy_dc list_mpsc demo_env demo_tt toy_ifw y dw_init] by simp
  have "run ?step (?n []) [NewListener, NewListener, Yields 1 (Ready (Some (Ok (NewAddress (ip_to_multiaddr list_ma (IpV4 0x7F000001) 9000))))),
      Yields 1 demo_item] ([demo_stream, demo_listener], (WIdle, [], y\<lparr>sys_chan := q'\<rparr>), dw_init)"
    using l1 [of "[]"] l1 [of "[demo_stream]"] p1 p2 by (auto intro!: run_intros)
  from run_append [OF mux this] show ?thesis unfolding demo_node_trace_def by blast
qed

lemma every_announcement_upgraded_once_witness:
  "\<exists>ms. node_announced demo_node_trace = map snd (node_upgrades demo_node_trace) @ ms \<and>
     node_upgrades demo_node_trace = [(1, demo_ma)]"
proof -
  obtain lss p ts y where r: "run (node_step toy_rtc toy_dc list_mpsc demo_tt toy_ifw demo_self demo_env rev)
     ([], system_new demo_env 1 tw_init, dw_init) demo_node_trace (lss, (p, ts, y), dw_init)"
    by (insert demo_node_run, elim exE) (rule that)
  have "node_upgrades demo_node_trace = [(1, demo_ma)]"
    by (simp add: demo_node_trace_def item_upgrade_def upgrade_item_def)
  with every_announcement_upgraded_once [OF demo_report_laws r] show ?thesis by blast
qed

end
