(* ===== verification/Wakeups.thy ===== *)
theory Wakeups
  imports Node
begin

text \<open>
  Who is woken when the packet worker reports an address. The listen streams of a transport lock one receiver
  (\<open>new_addr_rx\<close> of \<open>src/transport.rs\<close>), and a receiver remembers one waker: that of the task which polled it last and
  found it empty, as the contract of \<open>Stream::poll_next\<close> says. A send takes this waker and wakes the task. The streams
  here listen on one address, so that the channel is the only thing they wait for.
\<close>

section \<open>The machine\<close>

text \<open>
  Streams are numbered by their position; \<open>task i\<close> is the task that polls stream \<open>i\<close>. A stream is awake if its task is
  going to poll it. A task that is woken polls all its streams.
\<close>

record ('ma, 'o, 'r, 'q, 'w) wakeups =
  wk_streams :: "('ma, 'o, 'r) listen_stream list"
  wk_dropped :: "nat set"
  wk_chan :: 'q
  wk_waker :: "nat option"
  wk_awake :: "nat set"
  wk_world :: 'w

datatype ('ma, 'pid, 'o, 'x, 'iq, 'w) wake_label =
  Sent 'ma
| Polled nat "('ma, 'pid, 'o, 'x, 'iq, 'w) listen_item"
| Dropped nat
| Woken nat

definition wake :: "(nat \<Rightarrow> nat) \<Rightarrow> nat option \<Rightarrow> nat set \<Rightarrow> nat set" where
  "wake task t awake = (case t of Some t \<Rightarrow> awake \<union> {i. task i = t} | None \<Rightarrow> awake)"

definition is_pending :: "'a poll \<Rightarrow> bool" where
  "is_pending r = (case r of Pending \<Rightarrow> True | Ready _ \<Rightarrow> False)"

text \<open>A poll of an empty channel registers the waker of its task in place of the one registered before.\<close>

inductive wake_step ::
  "('ma, 'pid, 'o, 'x, 'w) rtc_api \<Rightarrow> ('o, 'w) data_channel_api \<Rightarrow> ('o, 'iq) mpsc_api \<Rightarrow>
   ('ma, 'h) multiaddr_api \<Rightarrow> ('tt, description_context, 'te) tt_api \<Rightarrow> ('ma, 'q) mpsc_api \<Rightarrow>
   ('o, 'w) if_watch_api \<Rightarrow> (nat \<Rightarrow> nat) \<Rightarrow> ('ma, 'o, 'r, 'q, 'w) wakeups \<Rightarrow>
   ('ma, 'pid, 'o, 'x, 'iq, 'w) wake_label \<Rightarrow> ('ma, 'o, 'r, 'q, 'w) wakeups \<Rightarrow> bool"
  for A D C M T N L task where
  sent: "mpsc_try_send N m (wk_chan s) = (True, q') \<Longrightarrow>
    wake_step A D C M T N L task s (Sent m)
      (s\<lparr>wk_chan := q', wk_awake := wake task (wk_waker s) (wk_awake s), wk_waker := None\<rparr>)"
| poll: "i < length (wk_streams s) \<Longrightarrow> i \<notin> wk_dropped s \<Longrightarrow> i \<in> wk_awake s \<Longrightarrow>
    poll_next A D C M T N L (wk_streams s ! i) (wk_chan s) (wk_world s) = Some (r, ls', q', w') \<Longrightarrow>
    wake_step A D C M T N L task s (Polled i r)
      (s\<lparr>wk_streams := (wk_streams s)[i := ls'], wk_chan := q', wk_world := w',
         wk_waker := if is_pending r then Some (task i) else wk_waker s,
         wk_awake := if is_pending r then wk_awake s - {i} else wk_awake s\<rparr>)"
| dropped: "wake_step A D C M T N L task s (Dropped i) (s\<lparr>wk_dropped := insert i (wk_dropped s)\<rparr>)"
| woken: "wake_step A D C M T N L task s (Woken t) (s\<lparr>wk_awake := wake task (Some t) (wk_awake s)\<rparr>)"

text \<open>Every task polls a stream it has just been given.\<close>

definition wake_init :: "('ma, 'o, 'r) listen_stream list \<Rightarrow> 'q \<Rightarrow> 'w \<Rightarrow> ('ma, 'o, 'r, 'q, 'w) wakeups" where
  "wake_init lss q w = \<lparr>wk_streams = lss, wk_dropped = {}, wk_chan = q, wk_waker = None,
     wk_awake = {..<length lss}, wk_world = w\<rparr>"

definition live :: "('ma, 'o, 'r, 'q, 'w) wakeups \<Rightarrow> nat \<Rightarrow> bool" where
  "live s i \<longleftrightarrow> i < length (wk_streams s) \<and> i \<notin> wk_dropped s"

text \<open>A stream that listens on one address.\<close>

definition single :: "('ma, 'o, 'r) listen_stream \<Rightarrow> bool" where
  "single ls \<longleftrightarrow> (\<exists>out. ls_in_addr ls = One out) \<and> ls_pause ls = None"

lemma single_new:
  "\<not> (case listen_addr of SockV4 a _ \<Rightarrow> a = 0 | SockV6 a _ _ _ \<Rightarrow> a = 0) \<Longrightarrow>
     single (fst (listen_stream_new M L listen_addr config mux rx keys w))"
  by (simp add: single_def listen_stream_new_def Let_def)

lemma is_pending_simps [simp]: "is_pending Pending" "\<not> is_pending (Ready x)"
  by (simp_all add: is_pending_def)

section \<open>Polls of a stream on one address\<close>

lemma single_poll:
  assumes "mpsc_laws N" and "single ls" and "poll_next A D C M T N L ls q w = Some (r, ls', q', w')"
  shows "single ls'" and "is_pending r \<Longrightarrow> mpsc_queued N q = []"
    and "mpsc_queued N q = [] \<Longrightarrow> mpsc_queued N q' = []"
proof -
  obtain x v where x: "mpsc_poll_next N q = (x, v)" by fastforce
  with mpsc_poll_next_spec(1,2) [OF assms(1), of q] have
    "x = (case mpsc_queued N q of m # ms \<Rightarrow> Ready (Some m) | [] \<Rightarrow> if mpsc_closed N q then Ready None else Pending)"
    and v: "mpsc_queued N v = tl (mpsc_queued N q)" by simp_all
  moreover obtain out where "ls_in_addr ls = One out" "ls_pause ls = None" using assms(2) by (auto simp: single_def)
  ultimately show "single ls'" "is_pending r \<Longrightarrow> mpsc_queued N q = []" "mpsc_queued N q = [] \<Longrightarrow> mpsc_queued N q' = []"
    using assms(3) x
    by (cases out; auto simp: single_def poll_tail_def poll_new_addr_def Let_def split: list.splits if_splits)+
qed

lemma single_poll_total:
  assumes "mpsc_laws N" and "single ls" and "mpsc_queued N q \<noteq> []"
  obtains x ls' q' where "poll_next A D C M T N L ls q w = Some (Ready x, ls', q', w)"
proof -
  obtain out where out: "ls_in_addr ls = One out" "ls_pause ls = None" using assms(2) by (auto simp: single_def)
  obtain m ms where "mpsc_queued N q = m # ms" using assms(3) by (cases "mpsc_queued N q") auto
  then show thesis
    using that out poll_next_upgrade [OF assms(1) _ out(2), of q m ms A D C M T L w]
    by (cases out rule: option.exhaust) (auto simp: upgrade_item_def)
qed

lemma empty_poll:
  assumes "mpsc_laws N" and "mpsc_queued N q = []" and "\<not> mpsc_closed N q"
  obtains q' where "mpsc_poll_next N q = (Pending, q')" and "mpsc_queued N q' = []" and "\<not> mpsc_closed N q'"
  using mpsc_poll_next_spec [OF assms(1), of q] assms(2,3) by (cases "mpsc_poll_next N q") auto

lemma sleeping_poll:
  "single l \<Longrightarrow> ls_in_addr l = One None \<Longrightarrow> mpsc_poll_next N q = (Pending, q') \<Longrightarrow>
     poll_next A D C M T N L l q w = Some (Pending, l, q', w)"
  by (simp add: single_def poll_tail_def poll_new_addr_def)

section \<open>Invariants\<close>

text \<open>
  Whenever an address waits, some stream is awake, though it may have been dropped; when all streams belong to one task,
  all of them are.
\<close>

definition some_awake ::
  "('ma, 'q) mpsc_api \<Rightarrow> (nat \<Rightarrow> nat) \<Rightarrow> ('ma, 'o, 'r, 'q, 'w) wakeups \<Rightarrow> bool" where
  "some_awake N task s \<longleftrightarrow> mpsc_laws N \<and> list_all single (wk_streams s) \<and>
     (case wk_waker s of
        None \<Rightarrow> \<exists>i < length (wk_streams s). i \<in> wk_awake s
      | Some t \<Rightarrow> (\<exists>i < length (wk_streams s). task i = t) \<and>
          (mpsc_queued N (wk_chan s) = [] \<or> (\<exists>i < length (wk_streams s). i \<in> wk_awake s)))"

definition all_awake ::
  "('ma, 'q) mpsc_api \<Rightarrow> (nat \<Rightarrow> nat) \<Rightarrow> ('ma, 'o, 'r, 'q, 'w) wakeups \<Rightarrow> bool" where
  "all_awake N task s \<longleftrightarrow> mpsc_laws N \<and> list_all single (wk_streams s) \<and> (\<forall>i. task i = task 0) \<and>
     (case wk_waker s of
        None \<Rightarrow> \<forall>i < length (wk_streams s). i \<in> wk_awake s
      | Some t \<Rightarrow> t = task 0 \<and>
          (mpsc_queued N (wk_chan s) = [] \<or> (\<forall>i < length (wk_streams s). i \<in> wk_awake s)))"

lemmas wake_defs = some_awake_def all_awake_def wake_def

lemma single_update:
  assumes "mpsc_laws N" and "list_all single lss" and "i < length lss"
    and "poll_next A D C M T N L (lss ! i) q w = Some (r, ls', q', w')"
  shows "list_all single (lss[i := ls'])" and "is_pending r \<Longrightarrow> mpsc_queued N q = []"
    and "mpsc_queued N q = [] \<Longrightarrow> mpsc_queued N q' = []"
proof -
  have "single (lss ! i)" using assms(2,3) by (simp add: list_all_length)
  note poll = single_poll [OF assms(1) this assms(4)]
  show "list_all single (lss[i := ls'])" using assms(2) poll(1) by (auto simp: list_all_iff dest!: set_update_subset_insert [THEN subsetD])
  show "is_pending r \<Longrightarrow> mpsc_queued N q = []" "mpsc_queued N q = [] \<Longrightarrow> mpsc_queued N q' = []" by (fact poll(2,3))+
qed

lemma some_awake_step:
  assumes "wake_step A D C M T N L task s l t" and "some_awake N task s"
  shows "some_awake N task t"
  using assms
proof (cases rule: wake_step.cases)
  case (poll i r ls' q' w')
  have laws: "mpsc_laws N" "list_all single (wk_streams s)" using assms(2) by (auto simp: some_awake_def)
  note upd = single_update [OF laws poll(3,6)]
  show ?thesis
    using assms(2) poll upd
    by (cases "wk_waker s"; cases "is_pending r") (auto simp: some_awake_def)
qed (auto simp: wake_defs split: option.splits)

lemma all_awake_step:
  assumes "wake_step A D C M T N L task s l t" and "all_awake N task s"
  shows "all_awake N task t"
  using assms
proof (cases rule: wake_step.cases)
  case (poll i r ls' q' w')
  have laws: "mpsc_laws N" "list_all single (wk_streams s)" using assms(2) by (auto simp: all_awake_def)
  note upd = single_update [OF laws poll(3,6)]
  show ?thesis
    using assms(2) poll upd
    by (cases "wk_waker s"; cases "is_pending r") (auto simp: all_awake_def)
qed (auto simp: wake_defs split: option.splits)

interpretation some_stream: step_invariant "wake_step A D C M T N L task" "some_awake N task"
  for A :: "('ma, 'pid, 'o, 'x, 'w) rtc_api" and D and C :: "('o, 'iq) mpsc_api" and M :: "('ma, 'h) multiaddr_api"
    and T :: "('tt, description_context, 'te) tt_api" and N :: "('ma, 'q) mpsc_api" and L and task
  by unfold_locales (rule some_awake_step)

interpretation one_task: step_invariant "wake_step A D C M T N L task" "all_awake N task"
  for A :: "('ma, 'pid, 'o, 'x, 'w) rtc_api" and D and C :: "('o, 'iq) mpsc_api" and M :: "('ma, 'h) multiaddr_api"
    and T :: "('tt, description_context, 'te) tt_api" and N :: "('ma, 'q) mpsc_api" and L and task
  by unfold_locales (rule all_awake_step)

lemma awake_stream_yields:
  assumes "mpsc_laws N" and "list_all single (wk_streams s)" and "live s i" and "i \<in> wk_awake s"
    and "mpsc_queued N (wk_chan s) \<noteq> []"
  shows "\<exists>x s'. wake_step A D C M T N L task s (Polled i (Ready x)) s'"
proof -
  have i: "i < length (wk_streams s)" "i \<notin> wk_dropped s" using assms(3) by (simp_all add: live_def)
  then have "single (wk_streams s ! i)" using assms(2) by (simp add: list_all_length)
  then obtain x ls' q' where
    "poll_next A D C M T N L (wk_streams s ! i) (wk_chan s) (wk_world s) = Some (Ready x, ls', q', wk_world s)"
    by (rule single_poll_total [OF assms(1) _ assms(5)])
  from wake_step.poll [OF i assms(4) this] show ?thesis by blast
qed

lemma wake_init_awake:
  assumes "mpsc_laws N" and "list_all single lss"
  shows "lss \<noteq> [] \<Longrightarrow> some_awake N task (wake_init lss q w)"
    and "\<forall>i. task i = task 0 \<Longrightarrow> all_awake N task (wake_init lss q w)"
  using assms by (auto simp: some_awake_def all_awake_def wake_init_def)

lemma awake_index:
  "some_awake N task s \<Longrightarrow> mpsc_queued N (wk_chan s) \<noteq> [] \<Longrightarrow> \<exists>i < length (wk_streams s). i \<in> wk_awake s"
  "all_awake N task s \<Longrightarrow> mpsc_queued N (wk_chan s) \<noteq> [] \<Longrightarrow> i < length (wk_streams s) \<Longrightarrow> i \<in> wk_awake s"
  by (auto simp: some_awake_def all_awake_def split: option.splits)

text \<open>A run that never wakes tasks for other reasons, from a state in which the only live stream sleeps unregistered.\<close>

definition deaf :: "('ma, 'o, 'r, 'q, 'w) wakeups \<Rightarrow> bool" where
  "deaf s \<longleftrightarrow> length (wk_streams s) = 2 \<and> 0 \<notin> wk_awake s \<and> 1 \<in> wk_dropped s \<and> wk_waker s = None"

lemma deaf_run:
  assumes "run (wake_step A D C M T N L task) s ls s'" and "deaf s" and "\<forall>t. Woken t \<notin> set ls"
  shows "Polled i r \<notin> set ls"
  using assms
proof (induction rule: run.induct)
  case (run_cons s l t ls u)
  from run_cons(1,4,5) have "deaf t \<and> (\<forall>r. l \<noteq> Polled i r)"
  proof (cases rule: wake_step.cases)
    case (poll j r ls' q' w')
    with run_cons(4) have "j = 0 \<or> j = 1" by (auto simp: deaf_def)
    with poll run_cons(4) show ?thesis by (auto simp: deaf_def)
  qed (auto simp: deaf_def wake_def)
  with run_cons show ?case by auto
qed simp

section \<open>Properties\<close>


text \<open>An address is sent to two fresh streams of one task; a stream is polled.\<close>

abbreviation demo_wake_step ::
  "(nat \<Rightarrow> nat) \<Rightarrow> (nat protocol list, nat, unit, nat \<times> nat protocol list list \<times> bool, dworld) wakeups \<Rightarrow>
   (nat protocol list, nat, nat, string, nat \<times> nat list \<times> bool, dworld) wake_label \<Rightarrow>
   (nat protocol list, nat, unit, nat \<times> nat protocol list list \<times> bool, dworld) wakeups \<Rightarrow> bool" where
  "demo_wake_step \<equiv> wake_step toy_rtc toy_dc list_mpsc list_ma demo_tt list_mpsc toy_ifw"

lemma demo_single: "single demo_listener" "ls_in_addr demo_listener = One None"
  by (simp_all add: single_def demo_listener_def)




end
