(* ===== verification/Interfaces.thy ===== *)
theory Interfaces
  imports Node
begin

text \<open>
  What a listener on the wildcard address (\<open>WebRTCListenStream\<close> of \<open>src/transport.rs\<close>) reports of the network
  interfaces: the events of its watcher, one by one.
\<close>

section \<open>Watchers as queues of events\<close>

text \<open>
  A watcher delivers the events it has received in order and is pending when there is none left; making a timer
  does not change them.
\<close>

definition watch_queue_law ::
  "('o, 'w) if_watch_api \<Rightarrow> 'o \<Rightarrow> ('w \<Rightarrow> (if_event, io_error) result list) \<Rightarrow> bool" where
  "watch_queue_law L watch events \<longleftrightarrow>
     (\<forall>w. case events w of
        [] \<Rightarrow> \<exists>w'. ifw_poll L watch w = (Pending, w') \<and> events w' = []
      | e # es \<Rightarrow> \<exists>w'. ifw_poll L watch w = (Ready e, w') \<and> events w' = es) \<and>
     (\<forall>n w. events (snd (delay_new L n w)) = events w)"

text \<open>The events a listener reports: those of its address family, and errors.\<close>

definition relevant :: "socket_addr \<Rightarrow> (if_event, io_error) result \<Rightarrow> bool" where
  "relevant la e = (case e of Ok ev \<Rightarrow> ip_is_ipv4 (sock_ip la) = ip_is_ipv4 (event_ip ev) | Err _ \<Rightarrow> True)"

fun interface_item ::
  "('ma, 'h) multiaddr_api \<Rightarrow> socket_addr \<Rightarrow> (if_event, io_error) result \<Rightarrow> ('ma, 'pid, 'o, 'x, 'iq, 'w) listen_item" where
  "interface_item M la (Ok (Up ip)) = Ready (Some (Ok (NewAddress (ip_to_multiaddr M ip (sock_port la)))))"
| "interface_item M la (Ok (Down ip)) = Ready (Some (Ok (AddressExpired (ip_to_multiaddr M ip (sock_port la)))))"
| "interface_item M la (Err e) = Ready (Some (Ok (ListenerError (IoError e))))"

lemma drain_poll:
  "ifw_poll L watch w = (Pending, w') \<Longrightarrow> drain_interfaces L la watch w = Some (Inr (), w')"
  "ifw_poll L watch w = (Ready e, w') \<Longrightarrow>
     drain_interfaces L la watch w = (if relevant la e then Some (Inl e, w') else drain_interfaces L la watch w')"
  by (subst drain_interfaces.simps,
      simp add: relevant_def same_family_iff split: result.splits if_event.splits)+

lemma watch_queue_lawD:
  assumes "watch_queue_law L watch events"
  shows "events w = [] \<Longrightarrow> \<exists>w'. ifw_poll L watch w = (Pending, w') \<and> events w' = []"
    and "events w = e # es \<Longrightarrow> \<exists>w'. ifw_poll L watch w = (Ready e, w') \<and> events w' = es"
    and "events (snd (delay_new L n w)) = events w"
proof -
  show "events w = [] \<Longrightarrow> \<exists>w'. ifw_poll L watch w = (Pending, w') \<and> events w' = []"
    and "events w = e # es \<Longrightarrow> \<exists>w'. ifw_poll L watch w = (Ready e, w') \<and> events w' = es"
    using assms [unfolded watch_queue_law_def, THEN conjunct1, rule_format, of w] by simp_all
  show "events (snd (delay_new L n w)) = events w" using assms by (simp add: watch_queue_law_def)
qed

text \<open>The loop skips the events of the other family.\<close>

lemma drain_relevant:
  assumes "watch_queue_law L watch events" and "filter (relevant la) (events w) = e # es"
  shows "\<exists>w'. drain_interfaces L la watch w = Some (Inl e, w') \<and> filter (relevant la) (events w') = es"
  using assms(2)
proof (induction "events w" arbitrary: w)
  case (Cons x xs)
  from watch_queue_lawD(2) [OF assms(1) Cons(2) [symmetric]] obtain v where
    v: "ifw_poll L watch w = (Ready x, v)" "events v = xs" by blast
  show ?case
  proof (cases "relevant la x")
    case True
    with drain_poll(2) [OF v(1)] v(2) Cons(2,3) show ?thesis by (metis filter.simps(2) list.inject)
  next
    case False
    with Cons(1) [OF v(2) [symmetric]] drain_poll(2) [OF v(1)] v(2) Cons(2,3) show ?thesis by (metis filter.simps(2))
  qed
qed simp

text \<open>One poll reports one event; an error starts the pause.\<close>

lemma poll_next_interface:
  assumes "ls_in_addr ls = Any (IfReady watch)" and "watch_queue_law L watch events"
    and "filter (relevant (ls_listen_addr ls)) (events w) = e # es"
  shows "\<exists>p w'. poll_next A D C M T N L ls q w = Some (interface_item M (ls_listen_addr ls) e, ls\<lparr>ls_pause := p\<rparr>, q, w') \<and>
    filter (relevant (ls_listen_addr ls)) (events w') = es"
proof -
  from drain_relevant [OF assms(2,3)] obtain v where
    v: "drain_interfaces L (ls_listen_addr ls) watch w = Some (Inl e, v)" "filter (relevant (ls_listen_addr ls)) (events v) = es"
    by blast
  show ?thesis
  proof (cases e)
    case (Ok ev)
    with v(1) assms(1) have "poll_next A D C M T N L ls q w = Some (interface_item M (ls_listen_addr ls) e, ls, q, v)"
      by (cases ev; subst poll_next.simps; simp)
    with v(2) show ?thesis by (intro exI [of _ "ls_pause ls"] exI [of _ v]) simp
  next
    case (Err err)
    obtain p u where "delay_new L (ls_sleep_on_error ls) v = (p, u)" by fastforce
    with Err v assms(1) watch_queue_lawD(3) [OF assms(2), of "ls_sleep_on_error ls" v] show ?thesis
      by (subst poll_next.simps) auto
  qed
qed

lemma poll_many_interfaces:
  assumes "watch_queue_law L watch events" and "ls_in_addr ls = Any (IfReady watch)"
    and "filter (relevant (ls_listen_addr ls)) (events w) = es"
  shows "\<exists>p w'. poll_many A D C M T N L (length es) ls q w =
      Some (map (interface_item M (ls_listen_addr ls)) es, ls\<lparr>ls_pause := p\<rparr>, q, w') \<and>
    filter (relevant (ls_listen_addr ls)) (events w') = []"
  using assms(2,3)
proof (induction es arbitrary: ls w)
  case Nil
  have "ls\<lparr>ls_pause := ls_pause ls\<rparr> = ls" by simp
  with Nil show ?case by (metis list.map(1) list.size(3) poll_many.simps(1))
next
  case (Cons e es)
  from poll_next_interface [OF Cons.prems(1) assms(1) Cons.prems(2), of A D C M T N q] obtain p v where
    p: "poll_next A D C M T N L ls q w = Some (interface_item M (ls_listen_addr ls) e, ls\<lparr>ls_pause := p\<rparr>, q, v)"
    and v: "filter (relevant (ls_listen_addr ls)) (events v) = es" by blast
  from Cons.IH [of "ls\<lparr>ls_pause := p\<rparr>" v] Cons.prems(1) v obtain p' u where
    "poll_many A D C M T N L (length es) (ls\<lparr>ls_pause := p\<rparr>) q v =
      Some (map (interface_item M (ls_listen_addr ls)) es, ls\<lparr>ls_pause := p'\<rparr>, q, u)"
    "filter (relevant (ls_listen_addr ls)) (events u) = []" by auto
  with p show ?case by auto
qed

section \<open>Properties\<close>

text \<open>C25: Interface changes are reported faithfully: a listener on the wildcard address whose watcher has received some
  events reports, when it is polled once for each of them that concerns it, exactly those of its own address family
  and the errors, in the order they happened: a new address for an interface that came up, an expired one for an
  interface that went down, each with the port it listens on, and an error event for an error. An error does not end the
  reporting, and no waiting peer is taken from the channel meanwhile.\<close>

theorem interface_changes_reported:
  assumes "watch_queue_law L watch events" and "ls_in_addr ls = Any (IfReady watch)"
    and "es = filter (relevant (ls_listen_addr ls)) (events w)"
  shows "\<exists>p w'. poll_many A D C M T N L (length es) ls q w =
      Some (map (interface_item M (ls_listen_addr ls)) es, ls\<lparr>ls_pause := p\<rparr>, q, w') \<and>
    filter (relevant (ls_listen_addr ls)) (events w') = []"
  by (rule poll_many_interfaces [OF assms(1,2) assms(3) [symmetric]])

definition toy_events :: "dworld \<Rightarrow> (if_event, io_error) result list" where
  "toy_events w = map (\<lambda>b. if b = 0 then Err (IoErr (KMisc 0) ''netlink'')
     else Ok (Up (if b < 100 then IpV4 (ucast b) else IpV6 (ucast b)))) (dw_inbox w)"

lemma toy_watch_queue: "watch_queue_law toy_ifw c toy_events"
  by (auto simp: watch_queue_law_def toy_ifw_def toy_events_def split: list.splits)

lemma interface_changes_reported_witness:
  "\<exists>p w'. poll_many toy_rtc toy_dc list_mpsc list_ma demo_tt list_mpsc toy_ifw 3 (demo_listener\<lparr>ls_in_addr := Any (IfReady 21)\<rparr>)
     (1, [demo_ma], False) (dw_init\<lparr>dw_inbox := [5, 200, 0, 6]\<rparr>) =
     Some ([Ready (Some (Ok (NewAddress (ip_to_multiaddr list_ma (IpV4 5) 9000)))),
        Ready (Some (Ok (ListenerError (IoError (IoErr (KMisc 0) ''netlink''))))),
        Ready (Some (Ok (NewAddress (ip_to_multiaddr list_ma (IpV4 6) 9000))))],
       demo_listener\<lparr>ls_in_addr := Any (IfReady 21), ls_pause := p\<rparr>, (1, [demo_ma], False), w')"
proof -
  let ?ls = "demo_listener\<lparr>ls_in_addr := Any (IfReady 21)\<rparr>" and ?w = "dw_init\<lparr>dw_inbox := [5, 200, 0, 6]\<rparr>"
  have la: "ls_listen_addr ?ls = SockV4 0x7F000001 9000" by (simp add: demo_listener_def)
  have es: "filter (relevant (ls_listen_addr ?ls)) (toy_events ?w) =
      [Ok (Up (IpV4 5)), Err (IoErr (KMisc 0) ''netlink''), Ok (Up (IpV4 6))]"
    unfolding la by (simp add: toy_events_def relevant_def)
  have "ls_in_addr ?ls = Any (IfReady 21)" by simp
  from interface_changes_reported [OF toy_watch_queue this es [symmetric], of toy_rtc toy_dc list_mpsc list_ma demo_tt list_mpsc
      "(1, [demo_ma], False)"]
  show ?thesis unfolding la by (simp add: numeral_3_eq_3 del: poll_many.simps) blast
qed

end
