(* ===== verification/Connect_Test.thy ===== *)
theory Connect_Test
  imports Node
begin

text \<open>
  The tests \<open>dialer_connects_to_listener_ipv4\<close> and \<open>dialer_connects_to_listener_ipv6\<close> of \<open>src/transport.rs\<close>: everything they do
  before and after the two futures run side by side. \<open>futures::join!\<close>, which runs them, is a parameter.
\<close>

section \<open>The packages the tests call\<close>

text \<open>
  Key generation (\<open>libp2p_core::identity\<close>, \<open>rcgen\<close>), certificates (\<open>webrtc\<close>), the accessors of \<open>ListenerEvent\<close>
  (\<open>libp2p_core\<close>), and parsing the text of a socket address. \<open>try_next_of\<close> and \<open>try_filter_next_of\<close> are what
  \<open>try_next().await\<close> and \<open>try_filter_map(f).try_next().await\<close> of \<open>futures\<close> make of a stream, given by its polling function;
  they are \<open>None\<close> if the stream is never ready.
\<close>

type_synonym ('ma, 'up, 'e, 'st) poll_stream =
  "'st \<Rightarrow> ((('ma, 'up, 'e) listener_event, 'e) result option poll \<times> 'st) option"

record ('ma, 'h, 'pid, 'o, 'x, 'up, 'e, 'v, 'st) test_lib =
  try_next_of :: "('ma, 'up, 'e, 'st) poll_stream \<Rightarrow> 'st \<Rightarrow> ((('ma, 'up, 'e) listener_event option, 'e) result \<times> 'st) option"
  try_filter_next_of :: "('ma, 'up, 'e, 'st) poll_stream \<Rightarrow> (('ma, 'up, 'e) listener_event \<Rightarrow> ('up \<times> 'ma) option) \<Rightarrow> 'st \<Rightarrow>
    ((('up \<times> 'ma) option, 'e) result \<times> 'st) option"
  generate_ed25519 :: "('v, 'o) world_call"
  peer_id_of :: "'o \<Rightarrow> 'pid"
  peer_id_into :: "'pid \<Rightarrow> 'h"
  rcgen_generate :: "('v, ('o, 'x) result) world_call"
  from_key_pair :: "'o \<Rightarrow> ('o, 'x) result"
  into_new_address :: "('ma, 'up, 'e) listener_event \<Rightarrow> 'ma option"
  into_upgrade :: "('ma, 'up, 'e) listener_event \<Rightarrow> ('up \<times> 'ma) option"
  parse_socket_addr :: "string \<Rightarrow> (socket_addr, 'x) result"

section \<open>The futures\<close>

type_synonym ('ma, 'h, 'pid, 'o, 'x, 'iq, 'r, 'q, 'v) listener_test_lib =
  "('ma, 'h, 'pid, 'o, 'x, ('ma, 'pid, 'o, 'x, 'iq, 'v) upgrade_future, ('ma, 'pid, 'x) error, 'v,
    ('ma, 'o, 'r) listen_stream \<times> 'q \<times> 'v) test_lib"

text \<open>The listener as a stream, with the channel it reads and the world.\<close>

definition listener_stream ::
  "('ma, 'pid, 'o, 'x, 'v) rtc_api \<Rightarrow> ('o, 'v) data_channel_api \<Rightarrow> ('o, 'iq) mpsc_api \<Rightarrow>
   ('ma, 'h) multiaddr_api \<Rightarrow> ('tt, description_context, 'te) tt_api \<Rightarrow> ('ma, 'q) mpsc_api \<Rightarrow> ('o, 'v) if_watch_api \<Rightarrow>
   ('ma, ('ma, 'pid, 'o, 'x, 'iq, 'v) upgrade_future, ('ma, 'pid, 'x) error,
     ('ma, 'o, 'r) listen_stream \<times> 'q \<times> 'v) poll_stream" where
  "listener_stream A D C M T N L = (\<lambda>(ls, q, v). poll_next A D C M T N L ls q v)"

definition inbound ::
  "('ma, 'pid, 'o, 'x, 'v) rtc_api \<Rightarrow> ('o, 'v) data_channel_api \<Rightarrow> ('o, 'iq) mpsc_api \<Rightarrow>
   ('ma, 'h) multiaddr_api \<Rightarrow> ('tt, description_context, 'te) tt_api \<Rightarrow> ('ma, 'q) mpsc_api \<Rightarrow>
   ('o, 'v) if_watch_api \<Rightarrow>
   ('ma, 'h, 'pid, 'o, 'x, 'iq, 'r, 'q, 'v) listener_test_lib \<Rightarrow>
   ('ma, 'o, 'r) listen_stream \<Rightarrow> 'q \<Rightarrow> 'v \<Rightarrow>
   (('pid \<times> ('o, 'iq) connection, ('ma, 'pid, 'x) error) result outcome \<times> 'v) option" where
  "inbound A D C M T N L B listener q v =
     (case try_filter_next_of B (listener_stream A D C M T N L) (into_upgrade B) (listener, q, v) of
        None \<Rightarrow> None
      | Some (Err e, _, _, v') \<Rightarrow> Some (Panics ''unwrap on an Err value'', v')
      | Some (Ok None, _, _, v') \<Rightarrow> Some (Panics ''unwrap on a None value'', v')
      | Some (Ok (Some (conn, _)), _, _, v') \<Rightarrow> Some (conn v'))"

definition test_hex_to_cow :: "hex_api \<Rightarrow> string \<Rightarrow> u8 list outcome" where
  "test_hex_to_cow d s = (case d s 32 of Ok buf \<Rightarrow> Returns buf | Err _ \<Rightarrow> Panics ''unwrap on an Err value'')"


section \<open>The test\<close>

text \<open>
  \<open>join\<close> gets the two futures and the state they run in: the mux systems of both peers and the world. Its result is the
  pair of results, a panic, or \<open>None\<close> if one of the futures never finishes. \<open>connect\<close> returns if the test passes.
\<close>

type_synonym ('ma, 'pid, 'o, 'x, 'iq) connect_result =
  "('pid \<times> ('o, 'iq) connection, ('ma, 'pid, 'x) error) result"

type_synonym ('ma, 'pid, 'o, 'x, 'iq, 'c, 'q, 'w, 'v) join_macro =
  "('q \<Rightarrow> 'v \<Rightarrow> (('ma, 'pid, 'o, 'x, 'iq) connect_result outcome \<times> 'v) option) \<Rightarrow>
   ('ma, 'pid, 'o, 'x, 'iq, 'v) upgrade_future \<Rightarrow> ('c, 'q, 'w) mux_sys \<Rightarrow> ('c, 'q, 'w) mux_sys \<Rightarrow> 'v \<Rightarrow>
   (('ma, 'pid, 'o, 'x, 'iq) connect_result \<times> ('ma, 'pid, 'o, 'x, 'iq) connect_result) outcome option"

text \<open>\<open>a.and(b).unwrap()\<close> on the results of the join.\<close>

fun unwrap_both :: "(('a, 'e) result \<times> ('a, 'e) result) outcome option \<Rightarrow> unit outcome option" where
  "unwrap_both None = None"
| "unwrap_both (Some (Panics msg)) = Some (Panics msg)"
| "unwrap_both (Some (Returns (a, b))) =
     (case (case a of Ok _ \<Rightarrow> b | Err e \<Rightarrow> Err e) of
        Ok _ \<Rightarrow> Some (Returns ())
      | Err _ \<Rightarrow> Some (Panics ''unwrap on an Err value''))"

text \<open>\<open>expect\<close> on a \<open>Result\<close> and on an \<open>Option\<close>, and a call that may panic.\<close>

definition expect_ok :: "string \<Rightarrow> ('a, 'e) result \<Rightarrow> ('a \<Rightarrow> 'b outcome option) \<Rightarrow> 'b outcome option" where
  "expect_ok msg r k = (case r of Ok a \<Rightarrow> k a | Err _ \<Rightarrow> Some (Panics msg))"

definition expect_some :: "string \<Rightarrow> 'a option \<Rightarrow> ('a \<Rightarrow> 'b outcome option) \<Rightarrow> 'b outcome option" where
  "expect_some msg r k = (case r of Some a \<Rightarrow> k a | None \<Rightarrow> Some (Panics msg))"

definition returned :: "'a outcome \<Rightarrow> ('a \<Rightarrow> 'b outcome option) \<Rightarrow> 'b outcome option" where
  "returned r k = (case r of Returns a \<Rightarrow> k a | Panics msg \<Rightarrow> Some (Panics msg))"

text \<open>The first half: a transport that listens, and the address its listener reports first.\<close>

definition connect_listener ::
  "('ma, 'pid, 'o, 'x, 'v) rtc_api \<Rightarrow> ('o, 'v) data_channel_api \<Rightarrow> ('o, 'iq) mpsc_api \<Rightarrow>
   ('tt, description_context, 'te) tt_api \<Rightarrow> ('o, 'v) if_watch_api \<Rightarrow> (socket_addr, 'so, 'w) socket_api \<Rightarrow>
   ('ma, 'h, 'm, 'c, 'q, 'w) mux_env \<Rightarrow>
   ('ma, 'h, 'pid, 'o, 'x, 'iq, 'r, 'q, 'v) listener_test_lib \<Rightarrow>
   'o \<times> 'r \<Rightarrow> 'o \<Rightarrow> socket_addr \<Rightarrow> 'w \<Rightarrow> 'v \<Rightarrow>
   (('o, 'r) webrtc_direct_transport \<Rightarrow> ('ma, 'o, 'r) listen_stream \<Rightarrow> 'ma \<Rightarrow> ('c, 'q, 'w) mux_sys \<Rightarrow> 'v \<Rightarrow>
     unit outcome option) \<Rightarrow> unit outcome option" where
  "connect_listener A D C T L K E B arcs id_keys listen_addr w v1 k =
     (let (kp, v2) = rcgen_generate B v1 in
      expect_ok ''key pair'' kp (\<lambda>kp.
      expect_ok ''certificate'' (from_key_pair B kp) (\<lambda>cert.
      expect_ok ''transport'' (transport_new K E (fst arcs) (snd arcs) cert id_keys listen_addr w ::
        (_, ('ma, ('ma, 'pid, 'x) error) transport_error) result) (\<lambda>(transport, sys).
      let (listener, v3) = listen_on (env_ma E) L transport
            (ip_to_multiaddr (env_ma E) (sock_ip listen_addr) (sock_port listen_addr)) v2 in
      expect_ok ''listener'' (listener :: (_, ('ma, ('ma, 'pid, 'x) error) transport_error) result) (\<lambda>listener.
      case try_next_of B (listener_stream A D C (env_ma E) T (env_mpsc E) L) (listener, sys_chan sys, v3) of
        None \<Rightarrow> None
      | Some (item, listener', q, v4) \<Rightarrow>
          expect_ok ''some event'' item (\<lambda>item.
          expect_some ''no error'' item (\<lambda>ev.
          expect_some ''listen address'' (into_new_address B ev) (\<lambda>addr.
          if (case ma_iter (env_ma E) addr of p0 # p1 # ps \<Rightarrow> p1 = Udp 0 | _ \<Rightarrow> False)
          then Some (Panics ''assertion failed'')
          else k transport listener' addr (sys\<lparr>sys_chan := q\<rparr>) v4))))))))"

definition connect ::
  "('ma, 'pid, 'o, 'x, 'v) rtc_api \<Rightarrow> ('o, 'v) data_channel_api \<Rightarrow> ('o, 'iq) mpsc_api \<Rightarrow>
   ('tt, description_context, 'te) tt_api \<Rightarrow> ('o, 'v) if_watch_api \<Rightarrow> (socket_addr, 'so, 'w) socket_api \<Rightarrow>
   ('ma, 'h, 'm, 'c, 'q, 'w) mux_env \<Rightarrow>
   ('ma, 'h, 'pid, 'o, 'x, 'iq, 'r, 'q, 'v) listener_test_lib \<Rightarrow>
   ('ma, 'pid, 'o, 'x, 'iq, 'c, 'q, 'w, 'v) join_macro \<Rightarrow> 'o \<times> 'r \<Rightarrow> 'o \<times> 'r \<Rightarrow> socket_addr \<Rightarrow> 'w \<Rightarrow> 'v \<Rightarrow>
   unit outcome option" where
  "connect A D C T L K E B join arcs1 arcs2 listen_addr w v =
     (let (id_keys, v1) = generate_ed25519 B v; t1_peer_id = peer_id_of B id_keys in
      connect_listener A D C T L K E B arcs1 id_keys listen_addr w v1 (\<lambda>transport listener addr sys v4.
      let (kp, v5) = rcgen_generate B v4 in
      expect_ok ''key pair'' kp (\<lambda>kp.
      let (id_keys2, v6) = generate_ed25519 B v5 in
      expect_ok ''certificate'' (from_key_pair B kp) (\<lambda>cert.
      expect_ok ''transport'' (transport_new K E (fst arcs2) (snd arcs2) cert id_keys2 listen_addr (sys_world sys) ::
        (_, ('ma, ('ma, 'pid, 'x) error) transport_error) result) (\<lambda>(transport2, sys2).
      returned (cert_fingerprint A transport) (\<lambda>fp.
      returned (test_hex_to_cow (env_hex E) (strip_colons fp)) (\<lambda>f.
      expect_ok ''unwrap on an Err value'' (dial A D C (env_ma E) T transport2
          (ma_with (env_ma E) (ma_with (env_ma E) addr (XWebRTC f)) (P2p (peer_id_into B t1_peer_id))) ::
        (_, ('ma, ('ma, 'pid, 'x) error) transport_error) result) (\<lambda>outbound.
      unwrap_both (join (inbound A D C (env_ma E) T (env_mpsc E) L B listener) outbound sys sys2 v6)))))))))"

text \<open>The two tests differ in the address they parse; setting up the logger is left out.\<close>

definition connect_to_parsed ::
  "('ma, 'h, 'pid, 'o, 'x, 'up, 'e, 'v, 'st) test_lib \<Rightarrow> string \<Rightarrow> (socket_addr \<Rightarrow> unit outcome option) \<Rightarrow> unit outcome option" where
  "connect_to_parsed B s connect_to = expect_ok ''unwrap on an Err value'' (parse_socket_addr B s) connect_to"

definition dialer_connects_to_listener_ipv4 ::
  "('ma, 'h, 'pid, 'o, 'x, 'up, 'e, 'v, 'st) test_lib \<Rightarrow> (socket_addr \<Rightarrow> unit outcome option) \<Rightarrow> unit outcome option" where
  "dialer_connects_to_listener_ipv4 B connect_to = connect_to_parsed B ''127.0.0.1:0'' connect_to"

definition dialer_connects_to_listener_ipv6 ::
  "('ma, 'h, 'pid, 'o, 'x, 'up, 'e, 'v, 'st) test_lib \<Rightarrow> (socket_addr \<Rightarrow> unit outcome option) \<Rightarrow> unit outcome option" where
  "dialer_connects_to_listener_ipv6 B connect_to = connect_to_parsed B ''[::1]:0'' connect_to"

section \<open>What the test runs\<close>

text \<open>
  Keys and certificates can be generated, and a certificate has one SHA-256 fingerprint at least; the socket can be bound to the
  IP address asked for and gets a port; the accessors of events do what their names say, and the combinators of streams
  yield an item that is ready.
\<close>

definition test_laws ::
  "('ma, 'pid, 'o, 'x, 'v) rtc_api \<Rightarrow> (socket_addr, 'so, 'w) socket_api \<Rightarrow>
   ('ma, 'h, 'pid, 'o, 'x, 'up, 'e, 'v, 'st) test_lib \<Rightarrow> socket_addr \<Rightarrow> bool" where
  "test_laws A K B listen_addr \<longleftrightarrow>
     (\<forall>v. \<exists>kp v'. rcgen_generate B v = (Ok kp, v')) \<and>
     (\<forall>kp. \<exists>cert f vs. from_key_pair B kp = Ok cert \<and> length f = 32 \<and>
        rtc_get_fingerprints A cert = Ok (fingerprint_to_string f # vs)) \<and>
     (\<forall>a. into_new_address B (NewAddress a) = Some a) \<and> (\<forall>l a u. into_upgrade B (Upgrade l a u) = Some (u, a)) \<and>
     (\<forall>w. \<exists>so w' port. udp_bind K listen_addr w = (Ok so, w') \<and> port \<noteq> 0 \<and>
        udp_local_addr K so w' = Ok (sock_new (sock_ip listen_addr) port)) \<and>
     (\<forall>p s ev s'. p s = Some (Ready (Some (Ok ev)), s') \<longrightarrow> try_next_of B p s = Some (Ok (Some ev), s')) \<and>
     (\<forall>p f s ev up s'. p s = Some (Ready (Some (Ok ev)), s') \<longrightarrow> f ev = Some up \<longrightarrow>
        try_filter_next_of B p f s = Some (Ok (Some up), s'))"

text \<open>The listening transport, and its listener after the first event.\<close>

abbreviation bound_transport :: "'o \<Rightarrow> 'o \<times> 'r \<Rightarrow> socket_addr \<Rightarrow> 'o \<Rightarrow> ('o, 'r) webrtc_direct_transport" where
  "bound_transport cert arcs addr id_keys \<equiv>
     \<lparr>tr_config = [cert], tr_udp_mux = fst arcs, tr_udp_mux_addr = addr, tr_new_addr_rx = snd arcs, tr_id_keys = id_keys\<rparr>"

abbreviation bound_listener :: "'o \<Rightarrow> 'o \<times> 'r \<Rightarrow> socket_addr \<Rightarrow> 'o \<Rightarrow> ('ma, 'o, 'r) listen_stream" where
  "bound_listener cert arcs addr id_keys \<equiv>
     \<lparr>ls_listen_addr = addr, ls_in_addr = One None, ls_sleep_on_error = 100, ls_pause = None, ls_config = [cert],
      ls_udp_mux = fst arcs, ls_new_addr_rx = snd arcs, ls_id_keys = id_keys\<rparr>"

lemma unwrap_both_passes: "unwrap_both r = Some (Returns ()) \<longleftrightarrow> (\<exists>a b. r = Some (Returns (Ok a, Ok b)))"
  by (induction r rule: unwrap_both.induct) (auto split: result.splits)

lemmas expect_defs = expect_ok_def expect_some_def returned_def

lemma test_lawsD:
  assumes "test_laws A K B listen_addr"
  shows "\<exists>kp v'. rcgen_generate B v = (Ok kp, v')"
    and "\<exists>cert f vs. from_key_pair B kp = Ok cert \<and> length f = 32 \<and> rtc_get_fingerprints A cert = Ok (fingerprint_to_string f # vs)"
    and "into_new_address B (NewAddress a) = Some a" and "into_upgrade B (Upgrade l a u) = Some (u, a)"
    and "p s = Some (Ready (Some (Ok ev)), s') \<Longrightarrow> try_next_of B p s = Some (Ok (Some ev), s')"
    and "p s = Some (Ready (Some (Ok ev)), s') \<Longrightarrow> f ev = Some up \<Longrightarrow> try_filter_next_of B p f s = Some (Ok (Some up), s')"
  using assms by (cases up; simp add: test_laws_def)+

lemma inbound_upgrade:
  assumes "mpsc_laws N" and "test_laws A K B listen_addr"
    and "ls_in_addr ls = One None" and "ls_pause ls = None" and "mpsc_queued N q = m # ms"
  shows "inbound A D C M T N L B ls q v = Some (webrtc A D C M T (ls_udp_mux ls) (ls_config ls) m (ls_id_keys ls) v)"
proof -
  obtain q' where "listener_stream A D C M T N L (ls, q, v) = Some (upgrade_item A D C M T ls m, ls, q', v)"
    using poll_next_upgrade [OF assms(1,3-5), of A D C M T L v] by (auto simp: listener_stream_def)
  from test_lawsD(6) [where p = "listener_stream A D C M T N L" and f = "into_upgrade B", OF assms(2) this [unfolded upgrade_item_def]
      test_lawsD(4) [OF assms(2)]]
  show ?thesis by (simp add: inbound_def)
qed

lemma first_event:
  assumes "test_laws A K B listen_addr" and "ls_in_addr ls = One (Some a)"
  shows "try_next_of B (listener_stream A' D C M T N L) (ls, q, v) = Some (Ok (Some (NewAddress a)), ls\<lparr>ls_in_addr := One None\<rparr>, q, v)"
  by (rule test_lawsD(5) [OF assms(1)]) (simp add: listener_stream_def assms(2))

lemma test_transport:
  assumes "test_laws A K B listen_addr"
  shows "\<exists>sys port. transport_new K E mux rx cert id_keys listen_addr w =
      (Ok (bound_transport cert (mux, rx) (sock_new (sock_ip listen_addr) port) id_keys, sys) :: (_, ('ma, ('ma, 'pid, 'x) error) transport_error) result) \<and>
    port \<noteq> 0"
proof -
  from assms obtain so w' port where "udp_bind K listen_addr w = (Ok so, w')" "port \<noteq> 0"
    "udp_local_addr K so w' = Ok (sock_new (sock_ip listen_addr) port)"
    unfolding test_laws_def by metis
  then show ?thesis by (simp add: transport_new_def) blast
qed

lemma connect_listener_runs:
  fixes A :: "('ma, 'pid, 'o, 'x, 'v) rtc_api"
  assumes "multiaddr_laws (env_ma E)" and "test_laws A K B listen_addr" and "\<not> ip_is_unspecified (sock_ip listen_addr)"
  shows "\<exists>cert f vs port sys v4. length f = 32 \<and> rtc_get_fingerprints A cert = Ok (fingerprint_to_string f # vs) \<and> port \<noteq> 0 \<and>
    (\<forall>k. connect_listener A D C T L K E B arcs id_keys listen_addr w v k =
      k (bound_transport cert arcs (sock_new (sock_ip listen_addr) port) id_keys)
        (bound_listener cert arcs (sock_new (sock_ip listen_addr) port) id_keys)
        (ip_to_multiaddr (env_ma E) (sock_ip listen_addr) port) sys v4)"
proof -
  obtain kp v2 where kp: "rcgen_generate B v = (Ok kp, v2)" using test_lawsD(1) [OF assms(2)] by blast
  obtain cert f vs where cert: "from_key_pair B kp = Ok cert" "length f = 32"
    "rtc_get_fingerprints A cert = Ok (fingerprint_to_string f # vs)" using test_lawsD(2) [OF assms(2)] by blast
  obtain sys port where new: "transport_new K E (fst arcs) (snd arcs) cert id_keys listen_addr w =
      (Ok (bound_transport cert arcs (sock_new (sock_ip listen_addr) port) id_keys, sys) :: (_, ('ma, ('ma, 'pid, 'x) error) transport_error) result)"
    and port: "port \<noteq> 0"
    using test_transport [OF assms(2), of E "fst arcs" "snd arcs" cert id_keys w, unfolded prod.collapse]
    by blast
  have iter: "ma_iter (env_ma E) (ip_to_multiaddr (env_ma E) ip p) = [ip_protocol ip, Udp p]" for ip p
    by (simp add: ip_to_multiaddr_def multiaddr_lawsD [OF assms(1)])
  have spec: "\<not> (case sock_new (sock_ip listen_addr) port of SockV4 a _ \<Rightarrow> a = 0 | SockV6 a _ _ _ \<Rightarrow> a = 0)"
    using assms(3) by (cases listen_addr) simp_all
  show ?thesis
    using cert port
    by (intro exI [of _ cert] exI [of _ f] exI [of _ vs] exI [of _ port] exI [of _ sys] exI [of _ v2] conjI allI)
       (simp_all add: connect_listener_def kp new expect_defs listen_on_def listen_stream_new_def Let_def spec
         first_event [OF assms(2)] test_lawsD(3) [OF assms(2)] iter)
qed


section \<open>Properties\<close>

text \<open>C40: The connect tests exercise what they mean to: on an address with an IP, if keys can be generated and sockets be
  bound, nothing before the join panics or waits forever, and the test passes exactly when the two futures it joins
  both succeed. The dialer dials the IP and the port, not 0, that the listener is bound to, with the fingerprint of the
  listener's certificate and the listener's peer id, and the other future is the upgrade of the first peer that the
  listener's mux announces.\<close>

theorem connect_test_runs:
  fixes A :: "('ma, 'pid, 'o, 'x, 'v) rtc_api" and arcs1 arcs2 :: "'o \<times> 'r"
  assumes "multiaddr_laws (env_ma E)" and "hex_laws (env_hex E)" and "mpsc_laws (env_mpsc E)"
    and "test_laws A K B listen_addr" and "\<not> ip_is_unspecified (sock_ip listen_addr)"
  shows "\<exists>(listener :: ('ma, 'o, 'r) listen_stream) (self :: ('o, 'r) webrtc_direct_transport) addr f port sys sys2 u.
    connect A D C T L K E B join arcs1 arcs2 listen_addr w v =
      unwrap_both (join (inbound A D C (env_ma E) T (env_mpsc E) L B listener) (do_dial A D C (env_ma E) T self addr) sys sys2 u) \<and>
    (connect A D C T L K E B join arcs1 arcs2 listen_addr w v = Some (Returns ()) \<longleftrightarrow>
      (\<exists>a b. join (inbound A D C (env_ma E) T (env_mpsc E) L B listener) (do_dial A D C (env_ma E) T self addr) sys sys2 u =
         Some (Returns (Ok a, Ok b)))) \<and>
    multiaddr_to_socketaddr (env_ma E) addr = Some (sock_new (sock_ip listen_addr) port) \<and> port \<noteq> 0 \<and>
    ls_listen_addr listener = sock_new (sock_ip listen_addr) port \<and>
    fingerprint_from_addr (env_ma E) addr = Some f \<and>
    fingerprint_of_first_certificate (rtc_get_fingerprints A) (ls_config listener) = Returns (fingerprint_to_string f) \<and>
    last (ma_iter (env_ma E) addr) = P2p (peer_id_into B (peer_id_of B (ls_id_keys listener))) \<and>
    (\<forall>q v m ms. mpsc_queued (env_mpsc E) q = m # ms \<longrightarrow>
       inbound A D C (env_ma E) T (env_mpsc E) L B listener q v =
         Some (webrtc A D C (env_ma E) T (ls_udp_mux listener) (ls_config listener) m (ls_id_keys listener) v))"
proof -
  obtain id_keys v1 where id1: "generate_ed25519 B v = (id_keys, v1)" by fastforce
  obtain cert f vs port sys v4 where cert: "length f = 32" "rtc_get_fingerprints A cert = Ok (fingerprint_to_string f # vs)"
    "port \<noteq> 0" and lis: "\<forall>k. connect_listener A D C T L K E B arcs1 id_keys listen_addr w v1 k =
      k (bound_transport cert arcs1 (sock_new (sock_ip listen_addr) port) id_keys)
        (bound_listener cert arcs1 (sock_new (sock_ip listen_addr) port) id_keys)
        (ip_to_multiaddr (env_ma E) (sock_ip listen_addr) port) sys v4"
    using connect_listener_runs [OF assms(1,4,5), of D C T L arcs1 id_keys w v1] by (elim exE conjE) (rule that)
  let ?ls = "bound_listener cert arcs1 (sock_new (sock_ip listen_addr) port) id_keys :: ('ma, 'o, 'r) listen_stream"
  let ?addr = "ma_with (env_ma E) (ma_with (env_ma E) (ip_to_multiaddr (env_ma E) (sock_ip listen_addr) port) (XWebRTC f))
    (P2p (peer_id_into B (peer_id_of B id_keys)))"
  obtain kp v5 where kp: "rcgen_generate B v4 = (Ok kp, v5)" using test_lawsD(1) [OF assms(4)] by blast
  obtain id2 v6 where id2: "generate_ed25519 B v5 = (id2, v6)" by fastforce
  obtain cert2 where cert2: "from_key_pair B kp = Ok cert2" using test_lawsD(2) [OF assms(4)] by blast
  obtain self sys2 where self: "transport_new K E (fst arcs2) (snd arcs2) cert2 id2 listen_addr (sys_world sys) =
      (Ok (self, sys2) :: (_, ('ma, ('ma, 'pid, 'x) error) transport_error) result)"
    using test_transport [OF assms(4), of E "fst arcs2" "snd arcs2" cert2 id2 "sys_world sys"]
    by (elim exE conjE) (rule that)
  have hex: "test_hex_to_cow (env_hex E) (strip_colons (fingerprint_to_string f)) = Returns f"
    using hex_to_cow_encode [OF assms(2) cert(1)]
    by (auto simp: strip_fingerprint hex_to_cow_def test_hex_to_cow_def split: result.splits)
  have "connect A D C T L K E B join arcs1 arcs2 listen_addr w v =
      unwrap_both (join (inbound A D C (env_ma E) T (env_mpsc E) L B ?ls) (do_dial A D C (env_ma E) T self ?addr) sys sys2 v6)"
    unfolding connect_def id1 Let_def prod.case lis [rule_format]
    by (simp add: kp id2 cert2 self expect_defs cert_fingerprint_def fingerprint_of_first_certificate_def cert(2) hex dial_def)
  moreover have "ma_iter (env_ma E) ?addr = [ip_protocol (sock_ip listen_addr), Udp port, XWebRTC f,
      P2p (peer_id_into B (peer_id_of B id_keys))]"
    by (simp add: ip_to_multiaddr_def multiaddr_lawsD [OF assms(1)])
  moreover have "\<forall>q v m ms. mpsc_queued (env_mpsc E) q = m # ms \<longrightarrow> inbound A D C (env_ma E) T (env_mpsc E) L B ?ls q v =
         Some (webrtc A D C (env_ma E) T (ls_udp_mux ?ls) (ls_config ?ls) m (ls_id_keys ?ls) v)"
    by (intro allI impI) (rule inbound_upgrade [OF assms(3,4)], simp_all)
  ultimately show ?thesis using cert
    by (intro exI [of _ ?ls] exI [of _ self] exI [of _ ?addr] exI [of _ f] exI [of _ port])
       (rule exI [of _ sys], rule exI [of _ sys2], rule exI [of _ v6],
        auto simp: unwrap_both_passes fingerprint_of_first_certificate_def fingerprint_from_addr_def multiaddr_to_socketaddr_Some)
qed


text \<open>An instance, with a join that runs the upgrade of an announced peer and then the dialer.\<close>

definition demo_test ::
  "(nat protocol list, nat, nat, nat, string, nat \<times> nat list \<times> bool, unit, nat \<times> nat protocol list list \<times> bool, dworld)
     listener_test_lib" where
  "demo_test =
    \<lparr>try_next_of = (\<lambda>p s. case p s of Some (Ready (Some (Ok ev)), s') \<Rightarrow> Some (Ok (Some ev), s') | _ \<Rightarrow> None),
     try_filter_next_of = (\<lambda>p f s. case p s of
         Some (Ready (Some (Ok ev)), s') \<Rightarrow> (case f ev of Some up \<Rightarrow> Some (Ok (Some up), s') | None \<Rightarrow> None)
       | _ \<Rightarrow> None),
     generate_ed25519 = (\<lambda>v. (5, v)), peer_id_of = (\<lambda>k. k + 1), peer_id_into = (\<lambda>p. p), rcgen_generate = (\<lambda>v. (Ok 3, v)),
     from_key_pair = (\<lambda>k. Ok k), into_new_address = (\<lambda>ev. case ev of NewAddress a \<Rightarrow> Some a | _ \<Rightarrow> None),
     into_upgrade = (\<lambda>ev. case ev of Upgrade l a u \<Rightarrow> Some (u, a) | _ \<Rightarrow> None),
     parse_socket_addr = (\<lambda>s. if s = ''127.0.0.1:0'' then Ok (SockV4 0x7F000001 0) else Err ''invalid address'')\<rparr>"

definition demo_bind :: "(socket_addr, socket_addr, tworld) socket_api" where
  "demo_bind = \<lparr>udp_bind = (\<lambda>a w. (Ok a, w)), udp_local_addr = (\<lambda>a w. Ok (sock_new (sock_ip a) 4001))\<rparr>"

definition demo_join ::
  "(nat protocol list, nat, nat, string, nat \<times> nat list \<times> bool, tconn, nat \<times> nat protocol list list \<times> bool, tworld, dworld) join_macro" where
  "demo_join f g sys sys2 v =
     (case f (1, [demo_ma], False) v of
        None \<Rightarrow> None
      | Some (Panics msg, v') \<Rightarrow> Some (Panics msg)
      | Some (Returns a, v') \<Rightarrow>
          (case g v' of (Panics msg, v'') \<Rightarrow> Some (Panics msg) | (Returns b, v'') \<Rightarrow> Some (Returns (a, b))))"

lemma demo_test_laws: "test_laws toy_rtc demo_bind demo_test (SockV4 0x7F000001 0)"
proof -
  have "length (toy_fingerprint c) = 32" for c by (simp add: toy_fingerprint_def)
  then show ?thesis by (auto simp: test_laws_def demo_test_def demo_bind_def toy_rtc_def)
qed

lemma connect_test_runs_witness:
  "\<exists>(listener :: (_, nat, unit) listen_stream) (self :: (nat, unit) webrtc_direct_transport) addr sys sys2 u.
     dialer_connects_to_listener_ipv4 demo_test
       (\<lambda>a. connect toy_rtc toy_dc list_mpsc demo_tt toy_ifw demo_bind demo_env demo_test demo_join (0, ()) (1, ()) a tw_init dw_init) =
     unwrap_both (demo_join (inbound toy_rtc toy_dc list_mpsc list_ma demo_tt list_mpsc toy_ifw demo_test listener)
       (do_dial toy_rtc toy_dc list_mpsc list_ma demo_tt self addr) sys sys2 u) \<and>
     (\<exists>port. multiaddr_to_socketaddr list_ma addr = Some (SockV4 0x7F000001 port) \<and> port \<noteq> 0)"
proof -
  have laws: "multiaddr_laws (env_ma demo_env)" "hex_laws (env_hex demo_env)" "mpsc_laws (env_mpsc demo_env)"
    using list_ma_laws ref_hex_laws by (simp_all add: list_mpsc_laws)
  have "\<not> ip_is_unspecified (sock_ip (SockV4 0x7F000001 0))" by simp
  from connect_test_runs [OF laws demo_test_laws this, of toy_dc list_mpsc demo_tt toy_ifw demo_join "(0, ())" "(1, ())" tw_init dw_init]
  show ?thesis
    by (elim exE conjE, intro exI conjI)
       (simp only: dialer_connects_to_listener_ipv4_def connect_to_parsed_def expect_ok_def demo_test_def test_lib.simps if_True result.case demo_env_sel, simp_all)
qed

end
