(* ===== verification/Udp_Mux_Linear.thy ===== *)
theory Udp_Mux_Linear
  imports Udp_Mux_Conc
begin

text \<open>
  The table of connections of \<open>src/udp_mux.rs\<close> as an atomic object. The calls of \<open>get_conn\<close>, \<open>remove_conn_by_ufrag\<close>,
  \<open>close\<close> and the cleanup tasks interleave between their lock sections; each of them takes effect on the table in
  one section. An abstract machine with one step for each effect says what a table of connections is, and every
  interleaving is proved to be a run of it.
\<close>

section \<open>Effects on the table\<close>

datatype 'c table_event =
  Found string 'c
| Created string 'c
| Removed string
| Cleared
| NoEffect

text \<open>The effect of the section a task executes next.\<close>

fun task_event :: "('c, 'w) udp_conn_api \<Rightarrow> 'c pc \<Rightarrow> 'c udp_mux \<Rightarrow> 'w \<Rightarrow> 'c table_event" where
  "task_event U (GetLock u) s w =
     (case map_of (conns s) u of
        Some c \<Rightarrow> Found u c
      | None \<Rightarrow> (case create_muxed_conn U u w of (Ok c, _) \<Rightarrow> Created u c | (Err e, _) \<Rightarrow> NoEffect))"
| "task_event U (RemoveStart u) s w = Removed u"
| "task_event U CloseConns s w = Cleared"
| "task_event U _ s w = NoEffect"

text \<open>The steps of the tasks, labelled with the task and its effect.\<close>

inductive table_step ::
  "('c, 'w) udp_conn_api \<Rightarrow> ((string, 'c) hashmap \<Rightarrow> (string, 'c) hashmap) \<Rightarrow>
   ('c, 'w) conc \<Rightarrow> nat \<times> 'c table_event \<Rightarrow> ('c, 'w) conc \<Rightarrow> bool"
  for U ord where
  table: "i < length ts \<Longrightarrow> task_step U ord (ts ! i) s w = (p, spawned, s', w') \<Longrightarrow>
    table_step U ord (ts, s, w) (i, task_event U (ts ! i) s w) (ts[i := p] @ spawned, s', w')"

inductive_cases table_stepE: "table_step U ord (ts, s, w) l d"

text \<open>Forgetting the effects gives the steps of the tasks, and every step has an effect.\<close>

lemma table_step_conc: "(\<exists>e. table_step U ord c (i, e) d) \<longleftrightarrow> conc_step U ord c i d"
  by (cases c) (auto elim!: table_stepE intro: table conc)

section \<open>The abstract table\<close>

inductive table_spec :: "(string \<rightharpoonup> 'c) \<Rightarrow> nat \<times> 'c table_event \<Rightarrow> (string \<rightharpoonup> 'c) \<Rightarrow> bool" where
  found: "m u = Some c \<Longrightarrow> table_spec m (i, Found u c) m"
| created: "m u = None \<Longrightarrow> table_spec m (i, Created u c) (m(u \<mapsto> c))"
| removed: "table_spec m (i, Removed u) (m(u := None))"
| cleared: "table_spec m (i, Cleared) Map.empty"
| no_effect: "table_spec m (i, NoEffect) m"

inductive_simps table_spec_simps [simp]:
  "table_spec m (i, Found u c) m'" "table_spec m (i, Created u c) m'" "table_spec m (i, Removed u) m'"
  "table_spec m (i, Cleared) m'" "table_spec m (i, NoEffect) m'"

definition gets :: "string \<Rightarrow> 'c \<Rightarrow> 'c table_event \<Rightarrow> bool" where
  "gets u c e \<longleftrightarrow> e = Found u c \<or> e = Created u c"

definition drops :: "string \<Rightarrow> 'c table_event \<Rightarrow> bool" where
  "drops u e \<longleftrightarrow> e = Removed u \<or> e = Cleared"

lemma table_spec_keeps:
  assumes "run table_spec m ls m'" and "m u = Some c" and "\<forall>(i, e) \<in> set ls. \<not> drops u e"
  shows "m' u = Some c"
  using assms
proof (induction rule: run.induct)
  case (run_cons m l m' ls m'')
  obtain i e where l: "l = (i, e)" by fastforce
  have "m' u = Some c" using run_cons(1,4,5) unfolding l by (cases e) (auto simp: drops_def)
  with run_cons show ?case by simp
qed simp

lemma table_spec_stable:
  assumes "run table_spec m (ls @ (i, e) # ms @ (j, e') # ns) m'" and "gets u c e" and "gets u d e'"
    and "\<forall>(k, x) \<in> set ms. \<not> drops u x"
  shows "c = d"
proof -
  from assms(1) obtain m0 where "run table_spec m0 ((i, e) # ms @ (j, e') # ns) m'" by (rule run_appendE)
  then obtain m1 where s1: "table_spec m0 (i, e) m1" and "run table_spec m1 (ms @ (j, e') # ns) m'" by (rule run_consE)
  then obtain m2 where r: "run table_spec m1 ms m2" and "run table_spec m2 ((j, e') # ns) m'" by (metis run_appendE)
  then obtain m3 where s2: "table_spec m2 (j, e') m3" by (metis run_consE)
  have "m1 u = Some c" using s1 assms(2) by (auto simp: gets_def)
  with table_spec_keeps [OF r _ assms(4)] have "m2 u = Some c" by simp
  with s2 assms(3) show ?thesis by (auto simp: gets_def)
qed

section \<open>The mux implements it\<close>

definition table_of :: "('c, 'w) conc \<Rightarrow> string \<rightharpoonup> 'c" where
  "table_of = (\<lambda>(ts, s, w). map_of (conns s))"

lemma task_step_table:
  "task_step U ord p s w = (p', spawned, s', w') \<Longrightarrow>
   table_spec (map_of (conns s)) (i, task_event U p s w) (map_of (conns s'))"
  by (cases "(U, ord, p, s, w)" rule: task_step.cases)
     (auto split: if_splits option.splits prod.splits result.splits)

interpretation atomic_table: step_simulation "table_step U ord" "\<lambda>c. True" table_spec table_of
  for U :: "('c, 'w) udp_conn_api" and ord
  by unfold_locales (auto simp: table_of_def elim!: table_step.cases intro: task_step_table)

text \<open>What a call of \<open>get_conn\<close> returns is what its effect was.\<close>

fun get_traced :: "string \<Rightarrow> 'c table_event set \<Rightarrow> 'c pc \<Rightarrow> bool" where
  "get_traced u es (GetStart v) \<longleftrightarrow> v = u"
| "get_traced u es (GetLock v) \<longleftrightarrow> v = u"
| "get_traced u es (Finished (GetRet (Err e))) \<longleftrightarrow> True"
| "get_traced u es (Finished (GetRet (Ok c))) \<longleftrightarrow> (\<exists>e \<in> es. gets u c e)"
| "get_traced u es _ \<longleftrightarrow> False"

lemma get_traced_mono: "get_traced u es p \<Longrightarrow> es \<subseteq> es' \<Longrightarrow> get_traced u es' p"
  by (cases "(u, es, p)" rule: get_traced.cases) auto

lemma get_traced_step:
  assumes "get_traced u es p" and "task_step U ord p s w = (p', spawned, s', w')"
  shows "get_traced u (insert (task_event U p s w) es) p'"
  using assms
  by (cases "(u, es, p)" rule: get_traced.cases)
     (auto simp: gets_def split: if_splits option.splits prod.splits result.splits)

lemma get_traced_run:
  assumes "run (table_step U ord) c ls d" and "i < length (fst c)" and "get_traced u es (fst c ! i)"
  shows "get_traced u (es \<union> {e. (i, e) \<in> set ls}) (fst d ! i)"
  using assms
proof (induction arbitrary: es rule: run.induct)
  case (run_cons c l d ls d')
  from run_cons(1) obtain ts s w j p sp s' w' where c: "c = (ts, s, w)" and l: "l = (j, task_event U (ts ! j) s w)"
    and j: "j < length ts" and t: "task_step U ord (ts ! j) s w = (p, sp, s', w')" and d: "d = (ts[j := p] @ sp, s', w')"
    by (cases rule: table_step.cases) auto
  let ?es = "es \<union> {e. (i, e) = l}"
  have "get_traced u ?es (fst d ! i)"
  proof (cases "j = i")
    case True
    with get_traced_step [OF _ t, of u es] run_cons.prems j show ?thesis
      by (auto simp: c d l nth_append elim: get_traced_mono)
  next
    case False
    with run_cons.prems show ?thesis by (auto simp: c d nth_append elim: get_traced_mono)
  qed
  moreover have "i < length (fst d)" using run_cons.prems(1) by (simp add: c d)
  ultimately have "get_traced u (?es \<union> {e. (i, e) \<in> set ls}) (fst d' ! i)" using run_cons.IH by simp
  then show ?case by (rule get_traced_mono) auto
qed simp

section \<open>Schedules as functions\<close>

fun table_schedule ::
  "('c, 'w) udp_conn_api \<Rightarrow> ((string, 'c) hashmap \<Rightarrow> (string, 'c) hashmap) \<Rightarrow> nat list \<Rightarrow> ('c, 'w) conc \<Rightarrow>
   ((nat \<times> 'c table_event) list \<times> ('c, 'w) conc) option" where
  "table_schedule U ord [] c = Some ([], c)"
| "table_schedule U ord (i # is) (ts, s, w) =
     (if i < length ts then
        (case task_step U ord (ts ! i) s w of (p, sp, s', w') \<Rightarrow>
           (case table_schedule U ord is (ts[i := p] @ sp, s', w') of
              None \<Rightarrow> None
            | Some (ls, d) \<Rightarrow> Some ((i, task_event U (ts ! i) s w) # ls, d)))
      else None)"

lemma table_schedule_run: "table_schedule U ord is c = Some (ls, d) \<Longrightarrow> run (table_step U ord) c ls d"
  by (induction U ord "is" c arbitrary: ls rule: table_schedule.induct)
     (auto intro!: run_intros intro: table split: if_splits prod.splits option.splits)

section \<open>Properties\<close>

text \<open>C6: The table of connections is an atomic object: however the lock sections of \<open>get_conn\<close>, \<open>remove_conn_by_ufrag\<close>,
  \<open>register_conn_for_address\<close>, \<open>close\<close> and the cleanup tasks interleave, their effects on the table are a run of the
  machine that finds, creates, removes and clears in single steps, whose state at the end is the table; and a call of
  \<open>get_conn\<close> that has returned a connection has found or created exactly this one.\<close>

theorem table_is_atomic:
  assumes "run (table_step U ord) (ts, mux_new, w) ls (ts', s', w')"
  shows "run table_spec Map.empty ls (map_of (conns s')) \<and>
    (\<forall>i u c. i < length ts \<and> ts ! i = GetStart u \<and> ts' ! i = Finished (GetRet (Ok c)) \<longrightarrow>
      (i, Found u c) \<in> set ls \<or> (i, Created u c) \<in> set ls)"
proof -
  have "run table_spec Map.empty ls (map_of (conns s'))"
    using atomic_table.abs_run [OF assms] by (simp add: table_of_def mux_new_def)
  moreover have "(i, Found u c) \<in> set ls \<or> (i, Created u c) \<in> set ls"
    if "i < length ts" "ts ! i = GetStart u" "ts' ! i = Finished (GetRet (Ok c))" for i u c
    using get_traced_run [OF assms, of i u "{}"] that by (auto simp: gets_def)
  ultimately show ?thesis by blast
qed

text \<open>C38: A connection is stable until it is dropped: in every interleaving, if two lookups of the same ufrag yield
  different connections, then between them the ufrag was removed or the mux was closed.\<close>

theorem connection_stable_until_dropped:
  assumes "run (table_step U ord) (ts, s, w) (ls @ (i, e) # ms @ (j, e') # ns) z"
    and "gets u c e" and "gets u d e'" and "c \<noteq> d"
  shows "\<exists>k. (k, Removed u) \<in> set ms \<or> (k, Cleared) \<in> set ms"
proof (rule ccontr)
  assume none: "\<nexists>k. (k, Removed u) \<in> set ms \<or> (k, Cleared) \<in> set ms"
  have "run table_spec (table_of (ts, s, w)) (ls @ (i, e) # ms @ (j, e') # ns) (table_of z)"
    using atomic_table.abs_run [OF assms(1)] by simp
  from table_spec_stable [OF this assms(2,3)] none assms(4) show False by (auto simp: drops_def)
qed

section \<open>Witnesses\<close>

text \<open>A connection is created, looked up, removed and created anew.\<close>

lemma demo_table:
  "\<exists>ts s w. table_schedule toy_udp (\<lambda>m. m) [0, 0, 1, 1, 2, 2, 3, 3]
     ([GetStart ''ab'', GetStart ''ab'', RemoveStart ''ab'', GetStart ''ab''], mux_new, tw_init) =
     Some ([(0, NoEffect), (0, Created ''ab'' (0, ''ab'')), (1, NoEffect), (1, Found ''ab'' (0, ''ab'')),
       (2, Removed ''ab''), (2, NoEffect), (3, NoEffect), (3, Created ''ab'' (1, ''ab''))], ts, s, w) \<and>
     ts ! 1 = Finished (GetRet (Ok (0, ''ab'')))"
  by (simp add: mux_new_def is_closed_def toy_udp_def tw_init_def create_muxed_conn_def)

lemma table_is_atomic_witness:
  "\<exists>ls m. run table_spec Map.empty ls m \<and> (1, Found ''ab'' (0 :: nat, ''ab'')) \<in> set ls"
proof -
  from demo_table obtain ts s w where
    "table_schedule toy_udp (\<lambda>m. m) [0, 0, 1, 1, 2, 2, 3, 3]
     ([GetStart ''ab'', GetStart ''ab'', RemoveStart ''ab'', GetStart ''ab''], mux_new, tw_init) =
     Some ([(0, NoEffect), (0, Created ''ab'' (0, ''ab'')), (1, NoEffect), (1, Found ''ab'' (0, ''ab'')),
       (2, Removed ''ab''), (2, NoEffect), (3, NoEffect), (3, Created ''ab'' (1, ''ab''))], ts, s, w)" by blast
  from table_is_atomic [OF table_schedule_run [OF this]] show ?thesis by (intro exI conjI) (erule conjunct1, simp)
qed

lemma connection_stable_until_dropped_witness:
  "\<exists>k. (k, Removed ''ab'') \<in> set [(2 :: nat, Removed ''ab'' :: tconn table_event), (2, NoEffect), (3, NoEffect)] \<or>
     (k, Cleared) \<in> set [(2, Removed ''ab''), (2, NoEffect), (3, NoEffect)]"
proof -
  let ?ms = "[(2 :: nat, Removed ''ab'' :: tconn table_event), (2, NoEffect), (3, NoEffect)]"
  from demo_table obtain ts s w where
    "table_schedule toy_udp (\<lambda>m. m) [0, 0, 1, 1, 2, 2, 3, 3]
     ([GetStart ''ab'', GetStart ''ab'', RemoveStart ''ab'', GetStart ''ab''], mux_new, tw_init) =
     Some ([(0, NoEffect), (0, Created ''ab'' (0, ''ab'')), (1, NoEffect)] @ (1, Found ''ab'' (0, ''ab'')) # ?ms @
       (3, Created ''ab'' (1, ''ab'')) # [], ts, s, w)" by fastforce
  from connection_stable_until_dropped [OF table_schedule_run [OF this], of "''ab''" "(0, ''ab'')" "(1, ''ab'')"]
  show ?thesis by (simp add: gets_def)
qed

end
