(* ===== verification/Incoming.thy ===== *)
theory Incoming
  imports Connection
begin

text \<open>
  The queue of incoming data channels of a connection (\<open>src/connection.rs\<close>). The handler for data channels clones the
  sender for every data channel and sends once with each clone. The documentation of \<open>futures::channel::mpsc::channel\<close>
  says that the capacity is the buffer plus the number of senders: each sender has a slot of its own.
\<close>

section \<open>Sending with a fresh clone\<close>

text \<open>The first send of a sender finds its slot free, so that it is refused by a closed channel only.\<close>

definition fresh_sender_law :: "('a, 'q) mpsc_api \<Rightarrow> bool" where
  "fresh_sender_law C \<longleftrightarrow> (\<forall>x q. \<not> mpsc_closed C q \<longrightarrow> fst (mpsc_try_send C x q))"

lemma fresh_handler:
  assumes "mpsc_laws C" and "fresh_sender_law C" and "\<not> mpsc_closed C (incoming cn)"
  shows "mpsc_queued C (incoming (register_incoming_data_channels_handler C (Ok d) cn)) = mpsc_queued C (incoming cn) @ [d]"
    and "\<not> mpsc_closed C (incoming (register_incoming_data_channels_handler C (Ok d) cn))"
proof -
  have "fst (mpsc_try_send C d (incoming cn))" using assms(2,3) by (simp add: fresh_sender_law_def)
  then obtain q where q: "mpsc_try_send C d (incoming cn) = (True, q)" by (metis prod.collapse)
  with mpsc_try_send_True [OF assms(1) q]
  show "mpsc_queued C (incoming (register_incoming_data_channels_handler C (Ok d) cn)) = mpsc_queued C (incoming cn) @ [d]"
    and "\<not> mpsc_closed C (incoming (register_incoming_data_channels_handler C (Ok d) cn))"
    by (simp_all add: register_incoming_data_channels_handler_def)
qed

text \<open>A number of data channels that open one after the other; some may fail to be detached.\<close>

definition channels_open ::
  "('o, 'q) mpsc_api \<Rightarrow> ('o, 'x) result list \<Rightarrow> ('o, 'q) connection \<Rightarrow> ('o, 'q) connection" where
  "channels_open C rs cn = fold (register_incoming_data_channels_handler C) rs cn"

fun detached_channels :: "('o, 'x) result list \<Rightarrow> 'o list" where
  "detached_channels [] = []"
| "detached_channels (Ok d # rs) = d # detached_channels rs"
| "detached_channels (Err e # rs) = detached_channels rs"

lemma channels_open_queued:
  assumes "mpsc_laws C" and "fresh_sender_law C" and "\<not> mpsc_closed C (incoming cn)"
  shows "mpsc_queued C (incoming (channels_open C rs cn)) = mpsc_queued C (incoming cn) @ detached_channels rs"
  using assms(3)
proof (induction rs arbitrary: cn rule: detached_channels.induct)
  case (2 d rs)
  then show ?case by (simp add: channels_open_def fresh_handler [OF assms(1,2)])
next
  case (3 e rs)
  then show ?case by (simp add: channels_open_def register_incoming_data_channels_handler_def)
qed (simp add: channels_open_def)

text \<open>A channel whose every send is the first of its sender.\<close>

definition fresh_mpsc :: "('a, nat \<times> 'a list \<times> bool) mpsc_api" where
  "fresh_mpsc = list_mpsc\<lparr>mpsc_try_send := (\<lambda>x (n, xs, c). if \<not> c then (True, (n, xs @ [x], c)) else (False, (n, xs, c)))\<rparr>"

lemma fresh_mpsc_laws: "mpsc_laws fresh_mpsc" "fresh_sender_law fresh_mpsc"
proof -
  have "mpsc_recv_laws fresh_mpsc"
    by (auto simp: mpsc_recv_laws_def fresh_mpsc_def list_mpsc_def split: list.splits)
  moreover have "mpsc_send_laws fresh_mpsc"
    by (auto simp: mpsc_send_laws_def fresh_mpsc_def list_mpsc_def split: if_splits)
  ultimately show "mpsc_laws fresh_mpsc"
    by (simp add: mpsc_laws_def) (simp add: fresh_mpsc_def list_mpsc_def)
  show "fresh_sender_law fresh_mpsc" by (auto simp: fresh_sender_law_def fresh_mpsc_def list_mpsc_def)
qed

section \<open>Properties\<close>



end
