(* ===== verification/Sdp_Text.thy ===== *)
theory Sdp_Text
  imports Transport_Util
begin

text \<open>
  The rendered session descriptions (\<open>render_description\<close> of \<open>src/transport.rs\<close> on the templates of \<open>src/sdp.rs\<close>) as a
  reader of the format sees them: lines, and attributes of the form \<open>a=key:value\<close>.
\<close>

section \<open>Reading attributes\<close>

abbreviation line_feed :: char where
  "line_feed \<equiv> CHR 0x0A"

definition sdp_lines :: "string \<Rightarrow> string list" where
  "sdp_lines text = split_on line_feed text"

text \<open>All values of an attribute, from the first line to the last.\<close>

definition attribute_value :: "string \<Rightarrow> string \<Rightarrow> string option" where
  "attribute_value key l =
     (let start = ''a='' @ key @ '':'' in if take (length start) l = start then Some (drop (length start) l) else None)"

definition sdp_attributes :: "string \<Rightarrow> string \<Rightarrow> string list" where
  "sdp_attributes key text = List.map_filter (attribute_value key) (sdp_lines text)"

lemma sdp_lines_unlines: "\<forall>l \<in> set ls. line_feed \<notin> set l \<Longrightarrow> sdp_lines (unlines ls) = ls @ [[]]"
  by (induction ls) (simp_all add: sdp_lines_def unlines_def split_on_append)

lemma show_nat_one_line: "line_feed \<notin> set (show_nat n)"
proof (induction n rule: show_nat.induct)
  case (1 n)
  have "line_feed \<noteq> char_of (48 + d)" if "d < 10" for d :: nat
  proof
    assume "line_feed = char_of (48 + d)"
    then have "of_char line_feed = (of_char (char_of (48 + d)) :: nat)" by simp
    with that show False by simp
  qed
  with 1 show ?case by (subst show_nat.simps) simp
qed

lemma fingerprint_one_line: "line_feed \<notin> set (fingerprint_to_string f)"
proof
  assume "line_feed \<in> set (fingerprint_to_string f)"
  from fingerprint_chars [OF this] show False by (simp add: is_hex_lower_def)
qed

text \<open>A context whose texts are on one line each.\<close>

definition one_line_context :: "(ip_addr \<Rightarrow> string) \<Rightarrow> description_context \<Rightarrow> bool" where
  "one_line_context show_ip ctx \<longleftrightarrow>
     line_feed \<notin> set (show_ip (dc_target_ip ctx)) \<and> line_feed \<notin> set (dc_fingerprint ctx) \<and>
     line_feed \<notin> set (dc_ufrag ctx) \<and> line_feed \<notin> set (dc_pwd ctx)"

lemma context_one_line:
  "line_feed \<notin> set (show_ip (sock_ip addr)) \<Longrightarrow>
   one_line_context show_ip (description_context_of addr (fingerprint_to_string f))"
  using fingerprint_one_line [of f] by (simp add: one_line_context_def description_context_of_def strip_colons_filter)

lemma version_one_line: "line_feed \<notin> set (show_ip_version v)"
  by (cases v) simp_all

lemma client_attributes:
  assumes "one_line_context show_ip ctx"
  shows "sdp_attributes ''ice-ufrag'' (client_sdp_text show_ip ctx) = [dc_ufrag ctx]"
    and "sdp_attributes ''ice-pwd'' (client_sdp_text show_ip ctx) = [dc_pwd ctx]"
    and "sdp_attributes ''fingerprint'' (client_sdp_text show_ip ctx) = [''sha-256 '' @ dc_fingerprint ctx]"
    and "sdp_attributes ''setup'' (client_sdp_text show_ip ctx) = [''actpass'']"
  using assms unfolding sdp_attributes_def client_sdp_text_def Let_def
  by (subst sdp_lines_unlines,
      simp add: one_line_context_def show_nat_one_line version_one_line,
      simp add: map_filter_simps attribute_value_def)+

lemma server_attributes:
  assumes "one_line_context show_ip ctx"
  shows "sdp_attributes ''ice-ufrag'' (server_sdp_text show_ip ctx) = [dc_ufrag ctx]"
    and "sdp_attributes ''ice-pwd'' (server_sdp_text show_ip ctx) = [dc_pwd ctx]"
    and "sdp_attributes ''fingerprint'' (server_sdp_text show_ip ctx) = [''sha-256 '' @ dc_fingerprint ctx]"
    and "sdp_attributes ''setup'' (server_sdp_text show_ip ctx) = [''passive'']"
    and "sdp_attributes ''candidate'' (server_sdp_text show_ip ctx) =
      [''1 1 UDP 1 '' @ show_ip (dc_target_ip ctx) @ '' '' @ show_nat (unat (dc_target_port ctx)) @ '' typ host'']"
  using assms unfolding sdp_attributes_def server_sdp_text_def Let_def
  by (subst sdp_lines_unlines,
      simp add: one_line_context_def show_nat_one_line version_one_line,
      simp add: map_filter_simps attribute_value_def)+


text \<open>The reader of either description.\<close>

lemma rendered_attributes:
  assumes "tt_laws T (description_fields show_ip)" and "html_safe (show_ip (sock_ip addr))"
    and "line_feed \<notin> set (show_ip (sock_ip addr))"
    and "d = CLIENT_SESSION_DESCRIPTION \<or> d = SERVER_SESSION_DESCRIPTION"
  obtains s where "render_description T d addr (fingerprint_to_string f) = Returns s"
    and "sdp_attributes ''ice-ufrag'' s = [concat (map fmt_02x f)]"
    and "sdp_attributes ''ice-pwd'' s = [concat (map fmt_02x f)]"
    and "sdp_attributes ''fingerprint'' s = [''sha-256 '' @ fingerprint_to_string f]"
proof -
  let ?ctx = "description_context_of addr (fingerprint_to_string f)"
  have "dc_ufrag ?ctx = concat (map fmt_02x f)" "dc_pwd ?ctx = concat (map fmt_02x f)" "dc_fingerprint ?ctx = fingerprint_to_string f"
    by (simp_all add: description_context_of_def strip_fingerprint)
  then show thesis
    using assms(4) that client_attributes [OF context_one_line [of show_ip, OF assms(3)], of f]
      server_attributes [OF context_one_line [of show_ip, OF assms(3)], of f]
      render_client [OF assms(1,2), of f] render_server [OF assms(1,2), of f]
    by (elim disjE) simp_all
qed

section \<open>Properties\<close>

text \<open>C12: What is written into a session description is what its reader finds: for every fingerprint, rendering either
  description gives a text in which each of the attributes for the ICE user name fragment, the ICE password and the
  certificate fingerprint occurs exactly once; the fragment and the password are the only credentials that a peer with
  this fingerprint sets on its own setting engine, decoding them gives the bytes of the fingerprint back, and the
  fingerprint is the text that is compared after the noise handshake.\<close>

theorem rendered_credentials_read_back:
  assumes "tt_laws T (description_fields show_ip)" and "html_safe (show_ip (sock_ip addr))"
    and "line_feed \<notin> set (show_ip (sock_ip addr))" and "hex_laws h" and "length f = 32"
    and "d = CLIENT_SESSION_DESCRIPTION \<or> d = SERVER_SESSION_DESCRIPTION"
  shows "\<exists>s u. render_description T d addr (fingerprint_to_string f) = Returns s \<and>
    sdp_attributes ''ice-ufrag'' s = [u] \<and> sdp_attributes ''ice-pwd'' s = [u] \<and>
    sdp_attributes ''fingerprint'' s = [''sha-256 '' @ fingerprint_to_string f] \<and>
    {(v, p). SetIceCredentials v p \<in> set (build_setting_engine mux peer (fingerprint_to_string f))} = {(u, u)} \<and>
    hex_to_cow h u = Returns f"
proof -
  let ?u = "concat (map fmt_02x f)"
  obtain s where "render_description T d addr (fingerprint_to_string f) = Returns s"
    "sdp_attributes ''ice-ufrag'' s = [?u]" "sdp_attributes ''ice-pwd'' s = [?u]"
    "sdp_attributes ''fingerprint'' s = [''sha-256 '' @ fingerprint_to_string f]"
    using rendered_attributes [OF assms(1-3,6)] by blast
  moreover have "{(v, p). SetIceCredentials v p \<in> set (build_setting_engine mux peer (fingerprint_to_string f))} = {(?u, ?u)}"
    by (auto simp: build_setting_engine_def Let_def strip_fingerprint)
  moreover have "hex_to_cow h ?u = Returns f" by (rule hex_to_cow_encode [OF assms(4,5)])
  ultimately show ?thesis by blast
qed

lemma rendered_credentials_read_back_witness:
  "\<exists>s u. render_description (list_tt (description_fields (\<lambda>_. ''10.0.0.1''))) SERVER_SESSION_DESCRIPTION
      (SockV4 0x0A000001 9000) (fingerprint_to_string (replicate 32 0xAB)) = Returns s \<and>
    sdp_attributes ''ice-ufrag'' s = [u] \<and> hex_to_cow ref_hex u = Returns (replicate 32 0xAB)"
proof -
  have "html_safe ((\<lambda>_. ''10.0.0.1'') (sock_ip (SockV4 0x0A000001 9000)))" by (simp add: html_safe_def)
  moreover have "line_feed \<notin> set ((\<lambda>_. ''10.0.0.1'') (sock_ip (SockV4 0x0A000001 9000)))" by simp
  ultimately show ?thesis
    using rendered_credentials_read_back [OF list_tt_laws _ _ ref_hex_laws, of "\<lambda>_. ''10.0.0.1''" "SockV4 0x0A000001 9000"
      "replicate 32 0xAB" SERVER_SESSION_DESCRIPTION "()" "SockV4 0x0A000001 9000"] by auto
qed

end
