(* ===== verification/Transport_Tests.thy ===== *)
theory Transport_Tests
  imports Transport_Util
begin

text \<open>
  The unit test of \<open>multiaddr_to_socketaddr\<close> in \<open>src/transport.rs\<close>. Parsing the text of a multiaddress is an operation of
  the package; what the test relies on is that the texts it uses denote the components they are written with.
\<close>

section \<open>The test\<close>

text \<open>\<open>unwrap\<close> on the parsed text, then \<open>assert!\<close> or \<open>assert_eq!\<close>: a test passes if nothing panics.\<close>

definition check_conversion ::
  "('ma, 'h) multiaddr_api \<Rightarrow> (string \<Rightarrow> ('ma, 'e) result) \<Rightarrow> string \<times> socket_addr option \<Rightarrow> unit outcome" where
  "check_conversion M parse = (\<lambda>(text, expected).
     case parse text of
       Err e \<Rightarrow> Panics ''unwrap on an Err value''
     | Ok a \<Rightarrow> if multiaddr_to_socketaddr M a = expected then Returns () else Panics ''assertion failed'')"

fun run_asserts :: "unit outcome list \<Rightarrow> unit outcome" where
  "run_asserts [] = Returns ()"
| "run_asserts (Returns _ # xs) = run_asserts xs"
| "run_asserts (Panics msg # xs) = Panics msg"

definition x_webrtc :: string where
  "x_webrtc = ''/x-webrtc/ACD1E533EC271FCDE0275947F4D62A2B2331FF10C9DDE0298EB7B399B4BFF60B''"

definition conversion_cases :: "(string \<times> socket_addr option) list" where
  "conversion_cases =
     [(''/ip4/127.0.0.1/udp/1234'', None),
      (''/ip4/127.0.0.1/udp/12345'' @ x_webrtc, Some (sock_new (IpV4 0x7F000001) 12345)),
      (''/ip4/127.0.0.1/tcp/12345'' @ x_webrtc, None),
      (''/ip4/127.0.0.1/udp/12345'' @ x_webrtc @ ''/tcp/12345'', None),
      (''/ip4/255.255.255.255/udp/8080'' @ x_webrtc, Some (sock_new (IpV4 0xFFFFFFFF) 8080)),
      (''/ip6/::1/udp/12345'' @ x_webrtc, Some (sock_new (IpV6 1) 12345)),
      (''/ip6/ffff:ffff:ffff:ffff:ffff:ffff:ffff:ffff/udp/8080'' @ x_webrtc,
       Some (sock_new (IpV6 0xFFFFFFFFFFFFFFFFFFFFFFFFFFFFFFFF) 8080))]"

definition multiaddr_to_socketaddr_conversion ::
  "('ma, 'h) multiaddr_api \<Rightarrow> (string \<Rightarrow> ('ma, 'e) result) \<Rightarrow> unit outcome" where
  "multiaddr_to_socketaddr_conversion M parse = run_asserts (map (check_conversion M parse) conversion_cases)"

section \<open>It passes\<close>

text \<open>The components the texts denote, in the order of the test.\<close>

definition test_fingerprint :: "u8 list" where
  "test_fingerprint =
   [0xAC, 0xD1, 0xE5, 0x33, 0xEC, 0x27, 0x1F, 0xCD, 0xE0, 0x27, 0x59, 0x47, 0xF4, 0xD6, 0x2A, 0x2B,
    0x23, 0x31, 0xFF, 0x10, 0xC9, 0xDD, 0xE0, 0x29, 0x8E, 0xB7, 0xB3, 0x99, 0xB4, 0xBF, 0xF6, 0x0B]"

definition conversion_components :: "'h protocol list list" where
  "conversion_components =
     [[Ip4 0x7F000001, Udp 1234],
      [Ip4 0x7F000001, Udp 12345, XWebRTC test_fingerprint],
      [Ip4 0x7F000001, Tcp 12345, XWebRTC test_fingerprint],
      [Ip4 0x7F000001, Udp 12345, XWebRTC test_fingerprint, Tcp 12345],
      [Ip4 0xFFFFFFFF, Udp 8080, XWebRTC test_fingerprint],
      [Ip6 1, Udp 12345, XWebRTC test_fingerprint],
      [Ip6 0xFFFFFFFFFFFFFFFFFFFFFFFFFFFFFFFF, Udp 8080, XWebRTC test_fingerprint]]"

definition parses_components :: "('ma, 'h) multiaddr_api \<Rightarrow> (string \<Rightarrow> ('ma, 'e) result) \<Rightarrow> bool" where
  "parses_components M parse \<longleftrightarrow>
     list_all2 (\<lambda>(text, _) ps. \<exists>a. parse text = Ok a \<and> ma_iter M a = ps) conversion_cases conversion_components"

text \<open>The unit test passes with every parser that reads its texts as the components they are written with.\<close>

lemma conversion_test_passes:
  assumes "parses_components M parse"
  shows "multiaddr_to_socketaddr_conversion M parse = Returns ()"
  using assms
  by (auto simp: parses_components_def multiaddr_to_socketaddr_conversion_def conversion_cases_def conversion_components_def
      check_conversion_def multiaddr_to_socketaddr_def)

lemma conversion_test_passes_witness:
  "multiaddr_to_socketaddr_conversion list_ma
     (\<lambda>t. case map_of (zip (map fst conversion_cases) (conversion_components :: nat protocol list list)) t of
        Some ps \<Rightarrow> Ok ps | None \<Rightarrow> Err ()) = Returns ()"
  by (rule conversion_test_passes)
     (simp add: parses_components_def conversion_cases_def conversion_components_def list_ma_def x_webrtc_def)

end
