(* ===== verification/Exchange.thy ===== *)
theory Exchange
  imports Handshake
begin

text \<open>
  Both sides of a connection at once. The last part of \<open>do_dial\<close> (\<open>src/transport.rs\<close>) and of \<open>webrtc\<close>
  (\<open>src/upgrade.rs\<close>) is the same exchange of fingerprint texts over the noise stream; here the two run against each
  other, one asynchronous call at a time, over a reliable stream of bytes in each direction. Then the success of
  the whole of \<open>do_dial\<close> and \<open>webrtc\<close> when the peer and the packages cooperate.
\<close>

section \<open>One side between its calls\<close>

datatype verdict = Accept | Mismatch string string | NotText

definition check_received :: "string \<Rightarrow> u8 list \<Rightarrow> verdict" where
  "check_received remote_fingerprint buf =
     (case from_utf8 buf of
        Err _ \<Rightarrow> NotText
      | Ok fingerprint_from_noise \<Rightarrow>
          if fingerprint_from_noise \<noteq> remote_fingerprint then Mismatch remote_fingerprint fingerprint_from_noise
          else Accept)"

text \<open>\<open>XWrite\<close>, \<open>XFlush\<close> and \<open>XRead\<close> name the next call; a write reports how many bytes it took.\<close>

datatype xpc = XWrite | XFlush nat | XRead nat | XDone verdict

record xside =
  x_our :: string
  x_remote :: string
  x_pc :: xpc
  x_inbox :: "u8 list"

text \<open>
  One call of a side, if it can complete: the side afterwards and the bytes that reach the other one. The argument
  \<open>k\<close> bounds how many bytes a write takes; what was written reaches the peer when it is flushed; a read waits
  until all its bytes are there.
\<close>

definition xsection :: "nat \<Rightarrow> xside \<Rightarrow> (xside \<times> u8 list) option" where
  "xsection k s =
     (case x_pc s of
        XWrite \<Rightarrow> Some (s\<lparr>x_pc := XFlush (min k (length (x_our s)))\<rparr>, [])
      | XFlush n \<Rightarrow> Some (s\<lparr>x_pc := XRead n\<rparr>, take n (into_bytes (x_our s)))
      | XRead n \<Rightarrow>
          if n \<le> length (x_inbox s)
          then Some (s\<lparr>x_pc := XDone (check_received (x_remote s) (take n (x_inbox s))),
            x_inbox := drop n (x_inbox s)\<rparr>, [])
          else None
      | XDone v \<Rightarrow> None)"

definition xstart :: "string \<Rightarrow> string \<Rightarrow> xside" where
  "xstart our remote = \<lparr>x_our = our, x_remote = remote, x_pc = XWrite, x_inbox = []\<rparr>"

section \<open>Two sides\<close>

datatype party = DialerCall nat | ListenerCall nat

inductive xstep :: "xside \<times> xside \<Rightarrow> party \<Rightarrow> xside \<times> xside \<Rightarrow> bool" where
  dialer: "xsection k a = Some (a', out) \<Longrightarrow> xstep (a, b) (DialerCall k) (a', b\<lparr>x_inbox := x_inbox b @ out\<rparr>)"
| listener: "xsection k b = Some (b', out) \<Longrightarrow> xstep (a, b) (ListenerCall k) (a\<lparr>x_inbox := x_inbox a @ out\<rparr>, b')"

inductive_cases xstepE: "xstep (a, b) l z"

text \<open>The state a sequence of calls leads to, for evaluating concrete exchanges.\<close>

fun xschedule :: "party list \<Rightarrow> xside \<times> xside \<Rightarrow> (xside \<times> xside) option" where
  "xschedule [] c = Some c"
| "xschedule (DialerCall k # ls) (a, b) =
     (case xsection k a of None \<Rightarrow> None | Some (a', out) \<Rightarrow> xschedule ls (a', b\<lparr>x_inbox := x_inbox b @ out\<rparr>))"
| "xschedule (ListenerCall k # ls) (a, b) =
     (case xsection k b of None \<Rightarrow> None | Some (b', out) \<Rightarrow> xschedule ls (a\<lparr>x_inbox := x_inbox a @ out\<rparr>, b'))"

lemma xschedule_run: "xschedule ls c = Some d \<Longrightarrow> run xstep c ls d"
  by (induction ls c rule: xschedule.induct)
     (auto intro: run_intros xstep.intros split: option.splits)

fun whole :: "nat \<Rightarrow> party \<Rightarrow> bool" where
  "whole n (DialerCall k) \<longleftrightarrow> n \<le> k"
| "whole n (ListenerCall k) \<longleftrightarrow> n \<le> k"

fun rank :: "xpc \<Rightarrow> nat" where
  "rank XWrite = 3"
| "rank (XFlush n) = 2"
| "rank (XRead n) = 1"
| "rank (XDone v) = 0"

lemma xsection_rank: "xsection k s = Some (s', out) \<Longrightarrow> rank (x_pc s) = Suc (rank (x_pc s'))"
  by (auto simp: xsection_def split: xpc.splits if_splits)

lemma xstep_rank: "xstep (a, b) l (a', b') \<Longrightarrow> rank (x_pc a) + rank (x_pc b) = Suc (rank (x_pc a') + rank (x_pc b'))"
  by (erule xstepE) (auto dest: xsection_rank)

lemma xrun_rank:
  assumes "run xstep c ls d"
  shows "length ls + (rank (x_pc (fst d)) + rank (x_pc (snd d))) = rank (x_pc (fst c)) + rank (x_pc (snd c))"
  using assms
proof (induction rule: run.induct)
  case (run_cons c l d ls e)
  then show ?case using xstep_rank [of "fst c" "snd c" l "fst d" "snd d"] by simp
qed simp

text \<open>
  One half of the invariant when both texts have length \<open>n\<close> and no write is cut short: the inbox of \<open>a\<close> holds the
  text of \<open>b\<close> exactly while \<open>b\<close> has sent it and \<open>a\<close> has not read it, and a side that is done has judged that text.
\<close>

definition sent :: "xside \<Rightarrow> bool" where
  "sent s \<longleftrightarrow> (case x_pc s of XRead _ \<Rightarrow> True | XDone _ \<Rightarrow> True | _ \<Rightarrow> False)"

definition xhalf :: "nat \<Rightarrow> xside \<Rightarrow> xside \<Rightarrow> bool" where
  "xhalf n a b \<longleftrightarrow> length (x_our b) = n \<and> 0 < n \<and>
     (case x_pc a of
        XDone v \<Rightarrow> sent b \<and> x_inbox a = [] \<and> v = check_received (x_remote a) (into_bytes (x_our b))
      | XFlush m \<Rightarrow> m = n \<and> x_inbox a = (if sent b then into_bytes (x_our b) else [])
      | XRead m \<Rightarrow> m = n \<and> x_inbox a = (if sent b then into_bytes (x_our b) else [])
      | XWrite \<Rightarrow> x_inbox a = (if sent b then into_bytes (x_our b) else []))"

lemma xhalf_own:
  assumes "xsection k a = Some (a', out)" and "xhalf n a b" and "xhalf n b a" and "n \<le> k"
  shows "xhalf n a' (b\<lparr>x_inbox := x_inbox b @ out\<rparr>)"
  using assms by (auto simp: xsection_def xhalf_def sent_def split: xpc.splits if_splits)

lemma xhalf_other:
  assumes "xsection k a = Some (a', out)" and "xhalf n a b" and "xhalf n b a"
  shows "xhalf n (b\<lparr>x_inbox := x_inbox b @ out\<rparr>) a'"
  using assms by (auto simp: xsection_def xhalf_def sent_def split: xpc.splits if_splits)

text \<open>The texts of the two sides, in the order: what each sends, what each expects.\<close>

definition texts :: "xside \<times> xside \<Rightarrow> (string \<times> string) \<times> string \<times> string" where
  "texts = (\<lambda>(a, b). ((x_our a, x_our b), (x_remote a, x_remote b)))"

lemma xsection_texts: "xsection k s = Some (s', out) \<Longrightarrow> x_our s' = x_our s \<and> x_remote s' = x_remote s"
  by (auto simp: xsection_def split: xpc.splits if_splits)

definition xinv :: "nat \<Rightarrow> (string \<times> string) \<times> string \<times> string \<Rightarrow> xside \<times> xside \<Rightarrow> bool" where
  "xinv n t = (\<lambda>(a, b). xhalf n a b \<and> xhalf n b a \<and> texts (a, b) = t)"

interpretation two_sides: step_invariant "\<lambda>c l d. xstep c l d \<and> whole n l" "xinv n t"
  for n t
proof unfold_locales
  fix c l d
  assume "xstep c l d \<and> whole n l" and "xinv n t c"
  then have "xstep c l d" and "whole n l" and "xinv n t c" by simp_all
  then show "xinv n t d"
  proof (induction rule: xstep.induct)
    case (dialer k a a' out b)
    then show ?case
      using xhalf_own [OF dialer(1)] xhalf_other [OF dialer(1)] xsection_texts [OF dialer(1)]
      by (simp add: xinv_def texts_def)
  next
    case (listener k b b' out a)
    then show ?case
      using xhalf_own [OF listener(1)] xhalf_other [OF listener(1)] xsection_texts [OF listener(1)]
      by (simp add: xinv_def texts_def)
  qed
qed

lemma xinv_start:
  assumes "length our_d = n" and "length our_l = n" and "0 < n"
  shows "xinv n ((our_d, our_l), (exp_d, exp_l)) (xstart our_d exp_d, xstart our_l exp_l)"
  using assms by (simp add: xinv_def xhalf_def texts_def xstart_def sent_def)

text \<open>The two sides never wait for each other: somebody can go on until both are done.\<close>

lemma stuck_half: "xsection k a = None \<Longrightarrow> xhalf n a b \<Longrightarrow> sent a \<and> ((\<exists>v. x_pc a = XDone v) \<or> \<not> sent b)"
  by (auto simp: xsection_def xhalf_def sent_def split: xpc.splits if_splits)

lemma exchange_progress:
  assumes "xinv n t (a, b)"
  shows "(\<exists>v u. x_pc a = XDone v \<and> x_pc b = XDone u) \<or> (\<exists>l d. xstep (a, b) l d \<and> whole n l)"
proof (cases "xsection n a = None \<and> xsection n b = None")
  case True
  with assms stuck_half [of n a n b] stuck_half [of n b n a] show ?thesis
    by (auto simp: xinv_def)
next
  case False
  then have "\<exists>l d. xstep (a, b) l d \<and> whole n l"
    using xstep.dialer [of n a _ _ b] xstep.listener [of n b _ _ a] by fastforce
  then show ?thesis ..
qed

lemma check_text: "from_utf8 (into_bytes s) = Ok s \<Longrightarrow>
    check_received r (into_bytes s) = (if s = r then Accept else Mismatch r s)"
  by (simp add: check_received_def)

lemma xdone_verdict:
  "xhalf n a b \<Longrightarrow> x_pc a = XDone v \<Longrightarrow> v = check_received (x_remote a) (into_bytes (x_our b))"
  by (simp add: xhalf_def)

lemma fingerprint_text_length: "length f = 32 \<Longrightarrow> length (fingerprint_to_string f) = 95"
  by (subst length_fingerprint_to_string) auto

section \<open>Properties\<close>

text \<open>C7: The exchange ends on both sides: for two fingerprints of 32 bytes, when writes are not cut short, whatever the
  order in which the calls of dialer and listener complete, neither waits for ever: after at most six calls no more
  is possible, and when no more is possible both have come to a verdict. Each accepts if and only if the text it
  expects is the text the other one sends, and otherwise refuses with both texts.\<close>

theorem exchange_completes:
  assumes "length f = 32" and "length g = 32"
    and "run xstep (xstart (fingerprint_to_string f) exp_d, xstart (fingerprint_to_string g) exp_l) ls (a, b)"
    and "\<forall>l \<in> set ls. whole 95 l"
  shows "length ls \<le> 6 \<and>
    ((\<exists>l d. xstep (a, b) l d \<and> whole 95 l) \<or>
     x_pc a = XDone (if fingerprint_to_string g = exp_d then Accept else Mismatch exp_d (fingerprint_to_string g)) \<and>
     x_pc b = XDone (if fingerprint_to_string f = exp_l then Accept else Mismatch exp_l (fingerprint_to_string f)))"
proof -
  let ?t = "((fingerprint_to_string f, fingerprint_to_string g), (exp_d, exp_l))"
  have len: "length (fingerprint_to_string f) = 95" "length (fingerprint_to_string g) = 95"
    using assms(1,2) by (auto simp: fingerprint_text_length)
  have "length ls \<le> 6" using xrun_rank [OF assms(3)] by (simp add: xstart_def)
  moreover have inv: "xinv 95 ?t (a, b)"
    using two_sides.invar_run [OF run_restrict [OF assms(3,4)]] xinv_start len by simp
  then have half: "xhalf 95 a b" "xhalf 95 b a" and t: "texts (a, b) = ?t" by (simp_all add: xinv_def)
  note check = check_text [OF from_utf8_into_bytes [OF fingerprint_ascii]]
  have "x_pc a = XDone (if fingerprint_to_string g = exp_d then Accept else Mismatch exp_d (fingerprint_to_string g)) \<and>
     x_pc b = XDone (if fingerprint_to_string f = exp_l then Accept else Mismatch exp_l (fingerprint_to_string f))"
    if "x_pc a = XDone v" "x_pc b = XDone u" for v u
    using xdone_verdict [OF half(1) that(1)] xdone_verdict [OF half(2) that(2)] that t check by (simp add: texts_def)
  ultimately show ?thesis using exchange_progress [OF inv] by blast
qed


text \<open>A write that is cut short leaves the peer waiting: if the write of the dialer takes fewer bytes than its
  text has, the dialer reads as few and refuses, and the listener, who reads as many bytes as it has written, can
  never complete its read from what the dialer has sent.\<close>

lemma short_write_strands_peer:
  assumes "length f = 32" and "length g = 32" and "k < (95 :: nat)"
  shows "\<exists>ls a b. run xstep (xstart (fingerprint_to_string f) (fingerprint_to_string g),
      xstart (fingerprint_to_string g) (fingerprint_to_string f)) ls (a, b) \<and>
    (\<exists>v. x_pc a = XDone v \<and> v \<noteq> Accept) \<and> x_pc b = XRead 95 \<and> (\<forall>l d. xstep (a, b) l d = False)"
proof -
  let ?F = "fingerprint_to_string f" and ?G = "fingerprint_to_string g"
  let ?ls = "[DialerCall k, DialerCall k, ListenerCall 95, ListenerCall 95, DialerCall k]"
  let ?a = "\<lparr>x_our = ?F, x_remote = ?G, x_pc = XDone (check_received ?G (take k (into_bytes ?G))),
      x_inbox = drop k (into_bytes ?G)\<rparr>"
  let ?b = "\<lparr>x_our = ?G, x_remote = ?F, x_pc = XRead 95, x_inbox = take k (into_bytes ?F)\<rparr>"
  have len: "length ?F = 95" "length ?G = 95" using assms(1,2) by (auto simp: fingerprint_text_length)
  have "run xstep (xstart ?F ?G, xstart ?G ?F) ?ls (?a, ?b)"
    using len assms(3) by (intro xschedule_run) (simp add: xsection_def xstart_def min_def)
  moreover have "check_received ?G (take k (into_bytes ?G)) \<noteq> Accept"
  proof
    assume "check_received ?G (take k (into_bytes ?G)) = Accept"
    then have "from_utf8 (take k (into_bytes ?G)) = Ok ?G" by (auto simp: check_received_def split: result.splits if_splits)
    from arg_cong [OF into_bytes_from_utf8 [OF this], of length] len assms(3) show False by simp
  qed
  moreover have "xstep (?a, ?b) l d = False" for l d
    using len assms(3) by (auto elim!: xstepE simp: xsection_def)
  ultimately show ?thesis by (intro exI [of _ ?ls] exI [of _ ?a] exI [of _ ?b]) auto
qed

section \<open>When everybody cooperates\<close>

text \<open>
  \<open>yields P m\<close>: from every world the call \<open>m\<close> returns a value that satisfies \<open>P\<close>. A call that yields success passes a
  property of all results on from its continuation.
\<close>

definition yields :: "('b \<Rightarrow> bool) \<Rightarrow> ('w, 'b) world_call \<Rightarrow> bool" where
  "yields P m \<longleftrightarrow> (\<forall>w. P (fst (m w)))"

definition succeeds :: "('w, ('a, 'e) result) world_call \<Rightarrow> bool" where
  "succeeds m \<longleftrightarrow> yields (\<lambda>r. \<exists>x. r = Ok x) m"

abbreviation (input) ok_with :: "('a \<Rightarrow> bool) \<Rightarrow> ('a, 'e) result \<Rightarrow> bool" where
  "ok_with P r \<equiv> (\<exists>x. r = Ok x \<and> P x)"

lemma ensures_await_yields: "yields P m \<Longrightarrow> (\<And>b. P b \<Longrightarrow> ensures Q (k b)) \<Longrightarrow> ensures Q (await m k)"
  by (auto simp: ensures_def await_def yields_def split: prod.splits) (metis fst_conv)

lemma ensures_try_yields:
  assumes "yields (ok_with P) m" and "\<And>b. P b \<Longrightarrow> ensures Q (k b)"
  shows "ensures Q (await_try m conv k)"
proof -
  have "Q (fst (await_try m conv k w))" for w
  proof -
    obtain b w' where "m w = (Ok b, w')" and "P b" using assms(1) unfolding yields_def by (metis prod.collapse)
    with assms(2) show ?thesis by (simp add: await_try_def ensures_def)
  qed
  then show ?thesis by (simp add: ensures_def)
qed

lemma ensures_unwrap_yields:
  assumes "yields (ok_with P) m" and "\<And>b. P b \<Longrightarrow> ensures Q (k b)"
  shows "ensures Q (await_unwrap msg m k)"
proof -
  have "Q (fst (await_unwrap msg m k w))" for w
  proof -
    obtain b w' where "m w = (Ok b, w')" and "P b" using assms(1) unfolding yields_def by (metis prod.collapse)
    with assms(2) show ?thesis by (simp add: await_unwrap_def ensures_def)
  qed
  then show ?thesis by (simp add: ensures_def)
qed

text \<open>
  An environment in which nothing fails: every call returns a result, the channel opens before the timer, noise
  authenticates an identity key with the peer id \<open>pid\<close>, and the stream takes what is written and yields the text
  \<open>remote\<close> when that many bytes are asked for.
\<close>

definition calls_succeed :: "('ma, 'pid, 'o, 'x, 'w) rtc_api \<Rightarrow> bool" where
  "calls_succeed A \<longleftrightarrow>
     rtc_set_answering_dtls_role A DTLSServer = Ok () \<and>
     (\<forall>se cfg. succeeds (rtc_new_peer_connection A se cfg)) \<and>
     (\<forall>pc. succeeds (rtc_create_offer A pc)) \<and>
     (\<forall>pc. succeeds (rtc_create_answer A pc)) \<and>
     (\<forall>pc sd. succeeds (rtc_set_local_description A pc sd)) \<and>
     (\<forall>pc sd. succeeds (rtc_set_remote_description A pc sd)) \<and>
     (\<forall>pc l i. succeeds (rtc_create_data_channel A pc l i)) \<and>
     (\<forall>dc n. yields (\<lambda>r. \<exists>d. r = Some (HandlerRan (Ok d))) (rtc_await_rx_or_timer A dc n))"

definition peer_answers :: "('ma, 'pid, 'o, 'x, 'w) rtc_api \<Rightarrow> 'pid \<Rightarrow> string \<Rightarrow> bool" where
  "peer_answers A pid remote \<longleftrightarrow>
     (\<forall>k. succeeds (noise_authentic_keys A k)) \<and> (\<forall>n. noise_protocol_info A n \<noteq> []) \<and>
     (\<forall>n c i. yields (ok_with (\<lambda>(r, io). \<exists>pk. r = IdentityKey pk \<and> noise_to_peer_id A pk = pid))
        (noise_upgrade_outbound A n c i)) \<and>
     (\<forall>n c i. yields (ok_with (\<lambda>(r, io). \<exists>pk. r = IdentityKey pk \<and> noise_to_peer_id A pk = pid))
        (noise_upgrade_inbound A n c i)) \<and>
     (\<forall>io bs. yields (ok_with (\<lambda>n. n = length bs)) (nio_write A io bs)) \<and>
     (\<forall>io. succeeds (nio_flush A io)) \<and>
     (\<forall>io. yields (ok_with (\<lambda>buf. buf = into_bytes remote)) (nio_read_exact A io (length remote)))"

lemma ensures_succeeds:
  assumes "succeeds m" and "\<And>b. ensures Q (k b)"
  shows "ensures Q (await_try m conv k)" and "ensures Q (await_unwrap msg m k)"
  using assms by (auto simp: succeeds_def intro: ensures_try_yields ensures_unwrap_yields [where P = "\<lambda>_. True"]
      ensures_try_yields [where P = "\<lambda>_. True"])

lemma ensures_channel_ok:
  assumes "calls_succeed A" and "\<And>d. ensures Q (k d)"
  shows "ensures Q (open_initial_channel A pc ini k)"
proof -
  have create: "succeeds (rtc_create_data_channel A pc ''data'' (Some ini))"
    and rx: "\<And>dc. yields (\<lambda>r. \<exists>d. r = Some (HandlerRan (Ok d))) (rtc_await_rx_or_timer A dc 10)"
    using assms(1) by (simp_all add: calls_succeed_def)
  show ?thesis
    unfolding open_initial_channel_def
    by (rule ensures_succeeds [OF create], rule ensures_await_yields [OF rx])
       (auto simp: register_data_channel_open_handler_def assms(2))
qed

lemma ensures_noise_ok:
  assumes "peer_answers A pid remote" and "upgrade = noise_upgrade_outbound A \<or> upgrade = noise_upgrade_inbound A"
    and "\<And>io. ensures Q (k pid io)"
  shows "ensures Q (noise_handshake A D upgrade id_keys detached k)"
proof -
  have keys: "succeeds (noise_authentic_keys A id_keys)"
    and info: "\<And>n. noise_protocol_info A n \<noteq> []"
    and up: "\<And>n c i. yields (ok_with (\<lambda>(r, io). \<exists>pk. r = IdentityKey pk \<and> noise_to_peer_id A pk = pid)) (upgrade n c i)"
    using assms(1,2) by (auto simp: peer_answers_def)
  have "ensures Q (await (pdc_new D detached) (\<lambda>ch. await_try (upgrade n (pdc_into_inner ch) i) Noise (\<lambda>(remote, io).
         case remote of
           IdentityKey pk \<Rightarrow> k (noise_to_peer_id A pk) io
         | OtherIdentity \<Rightarrow> return_err (Noise (noise_authentication_failed A)))))" for n i
    by (rule ensures_await, rule ensures_try_yields, rule up) (use assms(3) in auto)
  with info show ?thesis
    unfolding noise_handshake_def Let_def
    by (intro ensures_succeeds(2) [OF keys]) (auto split: list.splits)
qed

lemma ensures_exchange_ok:
  assumes "peer_answers A pid remote" and "length our = length remote" and "is_ascii remote" and "ensures Q k"
  shows "ensures Q (exchange_fingerprints A io our remote k)"
proof -
  have "yields (ok_with (\<lambda>n. n = length (into_bytes our))) (nio_write A io (into_bytes our))"
    using assms(1) unfolding peer_answers_def by blast
  then have wr: "yields (ok_with (\<lambda>n. n = length remote)) (nio_write A io (into_bytes our))"
    using assms(2) by simp
  have calls: "succeeds (nio_flush A io)"
    "yields (ok_with (\<lambda>buf. buf = into_bytes remote)) (nio_read_exact A io (length remote))"
    using assms(1) by (simp_all add: peer_answers_def)
  have "ensures Q (await_try (nio_read_exact A io (length remote)) IoError (\<lambda>buf.
     case from_utf8 buf of
       Err _ \<Rightarrow> return_err (Noise (noise_authentication_failed A))
     | Ok got \<Rightarrow> if got \<noteq> remote then return_err (InvalidFingerprint remote got) else k))"
    by (rule ensures_try_yields, rule calls(2)) (simp add: from_utf8_into_bytes assms(3,4))
  then show ?thesis
    unfolding exchange_fingerprints_def
    by (intro ensures_try_yields [OF wr] ensures_succeeds(1) [OF calls(1)]) simp
qed

definition returns_peer :: "'pid \<Rightarrow> ('pid \<times> 'c, 'e) result outcome \<Rightarrow> bool" where
  "returns_peer pid r \<longleftrightarrow> (\<exists>c. r = Returns (Ok (pid, c)))"

lemmas succeeding = ensures_succeeds ensures_unwrap ensures_await ensures_return

lemma dial_succeeds:
  assumes "calls_succeed A" and "peer_answers A pid (fingerprint_to_string f)" and "length f = 32"
    and "tt_laws T (description_fields show_ip)" and "\<And>ip. html_safe (show_ip ip)"
    and "tr_config self = cert # certs" and "rtc_get_fingerprints A cert = Ok (fingerprint_to_string g # vs)" and "length g = 32"
    and "\<And>ctx. \<exists>sd. rtc_sdp_answer A (server_sdp_text show_ip ctx) = Ok sd"
    and "dialable M addr" and "fingerprint_from_addr M addr = Some f" and "peer_id_try_from_multiaddr A addr = Some pid"
  shows "ensures (returns_peer pid) (do_dial A D C M T self addr)"
proof -
  have cert: "cert_fingerprint A self = Returns (fingerprint_to_string g)"
    using assms(6,7) by (simp add: cert_fingerprint_def fingerprint_of_first_certificate_def)
  have len: "length (fingerprint_to_string g) = length (fingerprint_to_string f)"
    using assms(3,8) by (simp add: fingerprint_text_length)
  from assms(10) obtain sa where sa: "multiaddr_to_socketaddr M addr = Some sa" "sock_port sa \<noteq> 0"
    "\<not> ip_is_unspecified (sock_ip sa)" by (auto elim: dialableE)
  note calls = assms(1) [unfolded calls_succeed_def]
  show ?thesis
    unfolding do_dial_def Let_def
    by (simp add: cert render_server [OF assms(4,5)] sa assms(11,12) calls)
       (use assms(9) in \<open>auto intro!: succeeding ensures_channel_ok [OF assms(1)] ensures_noise_ok [OF assms(2)]
         ensures_exchange_ok [OF assms(2) len fingerprint_ascii] simp: calls returns_peer_def\<close>)
qed

lemma upgrade_succeeds:
  assumes "calls_succeed A" and "peer_answers A pid (fingerprint_to_string f)" and "length f = 32"
    and "tt_laws T (description_fields show_ip)" and "\<And>ip. html_safe (show_ip ip)"
    and "rtc_get_fingerprints A cert = Ok (fingerprint_to_string g # vs)" and "length g = 32"
    and "\<And>ctx. \<exists>sd. rtc_sdp_offer A (client_sdp_text show_ip ctx) = Ok sd"
    and "multiaddr_to_socketaddr M src = Some sa" and "last (ma_iter M src) = XWebRTC f"
  shows "ensures (returns_peer pid) (webrtc A D C M T udp_mux (cert # certs) src id_keys)"
proof -
  have cert: "fingerprint_of_first_certificate (rtc_get_fingerprints A) (cert # certs) = Returns (fingerprint_to_string g)"
    using assms(6) by (simp add: fingerprint_of_first_certificate_def)
  have len: "length (fingerprint_to_string g) = length (fingerprint_to_string f)"
    using assms(3,7) by (simp add: fingerprint_text_length)
  have ne: "ma_iter M src \<noteq> []" using assms(9) by (auto simp: multiaddr_to_socketaddr_Some)
  note calls = assms(1) [unfolded calls_succeed_def]
  show ?thesis
    unfolding webrtc_def Let_def
    by (simp add: cert render_client [OF assms(4,5)] assms(9,10) ne calls)
       (use assms(8) in \<open>auto intro!: succeeding ensures_channel_ok [OF assms(1)] ensures_noise_ok [OF assms(2)]
         ensures_exchange_ok [OF assms(2) len fingerprint_ascii] simp: calls returns_peer_def\<close>)
qed


section \<open>Witnesses\<close>

definition coop_rtc :: "nat \<Rightarrow> (nat protocol list, nat, nat, string, dworld) rtc_api" where
  "coop_rtc c = toy_rtc
     \<lparr>rtc_await_rx_or_timer := (\<lambda>_ _ w. (Some (HandlerRan (Ok 6)), w)),
      nio_read_exact := (\<lambda>_ n w. (Ok (take n (into_bytes (fingerprint_to_string (toy_fingerprint c)))), w))\<rparr>"

lemma coop_calls: "calls_succeed (coop_rtc c)"
  by (simp add: calls_succeed_def succeeds_def yields_def coop_rtc_def toy_rtc_def)

lemma coop_peer: "peer_answers (coop_rtc c) 42 (fingerprint_to_string (toy_fingerprint c))"
  by (simp add: peer_answers_def succeeds_def yields_def coop_rtc_def toy_rtc_def)


text \<open>A dialer that expects another fingerprint than the listener has.\<close>

lemma demo_exchange_run:
  "\<exists>a b. xschedule [ListenerCall 95, DialerCall 95, DialerCall 95, ListenerCall 95, ListenerCall 95, DialerCall 95]
     (xstart (fingerprint_to_string (toy_fingerprint 1)) (fingerprint_to_string (toy_fingerprint 3)),
      xstart (fingerprint_to_string (toy_fingerprint 2)) (fingerprint_to_string (toy_fingerprint 1))) = Some (a, b) \<and>
   (\<exists>v. x_pc a = XDone v) \<and> (\<exists>v. x_pc b = XDone v)"
  by (simp add: xsection_def xstart_def)

lemma exchange_completes_witness:
  "\<exists>ls a b. run xstep (xstart (fingerprint_to_string (toy_fingerprint 1)) (fingerprint_to_string (toy_fingerprint 3)),
      xstart (fingerprint_to_string (toy_fingerprint 2)) (fingerprint_to_string (toy_fingerprint 1))) ls (a, b) \<and>
    x_pc b = XDone Accept"
proof -
  obtain a b where s: "xschedule [ListenerCall 95, DialerCall 95, DialerCall 95, ListenerCall 95, ListenerCall 95, DialerCall 95]
     (xstart (fingerprint_to_string (toy_fingerprint 1)) (fingerprint_to_string (toy_fingerprint 3)),
      xstart (fingerprint_to_string (toy_fingerprint 2)) (fingerprint_to_string (toy_fingerprint 1))) = Some (a, b)"
    and fin: "\<exists>v. x_pc a = XDone v" "\<exists>v. x_pc b = XDone v"
    using demo_exchange_run by blast
  note r = xschedule_run [OF s]
  have "xstep (a, b) l d = False" for l d using fin by (auto elim!: xstepE simp: xsection_def)
  with exchange_completes [OF _ _ r] have "x_pc b = XDone Accept" by (simp add: toy_fingerprint_def)
  with r show ?thesis by (intro exI conjI)
qed


end
