(* ===== verification/Outbound.thy ===== *)
theory Outbound
  imports Connection
begin

text \<open>
  The futures that \<open>Connection::open_outbound\<close> (\<open>src/connection.rs\<close>) returns, poll by poll. Such a future waits for the
  asynchronous lock around the peer connection, creates a data channel while it holds the lock, releases it and
  waits for the channel to open. Any number of them are polled in any order, and each may be dropped at any of its
  waiting points by \<open>destroy_outbound\<close>.
\<close>

section \<open>The future\<close>

text \<open>Polling what the future waits for: the creation of a channel, and the receiver of its open handler.\<close>

record ('o, 'x, 'w) outbound_api =
  ob_poll_create :: "'o \<Rightarrow> ('w, ('o, 'x) result poll) world_call"
  ob_poll_rx :: "'o \<Rightarrow> ('w, ('o, 'x) rx_event poll) world_call"
  ob_show_error :: "'x \<Rightarrow> string"
  ob_canceled_text :: string

datatype 'o outbound = OLock | OCreate | OOpen 'o | OCompleted

text \<open>
  One poll of the future with number \<open>i\<close>: it runs until something it waits for is pending. The lock is the number of
  the future that holds it.
\<close>

definition poll_rx ::
  "('o, 'x, 'w) outbound_api \<Rightarrow> 'o \<Rightarrow> 'w \<Rightarrow> 'o outbound \<times> ('o, io_error) result poll \<times> 'w" where
  "poll_rx B data_channel w =
     (case ob_poll_rx B data_channel w of
        (Pending, w') \<Rightarrow> (OOpen data_channel, Pending, w')
      | (Ready ev, w') \<Rightarrow>
          (OCompleted,
           Ready (case rx_result ev of Ok detached \<Rightarrow> Ok detached | Err _ \<Rightarrow> Err (IoErr KOther (ob_canceled_text B))), w'))"

definition poll_create ::
  "('o, 'x, 'w) outbound_api \<Rightarrow> 'o \<Rightarrow> nat \<Rightarrow> 'w \<Rightarrow> 'o outbound \<times> ('o, io_error) result poll \<times> nat option \<times> 'w" where
  "poll_create B rtc_conn i w =
     (case ob_poll_create B rtc_conn w of
        (Pending, w') \<Rightarrow> (OCreate, Pending, Some i, w')
      | (Ready (Err e), w') \<Rightarrow>
          (OCompleted, Ready (Err (IoErr KOther (''webrtc error: '' @ ob_show_error B e))), None, w')
      | (Ready (Ok data_channel), w') \<Rightarrow>
          (case poll_rx B data_channel w' of (f, r, w'') \<Rightarrow> (f, r, None, w'')))"

fun poll_open ::
  "('o, 'x, 'w) outbound_api \<Rightarrow> 'o \<Rightarrow> nat \<Rightarrow> 'o outbound \<Rightarrow> nat option \<Rightarrow> 'w \<Rightarrow>
   'o outbound \<times> ('o, io_error) result poll \<times> nat option \<times> 'w" where
  "poll_open B rtc_conn i OLock lock w =
     (case lock of
        Some j \<Rightarrow> (OLock, Pending, lock, w)
      | None \<Rightarrow> poll_create B rtc_conn i w)"
| "poll_open B rtc_conn i OCreate lock w = poll_create B rtc_conn i w"
| "poll_open B rtc_conn i (OOpen data_channel) lock w =
     (case poll_rx B data_channel w of (f, r, w') \<Rightarrow> (f, r, lock, w'))"
| "poll_open B rtc_conn i OCompleted lock w = (OCompleted, Pending, lock, w)"

section \<open>Many futures of one connection\<close>

record ('o, 'q, 'w) outbounds =
  obs_conn :: "('o, 'q) connection"
  obs_lock :: "nat option"
  obs_futures :: "'o outbound option list"
  obs_world :: 'w

datatype 'o ob_label = OpenOutbound | PollOutbound nat "('o poll_data_channel, io_error) result poll" | DestroyOutbound nat

definition release :: "nat \<Rightarrow> nat option \<Rightarrow> nat option" where
  "release i lock = (if lock = Some i then None else lock)"

text \<open>
  A completed future is not polled again. Dropping a future drops the guard it holds.
\<close>

inductive ob_step ::
  "('o, 'x, 'w) outbound_api \<Rightarrow> ('o, 'w) data_channel_api \<Rightarrow>
   ('o, 'q, 'w) outbounds \<Rightarrow> 'o ob_label \<Rightarrow> ('o, 'q, 'w) outbounds \<Rightarrow> bool"
  for B D where
  ob_open: "ob_step B D s OpenOutbound (s\<lparr>obs_futures := obs_futures s @ [Some OLock]\<rparr>)"
| ob_poll: "i < length (obs_futures s) \<Longrightarrow> obs_futures s ! i = Some f \<Longrightarrow> f \<noteq> OCompleted \<Longrightarrow>
    poll_open B (cn_rtc_conn (obs_conn s)) i f (obs_lock s) (obs_world s) = (f', p, lock, w) \<Longrightarrow>
    poll_outbound D p (obs_conn s) w = (r, cn, w') \<Longrightarrow>
    ob_step B D s (PollOutbound i r)
      \<lparr>obs_conn = cn, obs_lock = lock, obs_futures = (obs_futures s)[i := Some f'], obs_world = w'\<rparr>"
| ob_destroy: "i < length (obs_futures s) \<Longrightarrow>
    ob_step B D s (DestroyOutbound i)
      (s\<lparr>obs_conn := destroy_outbound (obs_conn s), obs_futures := (obs_futures s)[i := None],
         obs_lock := release i (obs_lock s)\<rparr>)"

text \<open>The lock is held exactly by a live future that is creating its channel.\<close>

definition guarded :: "nat option \<Rightarrow> 'o outbound option list \<Rightarrow> bool" where
  "guarded lock fs \<longleftrightarrow> (\<forall>i. lock = Some i \<longleftrightarrow> i < length fs \<and> fs ! i = Some OCreate)"

definition lock_ok :: "('o, 'q, 'w) outbounds \<Rightarrow> bool" where
  "lock_ok s \<longleftrightarrow> guarded (obs_lock s) (obs_futures s)"

lemma poll_rx_state: "poll_rx B dc w = (f, r, w') \<Longrightarrow> f \<noteq> OCreate \<and> f \<noteq> OLock"
  by (auto simp: poll_rx_def split: prod.splits poll.splits)

lemma poll_create_state:
  "poll_create B pc i w = (f, r, lock, w') \<Longrightarrow> f = OCreate \<and> lock = Some i \<or> f \<noteq> OCreate \<and> lock = None"
  by (auto simp: poll_create_def split: prod.splits poll.splits result.splits dest: poll_rx_state)

lemma poll_open_state:
  assumes "poll_open B pc i f lock w = (f', r, lock', w')" and "f = OCreate \<longleftrightarrow> lock = Some i"
  shows "f' = OCreate \<and> lock' = Some i \<and> (lock = None \<or> lock = Some i) \<or>
    f' \<noteq> OCreate \<and> lock' = (if lock = Some i then None else lock)"
  using assms
  by (cases f) (auto split: option.splits prod.splits dest: poll_create_state poll_rx_state)

lemma guarded_update:
  assumes "guarded lock fs" and "i < length fs"
    and "x = Some OCreate \<and> lock' = Some i \<and> (lock = None \<or> lock = Some i) \<or>
      x \<noteq> Some OCreate \<and> lock' = (if lock = Some i then None else lock)"
  shows "guarded lock' (fs[i := x])"
  unfolding guarded_def
proof
  fix j
  have g: "lock = Some j \<longleftrightarrow> j < length fs \<and> fs ! j = Some OCreate" using assms(1) by (simp add: guarded_def)
  show "lock' = Some j \<longleftrightarrow> j < length (fs[i := x]) \<and> fs[i := x] ! j = Some OCreate"
    by (cases "j = i") (use g assms(2,3) in \<open>auto split: if_splits\<close>)
qed

interpretation outbound_lock: step_invariant "ob_step B D" lock_ok
  for B :: "('o, 'x, 'w) outbound_api" and D
proof unfold_locales
  fix s l t
  assume "ob_step B D s l t" and "lock_ok s"
  then show "lock_ok t"
  proof (induction rule: ob_step.induct)
    case (ob_open s)
    then show ?case by (auto simp: lock_ok_def guarded_def nth_append)
  next
    case (ob_poll i s f f' p lock w r cn w')
    from ob_poll have "f = OCreate \<longleftrightarrow> obs_lock s = Some i" by (auto simp: lock_ok_def guarded_def)
    from poll_open_state [OF ob_poll(4) this] ob_poll(1,6) show ?case by (auto simp: lock_ok_def intro: guarded_update)
  next
    case (ob_destroy i s)
    then show ?case by (simp add: lock_ok_def guarded_update release_def)
  qed
qed

section \<open>Polling until completion\<close>

text \<open>What a call returns if it is polled at most \<open>n\<close> times, and what a future returns.\<close>

fun ready_after :: "nat \<Rightarrow> ('w, 'a poll) world_call \<Rightarrow> 'w \<Rightarrow> ('a \<times> 'w) option" where
  "ready_after 0 m w = None"
| "ready_after (Suc n) m w = (case m w of (Pending, w') \<Rightarrow> ready_after n m w' | (Ready a, w') \<Rightarrow> Some (a, w'))"

fun drive ::
  "('o, 'x, 'w) outbound_api \<Rightarrow> 'o \<Rightarrow> nat \<Rightarrow> nat \<Rightarrow> 'o outbound \<Rightarrow> nat option \<Rightarrow> 'w \<Rightarrow>
   (('o, io_error) result \<times> nat option \<times> 'w) option" where
  "drive B rtc_conn i 0 f lock w = None"
| "drive B rtc_conn i (Suc n) f lock w =
     (case poll_open B rtc_conn i f lock w of
        (f', Pending, lock', w') \<Rightarrow> drive B rtc_conn i n f' lock' w'
      | (f', Ready r, lock', w') \<Rightarrow> Some (r, lock', w'))"

lemma drive_more: "drive B pc i n f lock w = Some r \<Longrightarrow> n \<le> m \<Longrightarrow> drive B pc i m f lock w = Some r"
proof (induction n arbitrary: m f lock w)
  case (Suc n)
  from Suc.prems(2) obtain m' where "m = Suc m'" "n \<le> m'" by (cases m) auto
  with Suc show ?case by (auto split: prod.splits poll.splits)
qed simp

definition opened_result :: "('o, 'x, 'w) outbound_api \<Rightarrow> ('o, 'x) rx_event \<Rightarrow> ('o, io_error) result" where
  "opened_result B ev = (case rx_result ev of Ok detached \<Rightarrow> Ok detached | Err _ \<Rightarrow> Err (IoErr KOther (ob_canceled_text B)))"

lemma drive_open:
  "ready_after m (ob_poll_rx B dc) w = Some (ev, w') \<Longrightarrow>
   drive B pc i m (OOpen dc) lock w = Some (opened_result B ev, lock, w')"
  by (induction m arbitrary: w) (auto simp: poll_rx_def opened_result_def split: prod.splits poll.splits)

lemma drive_create:
  assumes "ready_after n (ob_poll_create B pc) w = Some (Ok dc, w1)"
    and "ready_after m (ob_poll_rx B dc) w1 = Some (ev, w2)" and "f = OCreate \<or> f = OLock \<and> lock = None"
  shows "drive B pc i (n + m) f lock w = Some (opened_result B ev, None, w2)"
  using assms(1,3)
proof (induction n arbitrary: w f lock)
  case (Suc n)
  have poll: "poll_open B pc i f lock w = poll_create B pc i w" using Suc.prems(2) by auto
  show ?case
  proof (cases "ob_poll_create B pc w")
    case (Pair p v)
    show ?thesis
    proof (cases p)
      case Pending
      with Pair poll Suc.IH [of v OCreate "Some i"] Suc.prems show ?thesis by (simp add: poll_create_def)
    next
      case (Ready r)
      with Pair Suc.prems(1) have r: "r = Ok dc" "v = w1" by simp_all
      obtain m' where m: "m = Suc m'" using assms(2) by (cases m) simp_all
      have "drive B pc i (Suc (n + m)) f lock w = Some (opened_result B ev, None, w2)"
      proof (cases "ob_poll_rx B dc w1")
        case (Pair q u)
        show ?thesis
        proof (cases q)
          case Pending
          with assms(2) m Pair have "ready_after m' (ob_poll_rx B dc) u = Some (ev, w2)" by simp
          from drive_more [OF drive_open [OF this, of pc i None], of "n + m"] m
          show ?thesis using Pending Pair \<open>ob_poll_create B pc w = (p, v)\<close> Ready r poll
            by (simp add: poll_create_def poll_rx_def)
        next
          case (Ready ev')
          with assms(2) m Pair have "ev' = ev" "u = w2" by simp_all
          with Ready Pair \<open>ob_poll_create B pc w = (p, v)\<close> \<open>p = Ready r\<close> r poll show ?thesis
            by (simp add: poll_create_def poll_rx_def opened_result_def)
        qed
      qed
      then show ?thesis by simp
    qed
  qed
qed simp

lemma drive_create_err:
  assumes "ready_after n (ob_poll_create B pc) w = Some (Err e, w1)" and "f = OCreate \<or> f = OLock \<and> lock = None"
  shows "drive B pc i n f lock w = Some (Err (IoErr KOther (''webrtc error: '' @ ob_show_error B e)), None, w1)"
  using assms
proof (induction n arbitrary: w f lock)
  case (Suc n)
  have "poll_open B pc i f lock w = poll_create B pc i w" using Suc.prems(2) by auto
  with Suc.prems Suc.IH [of _ OCreate "Some i"] show ?case
    by (auto simp: poll_create_def split: prod.splits poll.splits)
qed simp

section \<open>Schedules as functions\<close>

datatype ob_choice = OpenOne | PollOne nat | DropOne nat

fun ob_next ::
  "('o, 'x, 'w) outbound_api \<Rightarrow> ('o, 'w) data_channel_api \<Rightarrow> ob_choice \<Rightarrow> ('o, 'q, 'w) outbounds \<Rightarrow>
   ('o ob_label \<times> ('o, 'q, 'w) outbounds) option" where
  "ob_next B D OpenOne s = Some (OpenOutbound, s\<lparr>obs_futures := obs_futures s @ [Some OLock]\<rparr>)"
| "ob_next B D (PollOne i) s =
     (if i < length (obs_futures s) \<and> obs_futures s ! i \<noteq> None \<and> obs_futures s ! i \<noteq> Some OCompleted then
        (case poll_open B (cn_rtc_conn (obs_conn s)) i (the (obs_futures s ! i)) (obs_lock s) (obs_world s) of
           (f', p, lock, w) \<Rightarrow>
             (case poll_outbound D p (obs_conn s) w of
                (r, cn, w') \<Rightarrow>
                  Some (PollOutbound i r,
                    \<lparr>obs_conn = cn, obs_lock = lock, obs_futures = (obs_futures s)[i := Some f'], obs_world = w'\<rparr>)))
      else None)"
| "ob_next B D (DropOne i) s =
     (if i < length (obs_futures s) then
        Some (DestroyOutbound i,
          s\<lparr>obs_conn := destroy_outbound (obs_conn s), obs_futures := (obs_futures s)[i := None],
             obs_lock := release i (obs_lock s)\<rparr>)
      else None)"

lemma ob_next_step: "ob_next B D ch s = Some (l, t) \<Longrightarrow> ob_step B D s l t"
  by (cases ch) (auto intro: ob_step.intros split: if_split_asm prod.splits)

fun ob_schedule ::
  "('o, 'x, 'w) outbound_api \<Rightarrow> ('o, 'w) data_channel_api \<Rightarrow> ob_choice list \<Rightarrow> ('o, 'q, 'w) outbounds \<Rightarrow>
   ('o ob_label list \<times> ('o, 'q, 'w) outbounds) option" where
  "ob_schedule B D [] s = Some ([], s)"
| "ob_schedule B D (ch # chs) s =
     (case ob_next B D ch s of
        None \<Rightarrow> None
      | Some (l, t) \<Rightarrow> (case ob_schedule B D chs t of None \<Rightarrow> None | Some (ls, u) \<Rightarrow> Some (l # ls, u)))"

lemma ob_schedule_run: "ob_schedule B D chs s = Some (ls, t) \<Longrightarrow> run (ob_step B D) s ls t"
  by (induction chs arbitrary: s ls) (auto intro!: run_intros intro: ob_next_step split: option.splits)

section \<open>Properties\<close>

definition obs_new :: "('o, 'q) connection \<Rightarrow> 'w \<Rightarrow> ('o, 'q, 'w) outbounds" where
  "obs_new cn w = \<lparr>obs_conn = cn, obs_lock = None, obs_futures = [], obs_world = w\<rparr>"

lemma obs_new_ok: "lock_ok (obs_new cn w)"
  by (simp add: obs_new_def lock_ok_def guarded_def)

text \<open>C17: The lock around the peer connection is never leaked and never held during the wait for a channel to open:
  however the futures of \<open>open_outbound\<close> are polled and dropped, no two of them create a channel at the same time, the
  holder of the lock is a live future that is creating its channel, and dropping it releases the lock.\<close>

theorem outbound_lock_safe:
  assumes "run (ob_step B D) (obs_new cn w) ls s"
  shows "(\<forall>i j. i < length (obs_futures s) \<and> j < length (obs_futures s) \<and>
      obs_futures s ! i = Some OCreate \<and> obs_futures s ! j = Some OCreate \<longrightarrow> i = j) \<and>
    (\<forall>j. obs_lock s = Some j \<longrightarrow> obs_futures s ! j = Some OCreate \<and>
      (\<exists>t. ob_step B D s (DestroyOutbound j) t \<and> obs_lock t = None))"
proof -
  from outbound_lock.invar_run [OF assms obs_new_ok]
  have ok: "obs_lock s = Some i \<longleftrightarrow> i < length (obs_futures s) \<and> obs_futures s ! i = Some OCreate" for i
    by (auto simp: lock_ok_def guarded_def)
  have "\<exists>t. ob_step B D s (DestroyOutbound j) t \<and> obs_lock t = None" if "obs_lock s = Some j" for j
    using that ok ob_destroy [of j s B D] by (fastforce simp: release_def)
  with ok show ?thesis by (metis option.inject)
qed


text \<open>A dropped future leaves nothing behind in the map: after any sequence of opening, polling and dropping, the
  substreams in the map are those that were there and those that a poll of a future has returned.\<close>

theorem only_completed_outbounds_registered:
  assumes "run (ob_step B D) s ls t"
  shows "fst ` set (channels (obs_conn t)) =
    fst ` set (channels (obs_conn s)) \<union> {stream_identifier D ch | i ch. PollOutbound i (Ready (Ok ch)) \<in> set ls}"
  using assms
proof (induction rule: run.induct)
  case (run_cons s l t ls u)
  from run_cons(1) have "fst ` set (channels (obs_conn t)) =
      fst ` set (channels (obs_conn s)) \<union> {stream_identifier D ch | i ch. l = PollOutbound i (Ready (Ok ch))}"
  proof (cases rule: ob_step.cases)
    case (ob_poll i f f' p lock w r cn w')
    then show ?thesis
      by (auto simp: poll_outbound_def insert_channel_sel dom_update split: poll.splits result.splits prod.splits
          dest!: insert_channel_sel(1))
  qed (auto simp: destroy_outbound_def)
  with run_cons.IH show ?case by auto
qed simp

section \<open>Witnesses\<close>

text \<open>Creating and opening a channel are pending as long as the world has busy entries left.\<close>

definition toy_ob :: "(nat, string, dworld) outbound_api" where
  "toy_ob =
    \<lparr>ob_poll_create = (\<lambda>_ w. if dw_busy w = [] then (Ready (Ok 5), w) else (Pending, w\<lparr>dw_busy := tl (dw_busy w)\<rparr>)),
     ob_poll_rx = (\<lambda>_ w. if dw_busy w = [] then (Ready (HandlerRan (Ok 6)), w) else (Pending, w\<lparr>dw_busy := tl (dw_busy w)\<rparr>)),
     ob_show_error = (\<lambda>e. e), ob_canceled_text = ''oneshot canceled''\<rparr>"

definition demo_ob :: "(nat, nat \<times> nat list \<times> bool, dworld) outbounds" where
  "demo_ob = obs_new (fst (connection_new toy_rtc list_mpsc 1 dw_init)) (dw_init\<lparr>dw_busy := [0]\<rparr>)"

text \<open>Two futures; the first is dropped while it holds the lock, the second completes.\<close>

lemma demo_ob_first:
  "\<exists>s. ob_schedule toy_ob toy_dc [OpenOne, OpenOne, PollOne 0] demo_ob =
     Some ([OpenOutbound, OpenOutbound, PollOutbound 0 Pending], s) \<and> obs_lock s = Some 0"
  by (simp add: demo_ob_def obs_new_def toy_ob_def poll_create_def poll_outbound_def)

lemma demo_ob_second:
  "\<exists>s. ob_schedule toy_ob toy_dc [OpenOne, OpenOne, PollOne 0, DropOne 0, PollOne 1] demo_ob =
     Some ([OpenOutbound, OpenOutbound, PollOutbound 0 Pending, DestroyOutbound 0,
       PollOutbound 1 (Ready (Ok (PollDataChannel 6)))], s) \<and> obs_futures s = [None, Some OCompleted]"
  by (simp add: demo_ob_def obs_new_def toy_ob_def poll_create_def poll_rx_def poll_outbound_def destroy_outbound_def release_def
      register_data_channel_open_handler_def insert_channel_def pdc_new_def toy_dc_def dw_init_def)

lemma outbound_lock_safe_witness:
  "\<exists>s t. run (ob_step toy_ob toy_dc) demo_ob [OpenOutbound, OpenOutbound, PollOutbound 0 Pending] s \<and> obs_lock s = Some 0 \<and>
     ob_step toy_ob toy_dc s (DestroyOutbound 0) t \<and> obs_lock t = None"
proof -
  from demo_ob_first obtain s where "ob_schedule toy_ob toy_dc [OpenOne, OpenOne, PollOne 0] demo_ob =
     Some ([OpenOutbound, OpenOutbound, PollOutbound 0 Pending], s)" and lock: "obs_lock s = Some 0" by blast
  from ob_schedule_run [OF this(1)]
  have r: "run (ob_step toy_ob toy_dc) demo_ob [OpenOutbound, OpenOutbound, PollOutbound 0 Pending] s" .
  from outbound_lock_safe [OF r [unfolded demo_ob_def]] lock obtain t where
    "ob_step toy_ob toy_dc s (DestroyOutbound 0) t" "obs_lock t = None" by auto
  with r lock show ?thesis by (intro exI conjI)
qed


lemma only_completed_outbounds_registered_witness:
  "\<exists>s :: (nat, nat \<times> nat list \<times> bool, dworld) outbounds.
     obs_futures s = [None, Some OCompleted] \<and> fst ` set (channels (obs_conn s)) = {6}"
proof -
  let ?ls = "[OpenOutbound, OpenOutbound, PollOutbound 0 Pending, DestroyOutbound 0,
      PollOutbound 1 (Ready (Ok (PollDataChannel 6)))]"
  from demo_ob_second obtain s where "ob_schedule toy_ob toy_dc [OpenOne, OpenOne, PollOne 0, DropOne 0, PollOne 1] demo_ob =
     Some (?ls, s)" and f: "obs_futures s = [None, Some OCompleted]" by blast
  note r = only_completed_outbounds_registered [OF ob_schedule_run [OF this(1)]]
  have "channels (obs_conn demo_ob) = []" by (simp add: demo_ob_def obs_new_def connection_new_def)
  moreover have "{stream_identifier toy_dc ch | i ch. PollOutbound i (Ready (Ok ch)) \<in> set ?ls} = {6}"
    by (auto simp: stream_identifier_def toy_dc_def)
  ultimately have "fst ` set (channels (obs_conn s)) = {6}" using r by simp
  with f show ?thesis by blast
qed

end
