(* ===== verification/Spec2Isabelle.thy ===== *)
theory Spec2Isabelle
  imports Wakeups Interfaces Connect_Test Udp_Mux_Linear Incoming Sdp_Text Transport_Tests Exchange Outbound
begin

text \<open>
  A model of \<open>libp2p-webrtc-direct\<close>, a Rust transport for libp2p that connects two peers over WebRTC without a
  signaling server, with the theorems that make it correct.

  The program. A peer has one UDP socket. \<open>UDPMuxNewAddr\<close> (\<open>src/udp_mux.rs\<close>) multiplexes the ICE traffic of all
  connections over it: it keeps a table of connections by ICE user name fragment (ufrag), a map from remote
  addresses to connections, and the set of addresses it has reported. Its worker task receives datagrams,
  hands them to the connection of their source address or of the ufrag they name, and reports the address of
  an unknown peer, together with the fingerprint in the peer's ufrag, as a multiaddress on a bounded channel.
  \<open>WebRTCListenStream\<close> (\<open>src/transport.rs\<close>) turns each reported address into an upgrade, run by \<open>webrtc\<close>
  (\<open>src/upgrade.rs\<close>); \<open>do_dial\<close> (\<open>src/transport.rs\<close>) is the other side. Both build a peer connection from
  predefined session descriptions (\<open>src/sdp.rs\<close>), open a data channel, run a noise handshake over it and compare
  certificate fingerprints. The result is a \<open>Connection\<close> (\<open>src/connection.rs\<close>), a stream muxer whose substreams
  are data channels wrapped by \<open>src/connection/poll_data_channel.rs\<close>.

  The theories, in the order they build on each other.

  \<^item> \<open>Prelude\<close>: \<open>Result\<close>, \<open>Poll\<close>, panics as values; combinators for asynchronous code over an explicit world
    (\<open>await_try\<close> is \<open>.map_err(f).await?\<close>, \<open>await_unwrap\<close> and \<open>unwrap_or_panic\<close> are \<open>.unwrap()\<close>) with rules for what
    success implies (\<open>async_okE\<close>) and for properties of every result (\<open>ensures\<close>); runs of labelled step relations
    with the locales \<open>step_invariant\<close>, \<open>step_monotone\<close> and \<open>step_simulation\<close> (an abstract machine with the same
    labels); hash maps as association lists with distinct keys, whose
    iteration order is a parameter \<open>ord\<close> of which only \<open>iterates ord\<close>, that it permutes the entries, is assumed.
  \<^item> \<open>Rust_Std\<close>: what the code uses of the standard library: strings as lists of bytes, UTF-8 validation,
    \<open>split\<close>, \<open>replace\<close>, \<open>join\<close>, \<open>{:02x}\<close>, IP and socket addresses with words of 32, 128 and 16 bits.
  \<^item> \<open>Externals\<close>, \<open>Rtc_Externals\<close>: the packages the crate calls, as records of operations that the definitions take
    as arguments: \<open>multiaddr\<close>, \<open>hex\<close>, \<open>stun\<close>, the muxed connections of \<open>webrtc_ice\<close>, \<open>futures\<close> channels,
    \<open>tinytemplate\<close>, data channels, peer connections, noise. What the crate relies on is a predicate \<open>..._laws\<close> that
    theorems take as a hypothesis. \<open>Instances\<close> and the ends of the other theories give concrete operations that
    satisfy the laws; the witnesses run on them.
  \<^item> \<open>Sdp\<close>: the two session description templates character by character, and their expansion.
  \<^item> \<open>Transport_Util\<close>: the free functions of \<open>src/transport.rs\<close> and \<open>hex_to_cow\<close>: parsing and building addresses,
    fingerprint texts, rendering, ICE credentials, the setting engine as the list of its setter calls. Round
    trip of addresses, agreement of the ICE credentials of both sides, rendering never panics. \<open>Sdp_Text\<close> reads the
    rendered descriptions back, line by line, and finds the credentials and the fingerprint exactly once.
  \<^item> \<open>Udp_Mux\<close>: the state and operations of the mux, each as one step. The invariant that keys are distinct,
    connections are stored under their own ufrag and every route is known to its connection; what \<open>close\<close>,
    \<open>remove_conn_by_ufrag\<close> and \<open>register_conn_for_address\<close> do; the locale \<open>conn_table\<close> states what users of the table
    rely on and is interpreted on the mux.
  \<^item> \<open>Udp_Mux_Worker\<close>: the worker as a function of the events its \<open>select!\<close> delivers, with the reused receive
    buffer of 8192 bytes, and the system of worker, operations and listener as a step relation. Routing,
    reporting once, the round trip of a report, when it panics.
  \<^item> \<open>Udp_Mux_Conc\<close>: the operations of the mux once more as tasks that interleave between lock sections. A task
    that is not interrupted is the operation; the table stays well formed under all interleavings; calls of
    \<open>get_conn\<close> agree; and the races that \<open>close\<close> does not exclude.
  \<^item> \<open>Udp_Mux_Linear\<close>: the table of connections as an atomic object. Every interleaving of the tasks is a run of the machine
    \<open>table_spec\<close>, which finds, creates, removes and clears in one step each (by the locale \<open>step_simulation\<close>); a ufrag
    keeps its connection until it is dropped.
  \<^item> \<open>Udp_Mux_System\<close>: the worker too is split at its locks and runs among the tasks and the reads of the listener
    (\<open>system_step\<close>). What can be observed is proved to be a run of an abstract machine, \<open>announce_spec\<close>, which keeps the
    set of addresses that must not be announced and the queue of announcements; from it follow that no address is
    announced twice before it is forgotten, that announcements are delivered in order and the type of what is on the
    channel. The invariant of all interleavings, the worker not interrupted, and a race of worker and registration.
  \<^item> \<open>Poll_Data_Channel\<close>, \<open>Connection\<close>: substreams and the muxer, every method of the trait. Closing flushes and
    shuts down every substream (by the locale \<open>poll_goal\<close>, interpreted for both loops), the map is exactly the
    substreams in use, incoming channels are delivered in order.
  \<^item> \<open>Incoming\<close>: the queue of incoming data channels, to which each is sent with a clone of the sender of its own, so
    that none is dropped, however many wait.
  \<^item> \<open>Outbound\<close>: the futures of \<open>open_outbound\<close> poll by poll, many of them over one asynchronous lock, each dropped at
    any waiting point. The lock is not leaked, a future driven to completion is \<open>open_outbound\<close>, a dropped one leaves
    no substream behind.
  \<^item> \<open>Handshake\<close>: \<open>do_dial\<close> and \<open>webrtc\<close>, whole, with the three parts they have in common as definitions of their own.
    Success implies authentication, address errors, no panics.
  \<^item> \<open>Exchange\<close>: the exchange of fingerprints of dialer and listener against each other over a stream of bytes in each
    direction, one call at a time: both end and accept exactly when the texts agree. Then the success of \<open>do_dial\<close> and
    \<open>webrtc\<close> in an environment in which nothing fails.
  \<^item> \<open>Listener\<close>: the listen stream. \<open>poll_next\<close> is a partial function whose value is \<open>None\<close> if its loop over interface
    events does not end; it is proved to return when a watcher has finitely many events ready.
  \<^item> \<open>Webrtc_Transport\<close>: construction of the transport, the methods of the \<open>Transport\<close> trait and \<open>boxed\<close>.
    \<open>Transport_Tests\<close>: the unit test of \<open>multiaddr_to_socketaddr\<close>, which passes. \<open>Connect_Test\<close>: the two tests that connect
    a dialer to a listener, around the join of their futures, which is a parameter.
  \<^item> \<open>Node\<close>: a listening peer as a whole, the worker and the callers of the mux together with any number of listen streams
    made from one transport. Every announcement is upgraded by one stream, once and in order, and at most two wait.
  \<^item> \<open>Interfaces\<close>: a wildcard listener reports exactly the interface events that concern it. \<open>Wakeups\<close>: which task is woken
    when an address is reported, given that the streams share one receiver and a receiver remembers one waker: no address
    is missed when one task polls all streams or no stream is dropped, and one can be missed otherwise.
  \<^item> This theory: the properties that span the worker, the listener, the dialer and the upgrade.

  Modelling decisions. External calls thread an abstract world; shared pointers, peer connections, keys and
  channels of the packages are opaque handles. A future that the code returns is the function on worlds it
  denotes, except for the futures of \<open>open_outbound\<close>, which \<open>Outbound\<close> models with their waiting points. Every early return and every \<open>unwrap\<close> on a value that
  comes from outside is a branch. Fuel appears only in \<open>alone\<close> (a task run by itself), where \<open>length (conns s) + 6\<close>
  sections are proved to be enough, in \<open>work_alone\<close>, where 5 are, and in \<open>drive\<close>, \<open>poll_many\<close> and \<open>poll_events\<close>, where the
  number of polls needed is part of the theorems. Counters of the packages are natural numbers.

  Not modelled: logging; the texts derived for the error type; poisoning of standard mutexes; reference counts, so
  that a leak is visible only as an entry left in a table; timing, except that a timer may be over or not; dropping
  the futures of \<open>do_dial\<close> and \<open>webrtc\<close> in the middle; \<open>UDPMuxParams\<close>, which only wraps the socket, whose operations are
  parameters; the smoke tests, which drive the swarm of libp2p over real sockets.

  What is planned next: the end of the noise stream when one side of the exchange gives up; dropping the futures of
  \<open>do_dial\<close> and \<open>webrtc\<close>; wakeups of listeners that also wait for interface events and timers.
\<close>

section \<open>From the packet worker to the upgrade\<close>

text \<open>
  The mux worker and the listen stream share the channel of new addresses; the mux environment and the
  listener are used with the same \<open>Multiaddr\<close> and channel implementations.
\<close>

lemma worker_report_address:
  assumes "multiaddr_laws (env_ma E)" and "hex_laws (env_hex E)" and "mpsc_laws (env_mpsc E)"
    and "reports y (worker_turn E y ev) addr"
  obtains data ufrag f where "ev = Received data addr"
    and "ufrag_from_stun_message (env_stun E) (recv_into (sys_buf y) data) False = Ok ufrag"
    and "hex_to_cow (env_hex E) ufrag = Returns f"
    and "mpsc_queued (env_mpsc E) (sys_chan (worker_turn E y ev)) =
      mpsc_queued (env_mpsc E) (sys_chan y) @ [new_peer_multiaddr (env_ma E) addr f]"
proof -
  from assms(4) obtain data ufrag f q where *: "ev = Received data addr"
    "ufrag_from_stun_message (env_stun E) (recv_into (sys_buf y) data) False = Ok ufrag"
    "hex_to_cow (env_hex E) (strip_colons ufrag) = Returns f"
    "mpsc_try_send (env_mpsc E) (new_peer_multiaddr (env_ma E) addr f) (sys_chan y) = (True, q)"
    "sys_chan (worker_turn E y ev) = q" by (rule worker_turn_reports)
  moreover have "strip_colons ufrag = ufrag"
    using ufrag_no_colon [OF *(2)] by (simp add: strip_colons_filter filter_neq_id)
  ultimately show thesis using that mpsc_try_send_True(1) [OF assms(3) *(4)] by metis
qed

text \<open>The address a dialer is reported under ends in the fingerprint of its certificate.\<close>

lemma dialer_reported_address:
  assumes "multiaddr_laws (env_ma E)" and "hex_laws (env_hex E)" and "mpsc_laws (env_mpsc E)" and "length f = 32"
    and "SetIceCredentials u p \<in> set (build_setting_engine mux sa (fingerprint_to_string f))"
    and "reports y (worker_turn E y (Received data addr)) addr"
    and "ufrag_from_stun_message (env_stun E) (recv_into (sys_buf y) data) False = Ok u"
  shows "mpsc_queued (env_mpsc E) (sys_chan (worker_turn E y (Received data addr))) =
      mpsc_queued (env_mpsc E) (sys_chan y) @ [new_peer_multiaddr (env_ma E) addr f]"
proof -
  obtain data' u' g where "Received data addr = Received data' addr"
    "ufrag_from_stun_message (env_stun E) (recv_into (sys_buf y) data') False = Ok u'"
    "hex_to_cow (env_hex E) u' = Returns g" and q: "mpsc_queued (env_mpsc E) (sys_chan (worker_turn E y (Received data addr))) =
      mpsc_queued (env_mpsc E) (sys_chan y) @ [new_peer_multiaddr (env_ma E) addr g]"
    by (rule worker_report_address [OF assms(1-3,6)])
  with assms(7) have g: "hex_to_cow (env_hex E) u = Returns g" by simp
  from assms(5) have "u = concat (map fmt_02x f)" by (auto simp: build_setting_engine_def Let_def strip_fingerprint)
  with hex_to_cow_encode [OF assms(2,4)] g have "g = f" by simp
  with q show ?thesis by simp
qed

text \<open>C13: The fingerprint the listener checks is the dialer's: when a dialer whose certificate has the fingerprint
  \<open>f\<close> configures its ICE credentials with \<open>build_setting_engine\<close>, and the mux worker of the listener reports the
  dialer's address because of a STUN message that carries this user name fragment, then the address it queues
  names the dialer's IP and port and ends in exactly \<open>f\<close>, so that the text the upgrade compares with what comes
  over noise is the text of the dialer's own certificate fingerprint.\<close>

theorem dialer_known_to_listener:
  assumes "multiaddr_laws (env_ma E)" and "hex_laws (env_hex E)" and "mpsc_laws (env_mpsc E)" and "length f = 32"
    and "SetIceCredentials u p \<in> set (build_setting_engine mux sa (fingerprint_to_string f))"
    and "reports y (worker_turn E y (Received data addr)) addr"
    and "ufrag_from_stun_message (env_stun E) (recv_into (sys_buf y) data) False = Ok u"
  shows "\<exists>m. mpsc_queued (env_mpsc E) (sys_chan (worker_turn E y (Received data addr))) =
      mpsc_queued (env_mpsc E) (sys_chan y) @ [m] \<and>
    multiaddr_to_socketaddr (env_ma E) m = Some (sock_new (sock_ip addr) (sock_port addr)) \<and>
    last (ma_iter (env_ma E) m) = XWebRTC f"
  using dialer_reported_address [OF assms] new_peer_multiaddr_parses(1) [OF assms(1), of addr f]
    iter_new_peer_multiaddr [OF assms(1), of addr f] by auto

lemma demo_env_laws:
  "multiaddr_laws (env_ma demo_env)" "hex_laws (env_hex demo_env)" "mpsc_laws (env_mpsc demo_env)"
  using list_ma_laws ref_hex_laws by (simp_all add: list_mpsc_laws)

lemma demo_ice: "SetIceCredentials demo_ufrag demo_ufrag \<in> set (build_setting_engine () demo_peer (fingerprint_to_string demo_fp))"
  by (simp add: build_setting_engine_def Let_def strip_fingerprint demo_ufrag_def)

lemma demo_stun_ufrag:
  "ufrag_from_stun_message (env_stun demo_env) (recv_into (sys_buf demo_sys) demo_packet) False = Ok demo_ufrag"
  by simp

lemma dialer_known_to_listener_witness:
  "\<exists>m. mpsc_queued list_mpsc (sys_chan (worker_turn demo_env demo_sys (Received demo_packet demo_peer))) = [m] \<and>
     last (ma_iter list_ma m) = XWebRTC demo_fp"
  using dialer_known_to_listener [OF demo_env_laws demo_fp_length demo_ice demo_reports demo_stun_ufrag] by auto

text \<open>An upgrade of an address that the worker can report never fails because of the address.\<close>

lemma reportable_upgrade:
  assumes "reportable M b m"
  shows "fst (webrtc A D C M T mux config m keys u) \<noteq> Returns (Err (InvalidMultiaddr a))"
proof -
  from assms obtain f where "last (ma_iter M m) = XWebRTC f" by (auto simp: reportable_def)
  from webrtc_address_ok [OF wf_multiaddr [OF assms] this, of A D C T mux config keys]
  show ?thesis by (simp add: ensures_def not_address_error_def)
qed

text \<open>An address reported while no other is waiting is the next upgrade event of an idle listener, and the upgrade
  does not fail because of the address.\<close>

lemma reported_peer_is_upgraded:
  assumes "multiaddr_laws (env_ma E)" and "hex_laws (env_hex E)" and "mpsc_laws (env_mpsc E)"
    and "reports y (worker_turn E y ev) addr" and "mpsc_queued (env_mpsc E) (sys_chan y) = []"
    and "ls_in_addr ls = One None" and "ls_pause ls = None"
  shows "\<exists>m q'. poll_next A D C (env_ma E) T (env_mpsc E) L ls (sys_chan (worker_turn E y ev)) w =
      Some (upgrade_item A D C (env_ma E) T ls m, ls, q', w) \<and> mpsc_queued (env_mpsc E) q' = [] \<and>
    multiaddr_to_socketaddr (env_ma E) m = Some (sock_new (sock_ip addr) (sock_port addr)) \<and>
    (\<forall>u a. fst (webrtc A D C (env_ma E) T (ls_udp_mux ls) (ls_config ls) m (ls_id_keys ls) u) \<noteq>
      Returns (Err (InvalidMultiaddr a)))"
proof -
  obtain ufrag f where f: "hex_to_cow (env_hex E) ufrag = Returns f"
    and q: "mpsc_queued (env_mpsc E) (sys_chan (worker_turn E y ev)) =
      mpsc_queued (env_mpsc E) (sys_chan y) @ [new_peer_multiaddr (env_ma E) addr f]"
    by (rule worker_report_address [OF assms(1-4)])
  have r: "reportable (env_ma E) addr (new_peer_multiaddr (env_ma E) addr f)"
    using hex_to_cow_length [OF assms(2) f] iter_new_peer_multiaddr [OF assms(1), of addr f] by (auto simp: reportable_def)
  from q assms(5) have "mpsc_queued (env_mpsc E) (sys_chan (worker_turn E y ev)) = [new_peer_multiaddr (env_ma E) addr f]"
    by simp
  from poll_next_upgrade [OF assms(3,6,7) this, of A D C "env_ma E" T L w] wf_multiaddr [OF r]
    reportable_upgrade [OF r, of A D C T]
  show ?thesis by blast
qed

text \<open>C8: Every announced peer is upgraded: after any interleaving of worker, callers and listener, a listener that is idle
  and polls as often as there are announcements it has not taken gets one upgrade event for each of them, in the
  order they were announced, whatever it has been polled for before; the channel is empty then, and none of the
  upgrades can fail because of its address.\<close>

theorem announced_peers_are_upgraded:
  assumes "report_laws E" and "run (system_step E ord) (system_new E cap v) vs (p, ts, y)"
    and "ls_in_addr ls = One None" and "ls_pause ls = None"
  shows "\<exists>ms q'. announced vs = delivered vs @ ms \<and>
    poll_many A D C (env_ma E) T (env_mpsc E) L (length ms) ls (sys_chan y) w =
      Some (map (upgrade_item A D C (env_ma E) T ls) ms, ls, q', w) \<and>
    mpsc_queued (env_mpsc E) q' = [] \<and>
    (\<forall>m \<in> set ms. \<forall>u a. fst (webrtc A D C (env_ma E) T (ls_udp_mux ls) (ls_config ls) m (ls_id_keys ls) u) \<noteq>
      Returns (Err (InvalidMultiaddr a)))"
proof -
  note spec = system_announces [OF assms(1,2)]
  let ?ms = "mpsc_queued (env_mpsc E) (sys_chan y)"
  have ms: "announced vs = delivered vs @ ?ms" using announce_spec_fifo [OF spec] by (simp add: observed_def)
  have "fst (webrtc A D C (env_ma E) T (ls_udp_mux ls) (ls_config ls) m (ls_id_keys ls) u) \<noteq> Returns (Err (InvalidMultiaddr a))"
    if "m \<in> set ?ms" for m u a
    using announced_reportable [OF spec] ms that reportable_upgrade [of "env_ma E" _ m A D C T] by fastforce
  moreover have "mpsc_laws (env_mpsc E)" using assms(1) by (simp add: report_laws_def)
  ultimately show ?thesis
    using ms poll_many_upgrades [OF _ assms(3,4) refl, of "env_mpsc E" A D C "env_ma E" T L "sys_chan y" w] by blast
qed

lemma announced_peers_are_upgraded_witness:
  "\<exists>q q'. poll_many toy_rtc toy_dc list_mpsc list_ma demo_tt list_mpsc toy_ifw 1 demo_listener q dw_init =
     Some ([upgrade_item toy_rtc toy_dc list_mpsc list_ma demo_tt demo_listener demo_ma], demo_listener, q', dw_init) \<and>
     mpsc_queued list_mpsc q = [demo_ma]"
proof -
  have ls: "ls_in_addr demo_listener = One None" "ls_pause demo_listener = None" by (simp_all add: demo_listener_def)
  obtain y where r: "run (system_step demo_env rev) (system_new demo_env 1 tw_init) demo_trace
      (WIdle, [Finished (CloseRet (Ok ()))], y)" and q: "mpsc_queued list_mpsc (sys_chan y) = [demo_ma]"
    using demo_run by blast
  have "announced demo_trace = delivered demo_trace @ [demo_ma]" by (simp add: demo_trace_def)
  moreover obtain ms q' where "announced demo_trace = delivered demo_trace @ ms"
    and p: "poll_many toy_rtc toy_dc list_mpsc list_ma demo_tt list_mpsc toy_ifw (length ms) demo_listener (sys_chan y) dw_init =
      Some (map (upgrade_item toy_rtc toy_dc list_mpsc list_ma demo_tt demo_listener) ms, demo_listener, q', dw_init)"
    using announced_peers_are_upgraded [OF demo_report_laws r ls, where A = toy_rtc and D = toy_dc and C = list_mpsc
      and T = demo_tt and L = toy_ifw and w = dw_init] by (auto simp only: demo_env_sel)
  ultimately have "ms = [demo_ma]" by simp
  with p q show ?thesis by (intro exI [of _ "sys_chan y"] exI [of _ q']) simp
qed



end
